(* ===== verification/Prelude.thy ===== *)
theory Prelude
  imports Main "HOL-Library.Word" "HOL-Library.List_Lexorder" "HOL-Library.Char_ord"
    "HOL-Library.Product_Lexorder" "HOL-Library.AList" "HOL-Library.Multiset" "HOL-Library.Code_Target_Nat"
begin

text \<open>
  Shared vocabulary of the development.

  \<^item> Machine integers and the two time types of Go: a \<open>Duration\<close> is a signed 64-bit number of
    nanoseconds, a \<open>Time\<close> is a point on the wall clock in nanoseconds.
  \<^item> Go maps. A map is an association list with distinct keys. The order of the list carries no
    meaning of its own: wherever the code ranges over a map, the model first applies a
    \<^emph>\<open>reordering\<close> to the list, a function that is an argument of the definition and of which only
    \<open>reordering\<close> is known. Theorems that hold for every reordering hold for every
    iteration order the Go runtime can choose.
  \<^item> Sorting. \<open>sort.SliceStable\<close> is stable insertion with the comparison function of the call;
    the locale \<open>key_order\<close> gives its laws once for every comparison function that
    compares a key.
\<close>

named_theorems gomap_simps \<open>lookup in updated Go maps\<close>
named_theorems reorder_simps \<open>facts that do not depend on a reordering\<close>

type_synonym int32 = "32 word"
type_synonym int64 = "64 word"
type_synonym Time = int
type_synonym Duration = "64 word"
type_synonym ('k, 'v) gomap = "('k \<times> 'v) list"

subsection \<open>Durations and times\<close>

definition Second :: Duration where
  "Second = 1000000000"

definition duration_seconds :: "int \<Rightarrow> Duration" where
  "duration_seconds n = word_of_int n * Second"

definition time_Add :: "Time \<Rightarrow> Duration \<Rightarrow> Time" where
  "time_Add t d = t + sint d"

definition time_After :: "Time \<Rightarrow> Time \<Rightarrow> bool" where
  "time_After t u \<longleftrightarrow> u < t"

text \<open>\<open>Time.Sub\<close> saturates at the ends of the 64-bit range.\<close>

definition time_Sub :: "Time \<Rightarrow> Time \<Rightarrow> Duration" where
  "time_Sub t u = word_of_int (max (- (2 ^ 63)) (min (2 ^ 63 - 1) (t - u)))"

lemma sint_word_of_int_in_range:
  assumes "- (2 ^ 63) \<le> n" and "n < 2 ^ 63"
  shows "sint (word_of_int n :: 64 word) = n"
  using assms by (simp add: sint_sbintrunc' signed_take_bit_int_eq_self)

lemma sint_time_Sub:
  "sint (time_Sub t u) = max (- (2 ^ 63)) (min (2 ^ 63 - 1) (t - u))"
  unfolding time_Sub_def by (rule sint_word_of_int_in_range) auto

text \<open>No \<open>int32\<close> number of seconds overflows the 64-bit duration.\<close>

lemma sint_duration_seconds:
  assumes "- (2 ^ 31) \<le> n" and "n < 2 ^ 31"
  shows "sint (duration_seconds n) = n * 1000000000"
proof -
  have "duration_seconds n = word_of_int (n * 1000000000)"
    by (simp add: duration_seconds_def Second_def)
  moreover have "- (2 ^ 63) \<le> n * 1000000000" and "n * 1000000000 < 2 ^ 63"
    using assms by simp_all
  ultimately show ?thesis by (simp only: sint_word_of_int_in_range)
qed

lemma sint32_bounds: "- (2 ^ 31) \<le> sint (n :: int32)" "sint (n :: int32) < 2 ^ 31"
  using sint_ge [of n] sint_lt [of n] by simp_all

lemma sint_duration_seconds_int32:
  "sint (duration_seconds (sint (n :: int32))) = sint n * 1000000000"
  by (rule sint_duration_seconds) (rule sint32_bounds)+

subsection \<open>Reorderings\<close>

definition reordering :: "('a list \<Rightarrow> 'a list) \<Rightarrow> bool" where
  "reordering r \<longleftrightarrow> (\<forall>xs. mset (r xs) = mset xs)"

lemma reordering_id [simp]: "reordering id" "reordering (\<lambda>xs. xs)"
  by (simp_all add: reordering_def)

lemma reordering_rev [simp]: "reordering rev"
  by (simp add: reordering_def)

lemma reordering_mset [reorder_simps]: "reordering r \<Longrightarrow> mset (r xs) = mset xs"
  by (simp add: reordering_def)

lemma reordering_set [reorder_simps]: "reordering r \<Longrightarrow> set (r xs) = set xs"
  by (metis reordering_mset set_mset_mset)

lemma reordering_length [reorder_simps]: "reordering r \<Longrightarrow> length (r xs) = length xs"
  by (metis reordering_mset size_mset)

lemma reordering_Nil [reorder_simps]: "reordering r \<Longrightarrow> r [] = []"
  using reordering_length [of r "[]"] by simp

lemma reordering_distinct_map:
  "reordering r \<Longrightarrow> distinct (map f (r xs)) = distinct (map f xs)"
  by (metis reordering_mset mset_eq_imp_distinct_iff mset_map)

lemma reordering_distinct [reorder_simps]: "reordering r \<Longrightarrow> distinct (r xs) = distinct xs"
  by (metis reordering_mset mset_eq_imp_distinct_iff)

lemma reordering_map_of [reorder_simps]:
  assumes "reordering r" and "distinct (map fst m)"
  shows "map_of (r m) = map_of m"
  using assms by (metis map_of_inject_set reordering_distinct_map reordering_set)

subsection \<open>Sorting with a comparison function\<close>

fun insert_less :: "('a \<Rightarrow> 'a \<Rightarrow> bool) \<Rightarrow> 'a \<Rightarrow> 'a list \<Rightarrow> 'a list" where
  "insert_less lt x [] = [x]"
| "insert_less lt x (y # ys) = (if lt y x then y # insert_less lt x ys else x # y # ys)"

definition sort_SliceStable :: "('a \<Rightarrow> 'a \<Rightarrow> bool) \<Rightarrow> 'a list \<Rightarrow> 'a list" where
  "sort_SliceStable lt xs = foldr (insert_less lt) xs []"

text \<open>
  \<open>sort.Slice\<close> promises no stability: its result is the stable sort of some reordering
  of the slice, and the reordering is an argument.
\<close>

definition sort_Slice :: "('a list \<Rightarrow> 'a list) \<Rightarrow> ('a \<Rightarrow> 'a \<Rightarrow> bool) \<Rightarrow> 'a list \<Rightarrow> 'a list" where
  "sort_Slice r lt xs = sort_SliceStable lt (r xs)"

definition sort_Strings :: "string list \<Rightarrow> string list" where
  "sort_Strings xs = sort_SliceStable (<) xs"

locale key_order =
  fixes lt :: "'a \<Rightarrow> 'a \<Rightarrow> bool" and key :: "'a \<Rightarrow> 'k::linorder"
  assumes lt_key: "lt x y \<longleftrightarrow> key x < key y"
begin

lemma insert_less_key: "insert_less lt x xs = insort_key key x xs"
  by (induction xs) (auto simp: lt_key)

lemma stable_eq: "sort_SliceStable lt xs = sort_key key xs"
proof -
  have "insert_less lt = insort_key key"
    by (intro ext) (rule insert_less_key)
  then show ?thesis by (simp add: sort_SliceStable_def sort_key_def)
qed

lemma stable_mset: "mset (sort_SliceStable lt xs) = mset xs"
  by (simp add: stable_eq)

lemma stable_set: "set (sort_SliceStable lt xs) = set xs"
  by (simp add: stable_eq)

lemma stable_length: "length (sort_SliceStable lt xs) = length xs"
  by (simp add: stable_eq)

lemma stable_sorted: "sorted (map key (sort_SliceStable lt xs))"
  by (simp add: stable_eq)

lemma stable_fixpoint: "sorted (map key xs) \<Longrightarrow> sort_SliceStable lt xs = xs"
  by (simp add: stable_eq sort_key_id_if_sorted)

lemma stable_unique:
  assumes "mset xs = mset ys" and "inj_on key (set xs)"
  shows "sort_SliceStable lt xs = sort_SliceStable lt ys"
  unfolding stable_eq using assms by (intro sort_key_inj_key_eq) simp_all

lemma slice_reordering:
  assumes "reordering r" and "inj_on key (set xs)"
  shows "sort_Slice r lt xs = sort_SliceStable lt xs"
  unfolding sort_Slice_def using assms
  by (intro stable_unique) (simp_all add: reorder_simps)

lemma slice_mset: "reordering r \<Longrightarrow> mset (sort_Slice r lt xs) = mset xs"
  by (simp add: sort_Slice_def stable_mset reorder_simps)

end

interpretation string_order: key_order "(<) :: string \<Rightarrow> string \<Rightarrow> bool" "\<lambda>s. s"
  by unfold_locales simp

lemma sort_Strings_eq: "sort_Strings xs = sort xs"
  unfolding sort_Strings_def by (rule string_order.stable_eq)

lemma sort_Strings_mset_cong: "mset xs = mset ys \<Longrightarrow> sort_Strings xs = sort_Strings ys"
  by (simp add: sort_Strings_eq) (metis mset_eq_setD properties_for_sort mset_sort sorted_sort)

subsection \<open>Go maps\<close>

abbreviation gm_lookup :: "('k, 'v) gomap \<Rightarrow> 'k \<Rightarrow> 'v option" where
  "gm_lookup \<equiv> map_of"

abbreviation gm_update :: "'k \<Rightarrow> 'v \<Rightarrow> ('k, 'v) gomap \<Rightarrow> ('k, 'v) gomap" where
  "gm_update \<equiv> AList.update"

abbreviation gm_delete :: "'k \<Rightarrow> ('k, 'v) gomap \<Rightarrow> ('k, 'v) gomap" where
  "gm_delete \<equiv> AList.delete"

definition gm_wf :: "('k, 'v) gomap \<Rightarrow> bool" where
  "gm_wf m \<longleftrightarrow> distinct (map fst m)"

lemma gm_wf_Nil [simp]: "gm_wf []"
  by (simp add: gm_wf_def)

lemma gm_wf_update [simp]: "gm_wf m \<Longrightarrow> gm_wf (gm_update k v m)"
  by (simp add: gm_wf_def distinct_update)

lemma gm_wf_delete [simp]: "gm_wf m \<Longrightarrow> gm_wf (gm_delete k m)"
  by (simp add: gm_wf_def distinct_delete)

lemma gm_lookup_update [gomap_simps]:
  "gm_lookup (gm_update k v m) x = (if x = k then Some v else gm_lookup m x)"
  by (simp add: update_conv')

lemma gm_lookup_delete [gomap_simps]:
  "gm_lookup (gm_delete k m) x = (if x = k then None else gm_lookup m x)"
  by (simp add: delete_conv')

lemma gm_dom_update [gomap_simps]: "fst ` set (gm_update k v m) = insert k (fst ` set m)"
  by (metis dom_fun_upd dom_map_of_conv_image_fst option.distinct(1) update_conv')

lemma gm_lookup_iff: "gm_wf m \<Longrightarrow> gm_lookup m k = Some v \<longleftrightarrow> (k, v) \<in> set m"
  by (simp add: gm_wf_def)

end
