(* ===== verification/Go_Strings.thy ===== *)
theory Go_Strings
  imports Prelude
begin

text \<open>
  The parts of Go's standard library on strings that the operator calls: \<open>strings.Split\<close>,
  \<open>strings.Join\<close>, \<open>strings.HasPrefix\<close>, \<open>strconv.Itoa\<close> (the \<open>%d\<close> of
  \<open>fmt.Sprintf\<close>) and \<open>regexp\<close> matching of an anchored pattern. A Go string is its
  list of bytes.

  Regular expressions are syntax trees, so that a pattern of the source is a term of the model;
  matching is by derivatives and is proved to decide the language of the tree.
\<close>

subsection \<open>Splitting and joining\<close>

fun strings_Split :: "string \<Rightarrow> char \<Rightarrow> string list" where
  "strings_Split [] c = [[]]"
| "strings_Split (x # xs) c =
     (if x = c then [] # strings_Split xs c
      else (case strings_Split xs c of [] \<Rightarrow> [[x]] | w # ws \<Rightarrow> (x # w) # ws))"

fun strings_Join :: "string list \<Rightarrow> string \<Rightarrow> string" where
  "strings_Join [] sep = []"
| "strings_Join [w] sep = w"
| "strings_Join (w # ws) sep = w @ sep @ strings_Join ws sep"

definition strings_HasPrefix :: "string \<Rightarrow> string \<Rightarrow> bool" where
  "strings_HasPrefix s p \<longleftrightarrow> take (length p) s = p"

lemma strings_HasPrefix_iff: "strings_HasPrefix s p \<longleftrightarrow> (\<exists>t. s = p @ t)"
  unfolding strings_HasPrefix_def by (metis append_eq_conv_conj append_take_drop_id)

lemma strings_Split_not_Nil [simp]: "strings_Split s c \<noteq> []"
  by (induction s) (auto split: list.splits)

lemma strings_Split_no_sep: "c \<notin> set s \<Longrightarrow> strings_Split s c = [s]"
  by (induction s) auto

lemma strings_Split_append:
  "c \<notin> set w \<Longrightarrow> strings_Split (w @ c # s) c = w # strings_Split s c"
  by (induction w) auto

lemma strings_Join_Cons: "ws \<noteq> [] \<Longrightarrow> strings_Join (w # ws) sep = w @ sep @ strings_Join ws sep"
  by (cases ws) auto

lemma strings_Split_Join:
  assumes "ws \<noteq> []" and "\<forall>w \<in> set ws. c \<notin> set w"
  shows "strings_Split (strings_Join ws [c]) c = ws"
  using assms
proof (induction ws)
  case Nil
  then show ?case by simp
next
  case (Cons w ws)
  then show ?case
    by (cases "ws = []") (simp_all add: strings_Split_no_sep strings_Join_Cons strings_Split_append)
qed

lemma strings_Join_inject:
  assumes "ws \<noteq> []" and "vs \<noteq> []"
    and "\<forall>w \<in> set ws. c \<notin> set w" and "\<forall>v \<in> set vs. c \<notin> set v"
  shows "strings_Join ws [c] = strings_Join vs [c] \<longleftrightarrow> ws = vs"
  using assms strings_Split_Join by metis

subsection \<open>Decimal numbers\<close>

definition digit_char :: "nat \<Rightarrow> char" where
  "digit_char d = char_of (48 + d)"

fun nat_digits :: "nat \<Rightarrow> string" where
  "nat_digits n = (if n < 10 then [digit_char n] else nat_digits (n div 10) @ [digit_char (n mod 10)])"

declare nat_digits.simps [simp del]

definition Itoa :: "int \<Rightarrow> string" where
  "Itoa i = (if i < 0 then CHR ''-'' # nat_digits (nat (- i)) else nat_digits (nat i))"

definition is_digit :: "char \<Rightarrow> bool" where
  "is_digit c \<longleftrightarrow> CHR ''0'' \<le> c \<and> c \<le> CHR ''9''"

definition digit_val :: "char \<Rightarrow> nat" where
  "digit_val c = of_char c - 48"

definition digits_val :: "nat \<Rightarrow> string \<Rightarrow> nat" where
  "digits_val acc s = foldl (\<lambda>n c. n * 10 + digit_val c) acc s"

lemma is_digit_iff: "is_digit c \<longleftrightarrow> 48 \<le> (of_char c :: nat) \<and> (of_char c :: nat) \<le> 57"
  by (simp add: is_digit_def less_eq_char_def)

lemma of_digit_char: "d < 10 \<Longrightarrow> (of_char (digit_char d) :: nat) = 48 + d"
  by (simp add: digit_char_def)

lemma is_digit_digit_char [simp]: "d < 10 \<Longrightarrow> is_digit (digit_char d)"
  by (simp add: is_digit_iff of_digit_char)

lemma digit_val_digit_char [simp]: "d < 10 \<Longrightarrow> digit_val (digit_char d) = d"
  by (simp add: digit_val_def of_digit_char)

lemma nat_digits_not_Nil [simp]: "nat_digits n \<noteq> []"
  by (subst nat_digits.simps) simp

lemma nat_digits_all_digits: "\<forall>c \<in> set (nat_digits n). is_digit c"
proof (induction n rule: nat_digits.induct)
  case (1 n)
  then show ?case by (cases "n < 10") (auto simp: nat_digits.simps [of n])
qed

lemma digits_val_snoc: "digits_val acc (s @ [c]) = digits_val acc s * 10 + digit_val c"
  by (simp add: digits_val_def)

lemma digits_val_nat_digits: "digits_val 0 (nat_digits n) = n"
proof (induction n rule: nat_digits.induct)
  case (1 n)
  show ?case
  proof (cases "n < 10")
    case True
    then show ?thesis by (simp add: nat_digits.simps [of n] digits_val_def)
  next
    case False
    with "1.IH" have "digits_val 0 (nat_digits (n div 10)) = n div 10" by simp
    with False show ?thesis by (simp add: nat_digits.simps [of n] digits_val_snoc)
  qed
qed

lemma nat_digits_inject [simp]: "nat_digits m = nat_digits n \<longleftrightarrow> m = n"
  by (metis digits_val_nat_digits)

lemma Itoa_chars: "c \<in> set (Itoa i) \<Longrightarrow> is_digit c \<or> c = CHR ''-''"
  using nat_digits_all_digits by (auto simp: Itoa_def split: if_splits)

lemma nat_digits_no_minus: "CHR ''-'' \<notin> set (nat_digits n)"
  using nat_digits_all_digits [of n] by (auto simp: is_digit_iff)

lemma Itoa_inject [simp]: "Itoa i = Itoa j \<longleftrightarrow> i = j"
proof
  assume eq: "Itoa i = Itoa j"
  have "CHR ''-'' \<in> set (Itoa i) \<longleftrightarrow> CHR ''-'' \<in> set (Itoa j)" using eq by simp
  then have sign: "i < 0 \<longleftrightarrow> j < 0"
    using nat_digits_no_minus [of "nat i"] nat_digits_no_minus [of "nat j"]
    by (auto simp: Itoa_def split: if_splits)
  show "i = j"
  proof (cases "i < 0")
    case True
    with eq sign show ?thesis by (simp add: Itoa_def)
  next
    case False
    with eq sign show ?thesis by (simp add: Itoa_def)
  qed
qed simp

subsection \<open>Regular expressions\<close>

datatype rexp =
    Zero
  | One
  | Cls "(char \<times> char) list"
  | Seq rexp rexp
  | Alt rexp rexp
  | Star rexp

fun in_class :: "(char \<times> char) list \<Rightarrow> char \<Rightarrow> bool" where
  "in_class [] c = False"
| "in_class ((lo, hi) # rs) c = (lo \<le> c \<and> c \<le> hi \<or> in_class rs c)"

definition Opt :: "rexp \<Rightarrow> rexp" where
  "Opt r = Alt One r"

definition Plus :: "rexp \<Rightarrow> rexp" where
  "Plus r = Seq r (Star r)"

fun Upto :: "nat \<Rightarrow> rexp \<Rightarrow> rexp" where
  "Upto 0 r = One"
| "Upto (Suc n) r = Opt (Seq r (Upto n r))"

fun Times :: "nat \<Rightarrow> rexp \<Rightarrow> rexp" where
  "Times 0 r = One"
| "Times (Suc n) r = Seq r (Times n r)"

inductive matches :: "rexp \<Rightarrow> string \<Rightarrow> bool" where
  One: "matches One []"
| Cls: "in_class k c \<Longrightarrow> matches (Cls k) [c]"
| Seq: "matches r s \<Longrightarrow> matches q t \<Longrightarrow> matches (Seq r q) (s @ t)"
| AltL: "matches r s \<Longrightarrow> matches (Alt r q) s"
| AltR: "matches q s \<Longrightarrow> matches (Alt r q) s"
| Star0: "matches (Star r) []"
| StarS: "matches r s \<Longrightarrow> matches (Star r) t \<Longrightarrow> matches (Star r) (s @ t)"

inductive_simps matches_Zero [simp]: "matches Zero s"
inductive_simps matches_One [simp]: "matches One s"
inductive_simps matches_Cls [simp]: "matches (Cls k) s"
inductive_simps matches_Seq: "matches (Seq r q) s"
inductive_simps matches_Alt [simp]: "matches (Alt r q) s"

fun nullable :: "rexp \<Rightarrow> bool" where
  "nullable Zero = False"
| "nullable One = True"
| "nullable (Cls k) = False"
| "nullable (Seq r q) = (nullable r \<and> nullable q)"
| "nullable (Alt r q) = (nullable r \<or> nullable q)"
| "nullable (Star r) = True"

fun deriv :: "char \<Rightarrow> rexp \<Rightarrow> rexp" where
  "deriv c Zero = Zero"
| "deriv c One = Zero"
| "deriv c (Cls k) = (if in_class k c then One else Zero)"
| "deriv c (Seq r q) =
     (if nullable r then Alt (Seq (deriv c r) q) (deriv c q) else Seq (deriv c r) q)"
| "deriv c (Alt r q) = Alt (deriv c r) (deriv c q)"
| "deriv c (Star r) = Seq (deriv c r) (Star r)"

definition MatchString :: "rexp \<Rightarrow> string \<Rightarrow> bool" where
  "MatchString r s = nullable (foldl (\<lambda>q c. deriv c q) r s)"

lemma matches_Nil: "matches r [] \<longleftrightarrow> nullable r"
  by (induction r) (auto simp: matches_Seq intro: matches.Star0)

lemma matches_Star_Cons:
  "matches (Star r) (c # s) \<longleftrightarrow> (\<exists>u t. s = u @ t \<and> matches r (c # u) \<and> matches (Star r) t)"
proof
  have "matches q w \<Longrightarrow> q = Star r \<Longrightarrow> w = c # s \<Longrightarrow>
      \<exists>u t. s = u @ t \<and> matches r (c # u) \<and> matches (Star r) t" for q w
  proof (induction arbitrary: s rule: matches.induct)
    case (StarS r' s' t')
    then show ?case by (cases s') auto
  qed auto
  then show "matches (Star r) (c # s) \<Longrightarrow>
      \<exists>u t. s = u @ t \<and> matches r (c # u) \<and> matches (Star r) t" by blast
next
  assume "\<exists>u t. s = u @ t \<and> matches r (c # u) \<and> matches (Star r) t"
  then show "matches (Star r) (c # s)"
    using matches.StarS by fastforce
qed

lemma matches_Seq_Cons:
  "matches (Seq r q) (c # s) \<longleftrightarrow>
     (\<exists>u t. s = u @ t \<and> matches r (c # u) \<and> matches q t) \<or> nullable r \<and> matches q (c # s)"
  unfolding matches_Seq Cons_eq_append_conv using matches_Nil by (auto 0 3)

lemma matches_deriv: "matches (deriv c r) s \<longleftrightarrow> matches r (c # s)"
proof (induction r arbitrary: s)
  case (Seq r q)
  then show ?case by (simp add: matches_Seq_Cons) (auto simp: matches_Seq)
next
  case (Star r)
  then show ?case by (auto simp: matches_Star_Cons matches_Seq)
qed auto

lemma MatchString_iff: "MatchString r s \<longleftrightarrow> matches r s"
  by (induction s arbitrary: r) (simp_all add: MatchString_def matches_Nil matches_deriv)

lemma matches_Opt [simp]: "matches (Opt r) s \<longleftrightarrow> s = [] \<or> matches r s"
  by (auto simp: Opt_def)

lemma matches_SeqD: "matches (Seq r q) s \<Longrightarrow> \<exists>u v. s = u @ v \<and> matches r u \<and> matches q v"
  by (simp add: matches_Seq)

lemma matches_Seq_Cls: "matches (Seq (Cls k) r) s \<longleftrightarrow> (\<exists>c t. s = c # t \<and> in_class k c \<and> matches r t)"
  unfolding matches_Seq by (auto intro: exI [of _ "[_]"])

lemma matches_Upto_Cls:
  "matches (Upto n (Cls k)) s \<longleftrightarrow> length s \<le> n \<and> list_all (in_class k) s"
proof (induction n arbitrary: s)
  case 0
  then show ?case by auto
next
  case (Suc n)
  then show ?case by (cases s) (auto simp: matches_Seq_Cls)
qed

lemma matches_Star_Cls: "matches (Star (Cls k)) s \<longleftrightarrow> list_all (in_class k) s"
proof (induction s)
  case Nil
  then show ?case by (simp add: matches.Star0)
next
  case (Cons c s)
  then show ?case by (auto simp: matches_Star_Cons)
qed

lemma matches_Times_Cls:
  "matches (Times n (Cls k)) s \<longleftrightarrow> length s = n \<and> list_all (in_class k) s"
proof (induction n arbitrary: s)
  case 0
  then show ?case by auto
next
  case (Suc n)
  then show ?case by (cases s) (auto simp: matches_Seq_Cls)
qed

end
