(* ===== verification/Go_Net.thy ===== *)
theory Go_Net
  imports Go_Strings
begin

text \<open>
  The parts of Go's \<open>net\<close> and \<open>net/netip\<close> packages that the operator calls: the byte-slice
  address type \<open>net.IP\<close> with \<open>To4\<close>, \<open>To16\<close>, \<open>IsPrivate\<close> and \<open>String\<close>, and
  \<open>net.ParseCIDR\<close> with the IPv4 and IPv6 parsers below it. A parse error carries no
  information the operator uses, so the parsers return \<open>None\<close> for it.

  The main lemma is \<open>ParseCIDR_String\<close>: every printed address parses back to its 16-byte form.
\<close>

unbundle bit_operations_syntax

type_synonym byte = "8 word"
type_synonym IP = "byte list"

subsection \<open>Addresses\<close>

definition v4InV6Prefix :: "byte list" where
  "v4InV6Prefix = [0, 0, 0, 0, 0, 0, 0, 0, 0, 0, 255, 255]"

definition To4 :: "IP \<Rightarrow> IP option" where
  "To4 ip = (if length ip = 4 then Some ip
             else if length ip = 16 \<and> take 12 ip = v4InV6Prefix then Some (drop 12 ip)
             else None)"

definition To16 :: "IP \<Rightarrow> IP" where
  "To16 ip = (if length ip = 4 then v4InV6Prefix @ ip else if length ip = 16 then ip else [])"

definition IP_IsPrivate :: "IP \<Rightarrow> bool" where
  "IP_IsPrivate ip =
     (case To4 ip of
        Some p \<Rightarrow> p ! 0 = 10 \<or> (p ! 0 = 172 \<and> p ! 1 AND 0xf0 = 16) \<or> (p ! 0 = 192 \<and> p ! 1 = 168)
      | None \<Rightarrow> length ip = 16 \<and> ip ! 0 AND 0xfe = 0xfc)"

subsection \<open>Printing\<close>

definition hex_char :: "nat \<Rightarrow> char" where
  "hex_char d = char_of (if d < 10 then 48 + d else 87 + d)"

fun hex_digits :: "nat \<Rightarrow> string" where
  "hex_digits n = (if n < 16 then [hex_char n] else hex_digits (n div 16) @ [hex_char (n mod 16)])"

declare hex_digits.simps [simp del]

definition hex_byte :: "byte \<Rightarrow> string" where
  "hex_byte b = [hex_char (unat b div 16), hex_char (unat b mod 16)]"

definition v4_string :: "byte list \<Rightarrow> string" where
  "v4_string bs = strings_Join (map (\<lambda>b. nat_digits (unat b)) bs) ''.''"

text \<open>The eight 16-bit groups of a 16-byte address, and the longest run of zero groups.\<close>

fun groups_of :: "byte list \<Rightarrow> nat list" where
  "groups_of (a # b # bs) = (unat a * 256 + unat b) # groups_of bs"
| "groups_of _ = []"

definition zero_run :: "nat list \<Rightarrow> nat" where
  "zero_run gs = length (takeWhile (\<lambda>g. g = 0) gs)"

definition better_run :: "nat list \<Rightarrow> nat \<times> nat \<Rightarrow> nat \<Rightarrow> nat \<times> nat" where
  "better_run gs best i =
     (let l = zero_run (drop i gs)
      in if 2 \<le> l \<and> snd best - fst best < l then (i, i + l) else best)"

definition best_run :: "nat list \<Rightarrow> nat \<times> nat" where
  "best_run gs = foldl (better_run gs) (255, 255) [0..<8]"

definition v6_string :: "nat list \<Rightarrow> string" where
  "v6_string gs =
     (let (s, e) = best_run gs
      in if s < 8
         then strings_Join (map hex_digits (take s gs)) '':'' @ ''::'' @
              strings_Join (map hex_digits (drop e gs)) '':''
         else strings_Join (map hex_digits gs) '':'')"

definition IP_String :: "IP \<Rightarrow> string" where
  "IP_String ip =
     (if ip = [] then ''<nil>''
      else if length ip \<noteq> 4 \<and> length ip \<noteq> 16 then CHR ''?'' # concat (map hex_byte ip)
      else (case To4 ip of Some p \<Rightarrow> v4_string p | None \<Rightarrow> v6_string (groups_of ip)))"

subsection \<open>Parsing\<close>

definition v4_field :: "string \<Rightarrow> nat option" where
  "v4_field w =
     (if w \<noteq> [] \<and> list_all is_digit w \<and> (1 < length w \<longrightarrow> hd w \<noteq> CHR ''0'') \<and> digits_val 0 w \<le> 255
      then Some (digits_val 0 w) else None)"

fun v4_fields :: "string list \<Rightarrow> nat list option" where
  "v4_fields [] = Some []"
| "v4_fields (w # ws) =
     (case v4_field w of
        None \<Rightarrow> None
      | Some n \<Rightarrow> (case v4_fields ws of None \<Rightarrow> None | Some ns \<Rightarrow> Some (n # ns)))"

definition parseIPv4Fields :: "string \<Rightarrow> nat list option" where
  "parseIPv4Fields s =
     (let ws = strings_Split s (CHR ''.'') in if length ws = 4 then v4_fields ws else None)"

definition is_hex :: "char \<Rightarrow> bool" where
  "is_hex c \<longleftrightarrow> is_digit c \<or> CHR ''a'' \<le> c \<and> c \<le> CHR ''f'' \<or> CHR ''A'' \<le> c \<and> c \<le> CHR ''F''"

definition hex_val :: "char \<Rightarrow> nat" where
  "hex_val c = (if is_digit c then of_char c - 48
                else if CHR ''a'' \<le> c then of_char c - 87 else of_char c - 55)"

definition hexs_val :: "string \<Rightarrow> nat" where
  "hexs_val s = foldl (\<lambda>n c. n * 16 + hex_val c) 0 s"

text \<open>
  The loop of \<open>parseIPv6\<close>: the number of groups still free, the groups read, the position of the
  ellipsis, the rest of the input.
\<close>

fun v6_loop :: "nat \<Rightarrow> nat list \<Rightarrow> nat option \<Rightarrow> string \<Rightarrow> (nat list \<times> nat option \<times> string) option" where
  "v6_loop 0 gs el s = Some (gs, el, s)"
| "v6_loop (Suc n) gs el s =
     (let ds = takeWhile is_hex s; rest = dropWhile is_hex s; gs' = gs @ [hexs_val ds]
      in if ds = [] \<or> 4 < length ds then None
         else (case rest of
            [] \<Rightarrow> Some (gs', el, [])
          | c # s1 \<Rightarrow>
              if c = CHR ''.'' then
                (if el = None \<and> length gs \<noteq> 6 \<or> 8 < length gs + 2 then None
                 else (case parseIPv4Fields s of
                     Some [a, b, c', d] \<Rightarrow> Some (gs @ [a * 256 + b, c' * 256 + d], el, [])
                   | _ \<Rightarrow> None))
              else if c \<noteq> CHR '':'' then None
              else (case s1 of
                  [] \<Rightarrow> None
                | c1 # s2 \<Rightarrow>
                    if c1 = CHR '':'' then
                      (if el \<noteq> None then None
                       else if s2 = [] then Some (gs', Some (length gs'), [])
                       else v6_loop n gs' (Some (length gs')) s2)
                    else v6_loop n gs' el s1)))"

definition v6_expand :: "nat list \<times> nat option \<times> string \<Rightarrow> nat list option" where
  "v6_expand r =
     (let (gs, el, s) = r
      in if s \<noteq> [] then None
         else if length gs < 8
         then (case el of
             None \<Rightarrow> None
           | Some e \<Rightarrow> Some (take e gs @ replicate (8 - length gs) 0 @ drop e gs))
         else if el \<noteq> None then None
         else Some gs)"

definition parseIPv6 :: "string \<Rightarrow> nat list option" where
  "parseIPv6 s =
     (if take 2 s = ''::''
      then (if drop 2 s = [] then Some (replicate 8 0)
            else Option.bind (v6_loop 8 [] (Some 0) (drop 2 s)) v6_expand)
      else Option.bind (v6_loop 8 [] None s) v6_expand)"

definition bytes_of_groups :: "nat list \<Rightarrow> byte list" where
  "bytes_of_groups gs = concat (map (\<lambda>g. [of_nat (g div 256), of_nat (g mod 256)]) gs)"

text \<open>
  \<open>netip.ParseAddr\<close>: the first of the three characters decides. The result is the 16-byte form
  and the bit length of the address. An address with a zone is refused by \<open>ParseCIDR\<close>, so any
  per cent sign makes the result \<open>None\<close> here.
\<close>

definition ParseAddr :: "string \<Rightarrow> (IP \<times> nat) option" where
  "ParseAddr s =
     (if CHR ''%'' \<in> set s then None
      else (case dropWhile (\<lambda>c. c \<noteq> CHR ''.'' \<and> c \<noteq> CHR '':'') s of
          [] \<Rightarrow> None
        | c # _ \<Rightarrow>
            if c = CHR ''.''
            then map_option (\<lambda>ns. (v4InV6Prefix @ map of_nat ns, 32)) (parseIPv4Fields s)
            else map_option (\<lambda>gs. (bytes_of_groups gs, 128)) (parseIPv6 s)))"

text \<open>\<open>net.ParseCIDR\<close>: address and prefix length. The mask \<open>/n\<close> has exactly \<open>n\<close> leading ones.\<close>

definition mask_digits :: "string \<Rightarrow> nat option" where
  "mask_digits w =
     (if w \<noteq> [] \<and> list_all is_digit w \<and> digits_val 0 w < 0xFFFFFF then Some (digits_val 0 w) else None)"

definition ParseCIDR :: "string \<Rightarrow> (IP \<times> nat) option" where
  "ParseCIDR s =
     (case dropWhile (\<lambda>c. c \<noteq> CHR ''/'') s of
        [] \<Rightarrow> None
      | _ # w \<Rightarrow>
          (case ParseAddr (takeWhile (\<lambda>c. c \<noteq> CHR ''/'') s) of
             None \<Rightarrow> None
           | Some (ip, bits) \<Rightarrow>
               (case mask_digits w of
                  None \<Rightarrow> None
                | Some n \<Rightarrow> if n \<le> bits then Some (ip, n) else None)))"

subsection \<open>Digits\<close>

lemma digit_not_sep: "is_digit c \<Longrightarrow> c \<noteq> CHR ''.'' \<and> c \<noteq> CHR '':'' \<and> c \<noteq> CHR ''%'' \<and> c \<noteq> CHR ''/''"
  by (auto simp: is_digit_iff)

lemma hex_not_sep: "is_hex c \<Longrightarrow> c \<noteq> CHR ''.'' \<and> c \<noteq> CHR '':'' \<and> c \<noteq> CHR ''%'' \<and> c \<noteq> CHR ''/''"
  by (auto simp: is_hex_def is_digit_iff less_eq_char_def)

lemma of_hex_char: "d < 16 \<Longrightarrow> (of_char (hex_char d) :: nat) = (if d < 10 then 48 + d else 87 + d)"
  by (simp add: hex_char_def)

lemma is_hex_hex_char: "d < 16 \<Longrightarrow> is_hex (hex_char d)"
  by (auto simp: is_hex_def is_digit_iff less_eq_char_def of_hex_char)

lemma hex_val_hex_char: "d < 16 \<Longrightarrow> hex_val (hex_char d) = d"
  by (auto simp: hex_val_def is_digit_iff less_eq_char_def of_hex_char)

lemma hex_digits_not_Nil [simp]: "hex_digits n \<noteq> []"
  by (subst hex_digits.simps) simp

lemma hex_digits_all_hex: "\<forall>c \<in> set (hex_digits n). is_hex c"
proof (induction n rule: hex_digits.induct)
  case (1 n)
  then show ?case by (cases "n < 16") (auto simp: hex_digits.simps [of n] is_hex_hex_char)
qed

lemma hexs_val_hex_digits: "hexs_val (hex_digits n) = n"
proof (induction n rule: hex_digits.induct)
  case (1 n)
  show ?case
  proof (cases "n < 16")
    case True
    then show ?thesis by (simp add: hex_digits.simps [of n] hexs_val_def hex_val_hex_char)
  next
    case False
    with "1.IH" have "hexs_val (hex_digits (n div 16)) = n div 16" by simp
    with False show ?thesis by (simp add: hex_digits.simps [of n] hexs_val_def hex_val_hex_char)
  qed
qed

lemma length_hex_digits: "n < 16 ^ k \<Longrightarrow> 0 < k \<Longrightarrow> length (hex_digits n) \<le> k"
proof (induction k arbitrary: n)
  case 0
  then show ?case by simp
next
  case (Suc k)
  show ?case
  proof (cases "n < 16")
    case True
    then show ?thesis by (simp add: hex_digits.simps [of n])
  next
    case False
    with Suc.prems have "n div 16 < 16 ^ k" and "0 < k"
      by (auto intro: ccontr simp: less_mult_imp_div_less)
    then have "length (hex_digits (n div 16)) \<le> k" by (rule Suc.IH)
    with False show ?thesis by (simp add: hex_digits.simps [of n])
  qed
qed

lemma hd_nat_digits: "0 < n \<Longrightarrow> hd (nat_digits n) \<noteq> CHR ''0''"
proof (induction n rule: nat_digits.induct)
  case (1 n)
  show ?case
  proof (cases "n < 10")
    case True
    then have "(of_char (digit_char n) :: nat) \<noteq> of_char (CHR ''0'')"
      using 1 by (simp add: of_digit_char)
    with True show ?thesis by (auto simp: nat_digits.simps [of n])
  next
    case False
    then have "hd (nat_digits (n div 10)) \<noteq> CHR ''0''" using "1.IH" by simp
    with False show ?thesis by (simp add: nat_digits.simps [of n])
  qed
qed

subsection \<open>IPv4 round trip\<close>

lemma v4_field_nat_digits:
  assumes "n \<le> 255"
  shows "v4_field (nat_digits n) = Some n"
proof -
  have "hd (nat_digits n) \<noteq> CHR ''0''" if "1 < length (nat_digits n)"
    using that hd_nat_digits [of n] by (cases "n = 0") (auto simp: nat_digits.simps [of 0])
  with assms nat_digits_all_digits [of n] show ?thesis
    by (auto simp: v4_field_def list_all_iff digits_val_nat_digits)
qed

lemma v4_fields_bytes: "v4_fields (map (\<lambda>b. nat_digits (unat b)) bs) = Some (map unat (bs :: byte list))"
proof (induction bs)
  case (Cons b bs)
  have "unat b \<le> 255" using unsigned_less [of b, where ?'a = nat] by simp
  with Cons show ?case by (simp add: v4_field_nat_digits)
qed simp

lemma nat_digits_no_dot: "CHR ''.'' \<notin> set (nat_digits n)"
  using nat_digits_all_digits digit_not_sep by blast

lemma parse_v4_string:
  assumes "length bs = 4"
  shows "parseIPv4Fields (v4_string bs) = Some (map unat bs)"
proof -
  have "strings_Split (v4_string bs) (CHR ''.'') = map (\<lambda>b. nat_digits (unat b)) bs"
    unfolding v4_string_def using assms nat_digits_no_dot
    by (intro strings_Split_Join) auto
  with assms show ?thesis by (simp add: parseIPv4Fields_def v4_fields_bytes)
qed

lemma set_strings_Join: "set (strings_Join ws sep) \<subseteq> \<Union> (set ` set ws) \<union> set sep"
  by (induction ws sep rule: strings_Join.induct) auto

lemma v4_string_chars: "c \<in> set (v4_string bs) \<Longrightarrow> is_digit c \<or> c = CHR ''.''"
  unfolding v4_string_def using set_strings_Join nat_digits_all_digits by fastforce

lemma v4_string_has_dot: "length bs = 4 \<Longrightarrow> CHR ''.'' \<in> set (v4_string bs)"
  by (auto simp: v4_string_def strings_Join_Cons length_Suc_conv numeral_eq_Suc)

subsection \<open>IPv6 round trip\<close>

definition colon_join :: "nat list \<Rightarrow> string" where
  "colon_join gs = strings_Join (map hex_digits gs) '':''"

definition groups_ok :: "nat list \<Rightarrow> bool" where
  "groups_ok gs \<longleftrightarrow> (\<forall>g \<in> set gs. g < 65536)"

lemma groups_ok_simps [simp]:
  "groups_ok []" "groups_ok (g # gs) \<longleftrightarrow> g < 65536 \<and> groups_ok gs"
  "groups_ok (gs @ hs) \<longleftrightarrow> groups_ok gs \<and> groups_ok hs"
  by (auto simp: groups_ok_def)

lemma colon_join_simps [simp]:
  "colon_join [] = []" "colon_join [g] = hex_digits g"
  "gs \<noteq> [] \<Longrightarrow> colon_join (g # gs) = hex_digits g @ CHR '':'' # colon_join gs"
  by (simp_all add: colon_join_def strings_Join_Cons)

lemma colon_join_Nil_iff [simp]: "colon_join gs = [] \<longleftrightarrow> gs = []"
  by (cases gs; cases "tl gs") auto

lemma hd_hex_digits: "is_hex (hd (hex_digits n))"
  using hex_digits_all_hex [of n] by (simp add: list.set_sel(1))

lemma hd_colon_join: "gs \<noteq> [] \<Longrightarrow> is_hex (hd (colon_join gs))"
  by (cases gs; cases "tl gs") (auto simp: hd_hex_digits)

lemma span_hex_digits:
  assumes "\<not> is_hex c"
  shows "takeWhile is_hex (hex_digits g @ c # s) = hex_digits g"
    and "dropWhile is_hex (hex_digits g @ c # s) = c # s"
  using assms hex_digits_all_hex [of g] by (simp_all add: takeWhile_append2 dropWhile_append2)

lemma span_hex_digits_end:
  "takeWhile is_hex (hex_digits g) = hex_digits g" "dropWhile is_hex (hex_digits g) = []"
  using hex_digits_all_hex [of g] by (simp_all add: takeWhile_eq_all_conv dropWhile_eq_Nil_conv)

lemma length_group: "g < 65536 \<Longrightarrow> length (hex_digits g) \<le> 4"
  by (rule length_hex_digits) simp_all

lemma colon_not_hex [simp]: "\<not> is_hex (CHR '':'')"
  using hex_not_sep by blast

lemmas v6_group_simps = span_hex_digits span_hex_digits_end hexs_val_hex_digits

lemma v6_loop_end:
  "g < 65536 \<Longrightarrow> v6_loop (Suc n) gs el (hex_digits g) = Some (gs @ [g], el, [])"
  using length_group [of g] by (simp add: v6_group_simps)

lemma v6_loop_colon:
  assumes "g < 65536" and "s \<noteq> []" and "hd s \<noteq> CHR '':''"
  shows "v6_loop (Suc n) gs el (hex_digits g @ CHR '':'' # s) = v6_loop n (gs @ [g]) el s"
  using assms length_group [of g] by (cases s) (simp_all add: v6_group_simps)

lemma v6_loop_ellipsis:
  assumes "g < 65536"
  shows "v6_loop (Suc n) gs None (hex_digits g @ ''::'' @ s) =
    (if s = [] then Some (gs @ [g], Some (Suc (length gs)), [])
     else v6_loop n (gs @ [g]) (Some (Suc (length gs))) s)"
  using assms length_group [of g] by (simp add: v6_group_simps)

declare v6_loop.simps [simp del]

lemma v6_loop_colon_join:
  "hs \<noteq> [] \<Longrightarrow> groups_ok hs \<Longrightarrow> length hs \<le> n \<Longrightarrow>
   v6_loop n gs el (colon_join hs) = Some (gs @ hs, el, [])"
proof (induction hs arbitrary: n gs)
  case Nil
  then show ?case by simp
next
  case (Cons g hs)
  then obtain m where n: "n = Suc m" by (cases n) auto
  show ?case
  proof (cases "hs = []")
    case True
    with Cons.prems n show ?thesis by (simp add: v6_loop_end)
  next
    case False
    then have "hd (colon_join hs) \<noteq> CHR '':''"
      using hd_colon_join hex_not_sep by blast
    with Cons False n show ?thesis by (simp add: v6_loop_colon)
  qed
qed

lemma v6_loop_colon_join_ellipsis:
  "hs \<noteq> [] \<Longrightarrow> groups_ok (hs @ ts) \<Longrightarrow> length hs + length ts \<le> n \<Longrightarrow>
   v6_loop n gs None (colon_join hs @ ''::'' @ colon_join ts) =
     Some (gs @ hs @ ts, Some (length gs + length hs), [])"
proof (induction hs arbitrary: n gs)
  case Nil
  then show ?case by simp
next
  case (Cons g hs)
  then obtain m where n: "n = Suc m" by (cases n) auto
  show ?case
  proof (cases "hs = []")
    case True
    with Cons.prems n show ?thesis
      using v6_loop_ellipsis [of g m gs "colon_join ts"]
      by (cases "ts = []") (simp_all add: v6_loop_colon_join)
  next
    case False
    let ?s = "colon_join hs @ ''::'' @ colon_join ts"
    from False have "hd ?s \<noteq> CHR '':''" and "?s \<noteq> []"
      using hd_colon_join hex_not_sep by force+
    then have "v6_loop n gs None (hex_digits g @ CHR '':'' # ?s) = v6_loop m (gs @ [g]) None ?s"
      unfolding n using Cons.prems by (intro v6_loop_colon) simp_all
    with Cons False n show ?thesis by simp
  qed
qed

subsection \<open>The run of zero groups\<close>

definition run_ok :: "nat list \<Rightarrow> nat \<times> nat \<Rightarrow> bool" where
  "run_ok gs r \<longleftrightarrow> r = (255, 255) \<or>
     (fst r + 2 \<le> snd r \<and> snd r \<le> length gs \<and>
      take (snd r - fst r) (drop (fst r) gs) = replicate (snd r - fst r) 0)"

lemma zero_run_le: "zero_run gs \<le> length gs"
  by (simp add: zero_run_def length_takeWhile_le)

lemma take_zero_run: "take (zero_run gs) gs = replicate (zero_run gs) 0"
  unfolding zero_run_def by (induction gs) auto

lemma run_ok_better: "run_ok gs r \<Longrightarrow> run_ok gs (better_run gs r i)"
  using zero_run_le [of "drop i gs"] take_zero_run [of "drop i gs"]
  by (auto simp: run_ok_def better_run_def Let_def)

lemma run_ok_foldl: "run_ok gs r \<Longrightarrow> run_ok gs (foldl (better_run gs) r is)"
  by (induction "is" arbitrary: r) (simp_all add: run_ok_better)

lemma run_ok_best: "run_ok gs (best_run gs)"
  unfolding best_run_def by (rule run_ok_foldl) (simp add: run_ok_def)

lemma parse_v6_run:
  assumes len: "length gs = 8" and ok: "groups_ok gs" and best: "best_run gs = (s, e)" and "s < 8"
  shows "parseIPv6 (v6_string gs) = Some gs"
proof -
  let ?hs = "take s gs" and ?ts = "drop e gs"
  have se: "s + 2 \<le> e" "e \<le> 8" and zs: "take (e - s) (drop s gs) = replicate (e - s) 0"
    using run_ok_best [of gs] best \<open>s < 8\<close> len by (auto simp: run_ok_def)
  have split: "gs = ?hs @ replicate (e - s) 0 @ ?ts"
    using se zs by (metis append_take_drop_id drop_drop le_add_diff_inverse2 add_leD1)
  have oks: "groups_ok (?hs @ ?ts)"
    using ok by (metis split groups_ok_simps(3))
  have str: "v6_string gs = colon_join ?hs @ ''::'' @ colon_join ?ts"
    using best \<open>s < 8\<close> by (simp add: v6_string_def colon_join_def)
  have exp: "v6_expand (?hs @ ?ts, Some s, []) = Some gs"
    using se len by (subst (3) split) (simp add: v6_expand_def)
  consider "?hs \<noteq> []" | "s = 0" "?ts = []" | "s = 0" "?ts \<noteq> []" using len by fastforce
  then show ?thesis
  proof cases
    case 1
    then have "take 2 (v6_string gs) \<noteq> ''::''"
      using hd_colon_join [of ?hs] hex_not_sep unfolding str
      by (cases "colon_join ?hs") fastforce+
    moreover have "v6_loop 8 [] None (v6_string gs) = Some (?hs @ ?ts, Some s, [])"
      using v6_loop_colon_join_ellipsis [of ?hs ?ts 8 "[]"] 1 oks se len unfolding str by simp
    ultimately show ?thesis using exp by (simp add: parseIPv6_def)
  next
    case 2
    with split se len str show ?thesis by (simp add: parseIPv6_def)
  next
    case 3
    then have "v6_loop 8 [] (Some 0) (colon_join ?ts) = Some (?ts, Some 0, [])"
      using v6_loop_colon_join [of ?ts 8 "[]" "Some 0"] oks len by simp
    with 3 exp str show ?thesis by (simp add: parseIPv6_def)
  qed
qed

lemma parse_v6_no_run:
  assumes len: "length gs = 8" and ok: "groups_ok gs" and "\<not> fst (best_run gs) < 8"
  shows "parseIPv6 (v6_string gs) = Some gs"
proof -
  have "gs \<noteq> []" using len by auto
  moreover have "v6_string gs = colon_join gs"
    using assms(3) by (cases "best_run gs") (simp add: v6_string_def colon_join_def)
  moreover have "take 2 (colon_join gs) \<noteq> ''::''"
    using hd_colon_join [of gs] \<open>gs \<noteq> []\<close> hex_not_sep by (cases "colon_join gs") fastforce+
  ultimately show ?thesis
    using len ok v6_loop_colon_join [of gs 8 "[]" None] by (auto simp: parseIPv6_def v6_expand_def)
qed

lemma parse_v6_groups:
  assumes "length gs = 8" and "groups_ok gs"
  shows "parseIPv6 (v6_string gs) = Some gs"
  using assms parse_v6_run [of gs "fst (best_run gs)" "snd (best_run gs)"] parse_v6_no_run [of gs]
  by (cases "fst (best_run gs) < 8") simp_all

subsection \<open>Addresses and CIDR blocks\<close>

lemma groups_ok_groups_of: "groups_ok (groups_of bs)"
proof (induction bs rule: groups_of.induct)
  case (1 a b bs)
  have "unat a < 256" and "unat b < 256"
    using unsigned_less [of a, where ?'a = nat] unsigned_less [of b, where ?'a = nat] by simp_all
  with 1 show ?case by simp
qed simp_all

lemma length_groups_of: "length (groups_of bs) = length bs div 2"
  by (induction bs rule: groups_of.induct) simp_all

lemma bytes_of_groups_of: "even (length bs) \<Longrightarrow> bytes_of_groups (groups_of bs) = bs"
proof (induction bs rule: groups_of.induct)
  case (1 a b bs)
  have "unat b < 256" using unsigned_less [of b, where ?'a = nat] by simp
  then have "(unat a * 256 + unat b) div 256 = unat a" and "(unat a * 256 + unat b) mod 256 = unat b"
    by simp_all
  with 1 show ?case by (simp add: bytes_of_groups_def)
qed (simp_all add: bytes_of_groups_def)

lemma colon_join_chars: "c \<in> set (colon_join gs) \<Longrightarrow> is_hex c \<or> c = CHR '':''"
  unfolding colon_join_def using set_strings_Join hex_digits_all_hex by fastforce

lemma v6_string_chars: "c \<in> set (v6_string gs) \<Longrightarrow> is_hex c \<or> c = CHR '':''"
  using colon_join_chars
  by (auto simp: v6_string_def colon_join_def split: prod.splits if_splits)

lemma colon_join_has_colon: "1 < length gs \<Longrightarrow> CHR '':'' \<in> set (colon_join gs)"
  by (cases gs) auto

lemma v6_string_has_colon: "1 < length gs \<Longrightarrow> CHR '':'' \<in> set (v6_string gs)"
  using colon_join_has_colon [of gs]
  by (cases "best_run gs") (simp add: v6_string_def colon_join_def)

lemma first_separator:
  assumes "CHR ''.'' \<in> set s \<or> CHR '':'' \<in> set s"
  obtains d t where "dropWhile (\<lambda>c. c \<noteq> CHR ''.'' \<and> c \<noteq> CHR '':'') s = d # t"
    and "d = CHR ''.'' \<or> d = CHR '':''" and "d \<in> set s"
  using assms that
proof (induction s)
  case (Cons x s)
  then show ?case
    by (cases "x = CHR ''.'' \<or> x = CHR '':''") auto
qed simp

lemma ParseAddr_v4:
  assumes "length bs = 4"
  shows "ParseAddr (v4_string bs) = Some (v4InV6Prefix @ bs, 32)"
proof -
  have "CHR ''%'' \<notin> set (v4_string bs)" "CHR '':'' \<notin> set (v4_string bs)"
    using v4_string_chars digit_not_sep by blast+
  moreover obtain d t where "dropWhile (\<lambda>c. c \<noteq> CHR ''.'' \<and> c \<noteq> CHR '':'') (v4_string bs) = d # t"
    "d = CHR ''.'' \<or> d = CHR '':''" "d \<in> set (v4_string bs)"
    using v4_string_has_dot [OF assms] first_separator by blast
  ultimately show ?thesis
    using assms by (auto simp: ParseAddr_def parse_v4_string comp_def)
qed

lemma ParseAddr_v6:
  assumes "length ip = 16"
  shows "ParseAddr (v6_string (groups_of ip)) = Some (ip, 128)"
proof -
  let ?s = "v6_string (groups_of ip)"
  have colon: "CHR '':'' \<in> set ?s"
    using v6_string_has_colon [of "groups_of ip"] assms by (simp add: length_groups_of)
  have "CHR ''%'' \<notin> set ?s" "CHR ''.'' \<notin> set ?s"
    using v6_string_chars hex_not_sep by blast+
  moreover obtain d t where "dropWhile (\<lambda>c. c \<noteq> CHR ''.'' \<and> c \<noteq> CHR '':'') ?s = d # t"
    "d = CHR ''.'' \<or> d = CHR '':''" "d \<in> set ?s"
    using colon first_separator by blast
  ultimately show ?thesis
    using assms by (auto simp: ParseAddr_def parse_v6_groups length_groups_of
        groups_ok_groups_of bytes_of_groups_of)
qed

lemma To4_To16: "To4 ip = Some p \<Longrightarrow> length p = 4 \<and> v4InV6Prefix @ p = To16 ip"
  by (auto simp: To4_def To16_def split: if_splits) (metis append_take_drop_id)

definition addr_bits :: "IP \<Rightarrow> nat" where
  "addr_bits ip = (if To4 ip = None then 128 else 32)"

lemma ParseAddr_IP_String:
  assumes "length ip = 4 \<or> length ip = 16"
  shows "ParseAddr (IP_String ip) = Some (To16 ip, addr_bits ip)"
proof (cases "To4 ip")
  case None
  then have "length ip = 16" using assms by (auto simp: To4_def)
  with None show ?thesis
    by (auto simp: IP_String_def ParseAddr_v6 To16_def addr_bits_def)
next
  case (Some p)
  with assms show ?thesis
    using To4_To16 [OF Some] by (auto simp: IP_String_def ParseAddr_v4 addr_bits_def)
qed

lemma IP_String_no_slash:
  assumes "length ip = 4 \<or> length ip = 16"
  shows "CHR ''/'' \<notin> set (IP_String ip)"
proof -
  have "CHR ''/'' \<notin> set (v4_string p)" "CHR ''/'' \<notin> set (v6_string gs)" for p gs
    using v4_string_chars v6_string_chars hex_not_sep digit_not_sep by blast+
  with assms show ?thesis by (auto simp: IP_String_def split: option.splits)
qed

lemma cut_at:
  assumes "c \<notin> set s"
  shows "dropWhile (\<lambda>x. x \<noteq> c) (s @ c # t) = c # t" and "takeWhile (\<lambda>x. x \<noteq> c) (s @ c # t) = s"
  using assms by (induction s) auto

lemma ParseCIDR_String:
  assumes "length ip = 4 \<or> length ip = 16" and "n \<le> addr_bits ip"
  shows "ParseCIDR (IP_String ip @ ''/'' @ nat_digits n) = Some (To16 ip, n)"
proof -
  have "mask_digits (nat_digits n) = Some n"
    using assms(2) nat_digits_all_digits [of n]
    by (auto simp: mask_digits_def list_all_iff digits_val_nat_digits addr_bits_def split: if_splits)
  moreover have
    "dropWhile (\<lambda>c. c \<noteq> CHR ''/'') (IP_String ip @ ''/'' @ nat_digits n) = ''/'' @ nat_digits n"
    "takeWhile (\<lambda>c. c \<noteq> CHR ''/'') (IP_String ip @ ''/'' @ nat_digits n) = IP_String ip"
    using IP_String_no_slash [OF assms(1)] by (simp_all add: cut_at)
  ultimately show ?thesis
    using assms ParseAddr_IP_String [of ip] by (simp add: ParseCIDR_def)
qed

end
