(* ===== verification/Api_Types.thy ===== *)
theory Api_Types
  imports Go_Net
begin

text \<open>
  The API types of \<open>api/v1alpha1/networkpolicy_types.go\<close> and the fields of the
  MultiNetworkPolicy types of \<open>k8s.cni.cncf.io/v1beta1\<close> the operator reads or writes.

  A Go string type with named constants (\<open>NetworkType\<close>, \<open>NetworkPolicyResolutionReason\<close>,
  \<open>Protocol\<close>) is a string here too, with the constants as definitions: such a value can be the
  empty string or a value from a stored object that is no constant. Pointers are options, maps are
  association lists, \<open>int32\<close> and \<open>int64\<close> keep their width.

  The validation markers on the types, which the API server enforces before the controller sees an
  object, are the predicates \<open>crd_FQDN\<close>, \<open>crd_Port\<close>, \<open>crd_EgressRule\<close>,
  \<open>crd_MatchLabel\<close>, \<open>crd_MatchExpressions\<close> and \<open>crd_Spec\<close>.
\<close>

type_synonym FQDN = string
type_synonym NetworkType = string
type_synonym Label = string
type_synonym LabelValue = string
type_synonym Protocol = string
type_synonym NetworkPolicyConditionType = string
type_synonym NetworkPolicyReadyReason = string
type_synonym NetworkPolicyResolutionReason = string

definition IPv4 :: NetworkType where "IPv4 = ''ipv4''"
definition IPv6 :: NetworkType where "IPv6 = ''ipv6''"
definition All :: NetworkType where "All = ''all''"

definition ResolverString :: "NetworkType \<Rightarrow> string" where
  "ResolverString n =
     (if n = IPv4 then ''ip4'' else if n = IPv6 then ''ip6'' else if n = All then ''ip'' else '''')"

definition LabelWithVirtualMachineName :: Label where
  "LabelWithVirtualMachineName = ''vm.kubevirt.io/name''"

definition LabelWithKubernetesAppName :: Label where
  "LabelWithKubernetesAppName = ''app.kubernetes.io/name''"

record MatchLabel =
  ml_Label :: Label
  ml_Value :: string

record LabelSelectorRequirement =
  lsr_Key :: string
  lsr_Operator :: string
  lsr_Values :: "LabelValue list"

record MultiNetworkPolicyPort =
  p_Protocol :: Protocol
  p_Port :: "int32 option"
  p_EndPort :: "int32 option"

record EgressRule =
  er_ToFQDNs :: "FQDN list"
  er_Ports :: "MultiNetworkPolicyPort list"
  er_BlockPrivateIPs :: "bool option"

record NetworkPolicySpec =
  sp_TargetNetwork :: string
  sp_Egress :: "EgressRule list"
  sp_MatchLabels :: "MatchLabel list"
  sp_MatchExpressions :: "LabelSelectorRequirement list"
  sp_EnabledNetworkType :: NetworkType
  sp_ResolutionTimeoutSeconds :: int32
  sp_RetryTimeoutSeconds :: int32
  sp_TTLSeconds :: int32
  sp_BlockPrivateIPs :: bool

subsection \<open>Conditions and reasons\<close>

definition NetworkPolicyReady :: NetworkPolicyConditionType where "NetworkPolicyReady = ''Ready''"
definition NetworkPolicyResolved :: NetworkPolicyConditionType where "NetworkPolicyResolved = ''Resolved''"

definition NetworkPolicyReadySuccess :: NetworkPolicyReadyReason where
  "NetworkPolicyReadySuccess = ''Success''"
definition NetworkPolicyReadyEmptyRules :: NetworkPolicyReadyReason where
  "NetworkPolicyReadyEmptyRules = ''EmptyRules''"
definition NetworkPolicyReadyFailure :: NetworkPolicyReadyReason where
  "NetworkPolicyReadyFailure = ''Failure''"

definition NetworkPolicyResolutionSuccess :: NetworkPolicyResolutionReason where
  "NetworkPolicyResolutionSuccess = ''Success''"
definition NetworkPolicyResolutionPartialSuccess :: NetworkPolicyResolutionReason where
  "NetworkPolicyResolutionPartialSuccess = ''PartialSuccess''"
definition NetworkPolicyResolutionFailure :: NetworkPolicyResolutionReason where
  "NetworkPolicyResolutionFailure = ''Failure''"
definition NetworkPolicyResolutionError :: NetworkPolicyResolutionReason where
  "NetworkPolicyResolutionError = ''Error''"
definition NetworkPolicyResolutionHostNotFound :: NetworkPolicyResolutionReason where
  "NetworkPolicyResolutionHostNotFound = ''HostNotFound''"
definition NetworkPolicyResolutionInvalidFormat :: NetworkPolicyResolutionReason where
  "NetworkPolicyResolutionInvalidFormat = ''InvalidFormat''"
definition NetworkPolicyResolutionTimeout :: NetworkPolicyResolutionReason where
  "NetworkPolicyResolutionTimeout = ''Timeout''"
definition NetworkPolicyResolutionTemporaryError :: NetworkPolicyResolutionReason where
  "NetworkPolicyResolutionTemporaryError = ''TemporaryError''"

lemmas reason_defs =
  NetworkPolicyResolutionSuccess_def NetworkPolicyResolutionPartialSuccess_def
  NetworkPolicyResolutionFailure_def NetworkPolicyResolutionError_def
  NetworkPolicyResolutionHostNotFound_def NetworkPolicyResolutionInvalidFormat_def
  NetworkPolicyResolutionTimeout_def NetworkPolicyResolutionTemporaryError_def

definition Priority :: "NetworkPolicyResolutionReason \<Rightarrow> int" where
  "Priority r =
     (if r = NetworkPolicyResolutionFailure then 100
      else if r = NetworkPolicyResolutionPartialSuccess then 90
      else if r = NetworkPolicyResolutionError then 10
      else if r = NetworkPolicyResolutionHostNotFound then 8
      else if r = NetworkPolicyResolutionInvalidFormat then 6
      else if r = NetworkPolicyResolutionTimeout then 4
      else if r = NetworkPolicyResolutionTemporaryError then 2
      else 0)"

definition Transient :: "NetworkPolicyResolutionReason \<Rightarrow> bool" where
  "Transient r \<longleftrightarrow> r = NetworkPolicyResolutionTimeout \<or>
     r = NetworkPolicyResolutionTemporaryError \<or> r = NetworkPolicyResolutionError"

lemma Success_not_Transient [simp]: "\<not> Transient NetworkPolicyResolutionSuccess"
  by (simp add: Transient_def reason_defs)

subsection \<open>Status\<close>

record AddressEntry =
  ae_Address :: string
  ae_MissingSince :: "Time option"

text \<open>The zero \<open>metav1.Time\<close>: the first of January of the year one.\<close>

definition zeroTime :: Time where
  "zeroTime = -62135596800000000000"

record FQDNStatus =
  fs_FQDN :: FQDN
  fs_FailingSince :: "Time option"
  fs_LastTransitionTime :: Time
  fs_Reason :: NetworkPolicyResolutionReason
  fs_Message :: string
  fs_Addresses :: "AddressEntry list"

record Condition =
  c_Type :: string
  c_Status :: string
  c_ObservedGeneration :: int64
  c_LastTransitionTime :: Time
  c_Reason :: string
  c_Message :: string

record NetworkPolicyStatus =
  st_FQDNs :: "FQDNStatus list"
  st_ActiveFQDNCount :: int32
  st_FailingFQDNCount :: int32
  st_AppliedAddressCount :: int32
  st_TotalAddressCount :: int32
  st_Conditions :: "Condition list"
  st_ObservedGeneration :: int64

record NetworkPolicy =
  np_Name :: string
  np_Namespace :: string
  np_Labels :: "(string, string) gomap"
  np_Annotations :: "(string, string) gomap"
  np_Generation :: int64
  np_Spec :: NetworkPolicySpec
  np_Status :: NetworkPolicyStatus

subsection \<open>MultiNetworkPolicy\<close>

datatype IntOrString = FromInt int | FromString string

record MnetPort =
  mp_Port :: "IntOrString option"
  mp_Protocol :: "Protocol option"
  mp_EndPort :: "int32 option"

record IPBlock =
  ib_CIDR :: string

record MnetPeer =
  pe_IPBlock :: "IPBlock option"

record MnetEgressRule =
  mer_Ports :: "MnetPort list"
  mer_To :: "MnetPeer list"

record MnetIngressRule =
  mir_Ports :: "MnetPort list"
  mir_From :: "MnetPeer list"

record MetaLabelSelectorRequirement =
  mls_Key :: string
  mls_Operator :: string
  mls_Values :: "string list"

record LabelSelector =
  ls_MatchLabels :: "(string, string) gomap"
  ls_MatchExpressions :: "MetaLabelSelectorRequirement list"

record MultiNetworkPolicySpec =
  ms_PodSelector :: LabelSelector
  ms_Ingress :: "MnetIngressRule list"
  ms_Egress :: "MnetEgressRule list"
  ms_PolicyTypes :: "string list"

record MultiNetworkPolicy =
  mn_Name :: string
  mn_Namespace :: string
  mn_Labels :: "(string, string) gomap"
  mn_Annotations :: "(string, string) gomap"
  mn_Owner :: "string list"
  mn_Spec :: MultiNetworkPolicySpec

subsection \<open>Validation markers\<close>

definition alnum :: rexp where
  "alnum = Cls [(CHR ''a'', CHR ''z''), (CHR ''A'', CHR ''Z''), (CHR ''0'', CHR ''9'')]"

definition alnum_hyphen :: rexp where
  "alnum_hyphen =
     Cls [(CHR ''a'', CHR ''z''), (CHR ''A'', CHR ''Z''), (CHR ''0'', CHR ''9''), (CHR ''-'', CHR ''-'')]"

definition letter :: rexp where
  "letter = Cls [(CHR ''a'', CHR ''z''), (CHR ''A'', CHR ''Z'')]"

definition dns_label :: rexp where
  "dns_label = Seq alnum (Opt (Seq (Upto 61 alnum_hyphen) alnum))"

text \<open>The pattern on \<open>FQDN\<close>.\<close>

definition fqdn_pattern :: rexp where
  "fqdn_pattern = Seq (Plus (Seq dns_label (Cls [(CHR ''.'', CHR ''.'')])))
                      (Seq (Times 2 letter) (Star letter))"

definition crd_FQDN :: "FQDN \<Rightarrow> bool" where
  "crd_FQDN f \<longleftrightarrow> MatchString fqdn_pattern f \<and> 1 \<le> length f"

definition port_range :: "int32 option \<Rightarrow> bool" where
  "port_range p = (case p of None \<Rightarrow> True | Some n \<Rightarrow> 1 \<le> sint n \<and> sint n \<le> 65535)"

definition crd_Port :: "MultiNetworkPolicyPort \<Rightarrow> bool" where
  "crd_Port p \<longleftrightarrow> p_Protocol p \<in> {''TCP'', ''UDP'', ''SCTP''} \<and>
     port_range (p_Port p) \<and> port_range (p_EndPort p) \<and>
     (case p_EndPort p of
        None \<Rightarrow> True
      | Some e \<Rightarrow> (case p_Port p of None \<Rightarrow> False | Some n \<Rightarrow> sint n \<le> sint e))"

definition crd_EgressRule :: "EgressRule \<Rightarrow> bool" where
  "crd_EgressRule r \<longleftrightarrow> 1 \<le> length (er_ToFQDNs r) \<and> length (er_ToFQDNs r) \<le> 100 \<and>
     distinct (er_ToFQDNs r) \<and> list_all crd_FQDN (er_ToFQDNs r) \<and>
     length (er_Ports r) \<le> 10 \<and> list_all crd_Port (er_Ports r)"

definition crd_MatchLabel :: "MatchLabel \<Rightarrow> bool" where
  "crd_MatchLabel m \<longleftrightarrow>
     ml_Label m \<in> {LabelWithVirtualMachineName, LabelWithKubernetesAppName} \<and> 1 \<le> length (ml_Value m)"

definition crd_Requirement :: "LabelSelectorRequirement \<Rightarrow> bool" where
  "crd_Requirement q \<longleftrightarrow> lsr_Key q \<in> {''vm.kubevirt.io/name'', ''app.kubernetes.io/name''} \<and>
     lsr_Operator q \<in> {''In'', ''NotIn''} \<and> length (lsr_Values q) \<le> 50 \<and>
     distinct (lsr_Values q) \<and> list_all (\<lambda>v. 1 \<le> length v) (lsr_Values q)"

text \<open>The validation rule on \<open>MatchExpressions\<close>: every requirement overlaps with itself only.\<close>

definition crd_overlap :: "LabelSelectorRequirement \<Rightarrow> LabelSelectorRequirement \<Rightarrow> bool" where
  "crd_overlap i j \<longleftrightarrow> lsr_Key i = lsr_Key j \<and> lsr_Operator i = lsr_Operator j \<and>
     list_ex (\<lambda>v. v \<in> set (lsr_Values i)) (lsr_Values j)"

definition crd_MatchExpressions :: "LabelSelectorRequirement list \<Rightarrow> bool" where
  "crd_MatchExpressions qs \<longleftrightarrow> length qs \<le> 30 \<and> list_all crd_Requirement qs \<and>
     list_all (\<lambda>i. length (filter (crd_overlap i) qs) = 1) qs"

definition crd_Spec :: "NetworkPolicySpec \<Rightarrow> bool" where
  "crd_Spec s \<longleftrightarrow> 1 \<le> length (sp_TargetNetwork s) \<and>
     1 \<le> length (sp_Egress s) \<and> length (sp_Egress s) \<le> 30 \<and> list_all crd_EgressRule (sp_Egress s) \<and>
     list_all crd_MatchLabel (sp_MatchLabels s) \<and> distinct (sp_MatchLabels s) \<and>
     crd_MatchExpressions (sp_MatchExpressions s) \<and>
     sp_EnabledNetworkType s \<in> {IPv4, IPv6, All} \<and>
     1 \<le> sint (sp_ResolutionTimeoutSeconds s) \<and> sint (sp_ResolutionTimeoutSeconds s) \<le> 60 \<and>
     sint (sp_RetryTimeoutSeconds s) \<le> 86400 \<and>
     3 \<le> sint (sp_TTLSeconds s) \<and> sint (sp_TTLSeconds s) \<le> 1800"

end
