(* ===== verification/Cidr.thy ===== *)
theory Cidr
  imports Api_Types
begin

text \<open>
  The first part of \<open>api/v1alpha1/networkpolicy_funcs.go\<close>: the type \<open>CIDR\<close> with its
  constructors and printer, the format check \<open>FQDN.Valid\<close>, and \<open>isAllowed\<close>, the filter
  on private addresses. A constructor that returns an error is an \<open>option\<close>; \<open>MustCIDR\<close>, which
  panics, is the same option with \<open>None\<close> for the panic.

  The lemmas show that printing and parsing agree (\<open>NewCIDR_String\<close>), that a resolved address is
  never lost to a parse error, and how \<open>FQDN.Valid\<close> relates to the pattern of the API schema.
\<close>

record CIDR =
  cd_IP :: IP
  cd_Prefix :: int

definition NewCIDR :: "string \<Rightarrow> CIDR option" where
  "NewCIDR cidr =
     (case ParseCIDR cidr of
        None \<Rightarrow> None
      | Some (ip, prefix) \<Rightarrow> Some \<lparr>cd_IP = ip, cd_Prefix = int prefix\<rparr>)"

definition MustCIDR :: "string \<Rightarrow> CIDR option" where
  "MustCIDR cidr = (case NewCIDR cidr of None \<Rightarrow> None | Some c \<Rightarrow> Some c)"

definition CIDR_String :: "CIDR \<Rightarrow> string" where
  "CIDR_String c = IP_String (cd_IP c) @ ''/'' @ Itoa (cd_Prefix c)"

definition CIDR_IsPrivate :: "CIDR \<Rightarrow> bool" where
  "CIDR_IsPrivate c = IP_IsPrivate (cd_IP c)"

type_synonym CIDRList = "CIDR list"

fun CIDRList_Strings_loop :: "string list \<Rightarrow> CIDRList \<Rightarrow> string list" where
  "CIDRList_Strings_loop result [] = result"
| "CIDRList_Strings_loop result (cidr # l) = CIDRList_Strings_loop (result @ [CIDR_String cidr]) l"

definition CIDRList_Strings :: "CIDRList \<Rightarrow> string list" where
  "CIDRList_Strings l = CIDRList_Strings_loop [] l"

definition labelRegexp :: rexp where
  "labelRegexp = Seq alnum (Opt (Seq (Upto 61 alnum_hyphen) alnum))"

fun labels_valid :: "string list \<Rightarrow> bool" where
  "labels_valid [] = True"
| "labels_valid (label # labels) =
     (if length label = 0 \<or> \<not> MatchString labelRegexp label then False else labels_valid labels)"

definition FQDN_Valid :: "FQDN \<Rightarrow> bool" where
  "FQDN_Valid f =
     (let labels = strings_Split f (CHR ''.'')
      in if length labels < 2 then False else labels_valid labels)"

definition isAllowed :: "string \<Rightarrow> bool \<Rightarrow> bool option \<Rightarrow> bool" where
  "isAllowed cidrString globalBlock ruleBlock =
     (let blockPrivateIP = (case ruleBlock of None \<Rightarrow> globalBlock | Some b \<Rightarrow> b)
      in case NewCIDR cidrString of
           None \<Rightarrow> False
         | Some cidr \<Rightarrow> if CIDR_IsPrivate cidr \<and> blockPrivateIP then False else True)"

subsection \<open>Printing and parsing\<close>

lemma CIDRList_Strings_loop_eq: "CIDRList_Strings_loop result l = result @ map CIDR_String l"
  by (induction result l rule: CIDRList_Strings_loop.induct) auto

lemma CIDRList_Strings_map: "CIDRList_Strings l = map CIDR_String l"
  by (simp add: CIDRList_Strings_def CIDRList_Strings_loop_eq)

definition cidr_wf :: "CIDR \<Rightarrow> bool" where
  "cidr_wf c \<longleftrightarrow> (length (cd_IP c) = 4 \<or> length (cd_IP c) = 16) \<and>
     0 \<le> cd_Prefix c \<and> cd_Prefix c \<le> int (addr_bits (cd_IP c))"

lemma NewCIDR_CIDR_String:
  assumes "cidr_wf c"
  shows "NewCIDR (CIDR_String c) = Some (c\<lparr>cd_IP := To16 (cd_IP c)\<rparr>)"
proof -
  have "CIDR_String c = IP_String (cd_IP c) @ ''/'' @ nat_digits (nat (cd_Prefix c))"
    using assms by (simp add: CIDR_String_def Itoa_def cidr_wf_def)
  moreover have "nat (cd_Prefix c) \<le> addr_bits (cd_IP c)"
    using assms by (simp add: cidr_wf_def nat_le_iff)
  ultimately show ?thesis
    using assms ParseCIDR_String [of "cd_IP c" "nat (cd_Prefix c)"]
    by (simp add: NewCIDR_def cidr_wf_def)
qed

lemma To4_of_To16: "length ip = 4 \<or> length ip = 16 \<Longrightarrow> To4 (To16 ip) = To4 ip"
  by (auto simp: To4_def To16_def v4InV6Prefix_def)

lemma IP_IsPrivate_To16: "length ip = 4 \<or> length ip = 16 \<Longrightarrow> IP_IsPrivate (To16 ip) = IP_IsPrivate ip"
  by (auto simp: IP_IsPrivate_def To4_of_To16 split: option.splits) (auto simp: To4_def To16_def)

lemma isAllowed_CIDR_String:
  assumes "cidr_wf c"
  shows "isAllowed (CIDR_String c) g rb \<longleftrightarrow>
    \<not> (CIDR_IsPrivate c \<and> (case rb of None \<Rightarrow> g | Some b \<Rightarrow> b))"
  using assms IP_IsPrivate_To16 [of "cd_IP c"]
  by (auto simp: isAllowed_def NewCIDR_CIDR_String CIDR_IsPrivate_def cidr_wf_def)

lemma isAllowed_parses: "isAllowed s g rb \<Longrightarrow> NewCIDR s \<noteq> None"
  by (auto simp: isAllowed_def split: option.splits)

lemma isAllowed_not_empty: "isAllowed s g rb \<Longrightarrow> s \<noteq> []"
  by (auto simp: isAllowed_def NewCIDR_def ParseCIDR_def)

subsection \<open>Domain names\<close>

lemma labels_valid_iff: "labels_valid ls \<longleftrightarrow> (\<forall>l \<in> set ls. MatchString labelRegexp l \<and> l \<noteq> [])"
  by (induction ls) auto

lemma FQDN_Valid_iff:
  "FQDN_Valid f \<longleftrightarrow>
     2 \<le> length (strings_Split f (CHR ''.'')) \<and>
     (\<forall>l \<in> set (strings_Split f (CHR ''.'')). matches labelRegexp l)"
proof -
  have "\<not> matches labelRegexp []"
    by (simp add: labelRegexp_def alnum_def matches_Seq_Cls)
  then show ?thesis
    by (auto simp: FQDN_Valid_def labels_valid_iff MatchString_iff Let_def)
qed

lemma matches_label_shape:
  "matches (Seq (Cls k) (Opt (Seq (Upto n (Cls h)) (Cls k)))) l \<longleftrightarrow>
     (\<exists>c t. l = c # t \<and> in_class k c \<and>
       (t = [] \<or> (\<exists>m d. t = m @ [d] \<and> length m \<le> n \<and> (\<forall>x \<in> set m. in_class h x) \<and> in_class k d)))"
  by (subst matches_Seq_Cls) (simp add: matches_Seq matches_Upto_Cls list_all_iff, blast)

lemma matches_dns_label:
  "matches dns_label l \<longleftrightarrow>
     (\<exists>c t. l = c # t \<and> matches alnum [c] \<and>
       (t = [] \<or> (\<exists>m d. t = m @ [d] \<and> length m \<le> 61 \<and> (\<forall>x \<in> set m. matches alnum_hyphen [x]) \<and> matches alnum [d])))"
  unfolding dns_label_def alnum_def alnum_hyphen_def matches_label_shape by simp

lemma labelRegexp_dns_label: "labelRegexp = dns_label"
  by (simp add: labelRegexp_def dns_label_def)

lemma class_no_dot: "\<not> matches alnum ''.''" "\<not> matches alnum_hyphen ''.''" "\<not> matches letter ''.''"
  by (simp_all add: alnum_hyphen_def alnum_def letter_def less_eq_char_def)

lemma dns_label_no_dot: "matches dns_label l \<Longrightarrow> CHR ''.'' \<notin> set l"
  using class_no_dot by (fastforce simp: matches_dns_label)

lemma dns_label_length: "matches dns_label l \<Longrightarrow> length l \<le> 63"
  by (auto simp: matches_dns_label)

lemma letter_alnum: "matches letter [c] \<Longrightarrow> matches alnum [c] \<and> matches alnum_hyphen [c]"
  by (auto simp: letter_def alnum_def alnum_hyphen_def)

lemma letters_dns_label:
  assumes "\<forall>c \<in> set w. matches letter [c]" and "w \<noteq> []" and "length w \<le> 63"
  shows "matches dns_label w"
proof -
  obtain c t where w: "w = c # t" using assms(2) by (cases w) auto
  show ?thesis
  proof (cases t rule: rev_cases)
    case Nil
    with w assms(1) letter_alnum show ?thesis by (simp add: matches_dns_label)
  next
    case (snoc m d)
    then have "\<forall>x \<in> set m. matches alnum_hyphen [x]" "matches alnum [c]" "matches alnum [d]"
      using w assms(1) letter_alnum by auto
    moreover have "length m \<le> 61" using w snoc assms(3) by simp
    ultimately show ?thesis using w snoc by (auto simp: matches_dns_label)
  qed
qed

lemma matches_Star_concat:
  "matches (Star r) s \<Longrightarrow> \<exists>ws. s = concat ws \<and> (\<forall>w \<in> set ws. matches r w)"
proof -
  have "matches q s \<Longrightarrow> q = Star r \<Longrightarrow> \<exists>ws. s = concat ws \<and> (\<forall>w \<in> set ws. matches r w)" for q
  proof (induction rule: matches.induct)
    case (Star0 r')
    show ?case by (rule exI [of _ "[]"]) simp
  next
    case (StarS r' s t)
    then obtain ws where "t = concat ws" "\<forall>w \<in> set ws. matches r w" by auto
    with StarS show ?case by (intro exI [of _ "s # ws"]) auto
  qed auto
  then show "matches (Star r) s \<Longrightarrow> ?thesis" by blast
qed

lemma fqdn_pattern_split:
  assumes "matches fqdn_pattern f"
  obtains ls tld where "f = concat (map (\<lambda>l. l @ ''.'') ls) @ tld" and "ls \<noteq> []"
    and "\<forall>l \<in> set ls. matches dns_label l"
    and "\<forall>c \<in> set tld. matches letter [c]" and "2 \<le> length tld"
proof -
  let ?dot = "Cls [(CHR ''.'', CHR ''.'')]"
  from assms obtain p q where pq: "f = p @ q" "matches (Plus (Seq dns_label ?dot)) p"
    "matches (Seq (Times 2 letter) (Star letter)) q"
    unfolding fqdn_pattern_def by (blast dest: matches_SeqD)
  from pq(2) obtain u v where p: "p = u @ v"
    and u: "matches (Seq dns_label ?dot) u" and v: "matches (Star (Seq dns_label ?dot)) v"
    unfolding Plus_def by (blast dest: matches_SeqD)
  from pq(3) obtain t1 t2 where q: "q = t1 @ t2"
    and t: "matches (Times 2 letter) t1" "matches (Star letter) t2"
    by (blast dest: matches_SeqD)
  have f: "f = (u @ v) @ t1 @ t2" using pq(1) p q by simp
  from v obtain ws where ws: "v = concat ws" "\<forall>w \<in> set ws. matches (Seq dns_label ?dot) w"
    using matches_Star_concat by blast
  have item: "\<exists>l. w = l @ ''.'' \<and> matches dns_label l" if "matches (Seq dns_label ?dot) w" for w
    using that by (auto simp: matches_Seq)
  from ws(2) item have "\<forall>w \<in> set (u # ws). \<exists>l. w = l @ ''.'' \<and> matches dns_label l"
    using u by auto
  then obtain g where g: "\<forall>w \<in> set (u # ws). w = g w @ ''.'' \<and> matches dns_label (g w)" by metis
  then have "map (\<lambda>l. l @ ''.'') (map g (u # ws)) = u # ws"
    by (simp only: map_map comp_def) (metis (no_types, lifting) map_idI)
  then have "f = concat (map (\<lambda>l. l @ ''.'') (map g (u # ws))) @ t1 @ t2"
    using f ws(1) by simp
  moreover have "length t1 = 2" "list_all (\<lambda>c. matches letter [c]) (t1 @ t2)"
    using t unfolding letter_def by (auto simp: matches_Times_Cls matches_Star_Cls list_all_iff)
  ultimately show ?thesis
    using g by (intro that [of "map g (u # ws)" "t1 @ t2"]) (auto simp: list_all_iff)
qed

lemma strings_Split_labels:
  assumes "\<forall>l \<in> set ls. CHR ''.'' \<notin> set l" and "CHR ''.'' \<notin> set tld"
  shows "strings_Split (concat (map (\<lambda>l. l @ ''.'') ls) @ tld) (CHR ''.'') = ls @ [tld]"
  using assms by (induction ls) (simp_all add: strings_Split_no_sep strings_Split_append)

text \<open>
  (C40) A name the API schema admits passes the format check of the resolver exactly when its
  top-level label has at most 63 characters: the schema bounds every label but the last.
\<close>

theorem crd_FQDN_Valid_iff:
  assumes "crd_FQDN f"
  shows "FQDN_Valid f \<longleftrightarrow> length (last (strings_Split f (CHR ''.''))) \<le> 63"
proof -
  from assms obtain ls tld where f: "f = concat (map (\<lambda>l. l @ ''.'') ls) @ tld" and ls: "ls \<noteq> []"
    and lab: "\<forall>l \<in> set ls. matches dns_label l"
    and tld: "\<forall>c \<in> set tld. matches letter [c]" "2 \<le> length tld"
    using fqdn_pattern_split by (auto simp: crd_FQDN_def MatchString_iff)
  have "strings_Split f (CHR ''.'') = ls @ [tld]"
    unfolding f using lab tld(1) dns_label_no_dot class_no_dot(3)
    by (intro strings_Split_labels) blast+
  moreover have "matches dns_label tld \<longleftrightarrow> length tld \<le> 63"
    using letters_dns_label [of tld] tld dns_label_length [of tld] by fastforce
  ultimately show ?thesis
    using ls lab by (cases ls) (auto simp: FQDN_Valid_iff labelRegexp_dns_label)
qed

theorem crd_FQDN_Valid_iff_witness:
  "crd_FQDN ''a.io'' \<and> FQDN_Valid ''a.io''"
proof -
  have h: "crd_FQDN ''a.io''" by code_simp
  have "length (last (strings_Split ''a.io'' (CHR ''.''))) \<le> 63" by code_simp
  with h crd_FQDN_Valid_iff [OF h] show ?thesis by blast
qed

end
