(* ===== verification/Policy_Semantics.thy ===== *)
theory Policy_Semantics
  imports Api_Types
begin

text \<open>
  What a list of egress rules permits, the reference meaning against which the generated policies
  are judged. It is the documented meaning of network policies: rules are alternatives; a rule with
  no peers matches every destination; a rule with no ports matches every port; a port entry with no
  protocol means TCP, with no number every port of the protocol, with an end port the closed range.

  Destinations are CIDR strings, the unit in which the operator writes peers.
  \<open>egress_permits\<close> lifts to destination addresses: the packet's address is permitted when some
  permitted CIDR string contains it.
\<close>

definition port_permits :: "MnetPort \<Rightarrow> Protocol \<Rightarrow> int \<Rightarrow> bool" where
  "port_permits p proto n \<longleftrightarrow>
     (case mp_Protocol p of None \<Rightarrow> ''TCP'' | Some q \<Rightarrow> q) = proto \<and>
     (case mp_Port p of
        None \<Rightarrow> True
      | Some (FromInt k) \<Rightarrow> (case mp_EndPort p of None \<Rightarrow> n = k | Some e \<Rightarrow> k \<le> n \<and> n \<le> sint e)
      | Some (FromString _) \<Rightarrow> False)"

definition ports_permit :: "MnetPort list \<Rightarrow> Protocol \<Rightarrow> int \<Rightarrow> bool" where
  "ports_permit ps proto n \<longleftrightarrow> ps = [] \<or> (\<exists>p \<in> set ps. port_permits p proto n)"

definition peer_cidrs :: "MnetPeer list \<Rightarrow> string list" where
  "peer_cidrs ps = concat (map (\<lambda>p. case pe_IPBlock p of None \<Rightarrow> [] | Some b \<Rightarrow> [ib_CIDR b]) ps)"

definition rule_permits :: "MnetEgressRule \<Rightarrow> string \<Rightarrow> Protocol \<Rightarrow> int \<Rightarrow> bool" where
  "rule_permits r c proto n \<longleftrightarrow>
     (mer_To r = [] \<or> c \<in> set (peer_cidrs (mer_To r))) \<and> ports_permit (mer_Ports r) proto n"

definition egress_permits :: "MnetEgressRule list \<Rightarrow> string \<Rightarrow> Protocol \<Rightarrow> int \<Rightarrow> bool" where
  "egress_permits rs c proto n \<longleftrightarrow> (\<exists>r \<in> set rs. rule_permits r c proto n)"

definition cidr_peer :: "string \<Rightarrow> MnetPeer" where
  "cidr_peer c = \<lparr>pe_IPBlock = Some \<lparr>ib_CIDR = c\<rparr>\<rparr>"

lemma peer_cidrs_simps [simp]:
  "peer_cidrs [] = []" "peer_cidrs (cidr_peer c # ps) = c # peer_cidrs ps"
  "peer_cidrs (ps @ qs) = peer_cidrs ps @ peer_cidrs qs"
  by (simp_all add: peer_cidrs_def cidr_peer_def)

lemma peer_cidrs_map [simp]: "peer_cidrs (map cidr_peer cs) = cs"
  by (induction cs) simp_all

lemma peer_cidrs_mset_cong: "mset ps = mset qs \<Longrightarrow> mset (peer_cidrs ps) = mset (peer_cidrs qs)"
proof -
  have "mset (peer_cidrs ps) =
    (\<Sum>p \<in># mset ps. case pe_IPBlock p of None \<Rightarrow> {#} | Some b \<Rightarrow> {#ib_CIDR b#})" for ps
    by (induction ps) (auto simp: peer_cidrs_def split: option.splits)
  then show "mset ps = mset qs \<Longrightarrow> ?thesis" by simp
qed

lemma egress_permits_simps [simp]:
  "\<not> egress_permits [] c proto n"
  "egress_permits (r # rs) c proto n \<longleftrightarrow> rule_permits r c proto n \<or> egress_permits rs c proto n"
  by (auto simp: egress_permits_def)

text \<open>The well-formedness of a generated rule: only CIDR peers, at least one of them.\<close>

definition rule_wf :: "MnetEgressRule \<Rightarrow> bool" where
  "rule_wf r \<longleftrightarrow> mer_To r \<noteq> [] \<and>
     list_all (\<lambda>p. case pe_IPBlock p of None \<Rightarrow> False | Some b \<Rightarrow> ib_CIDR b \<noteq> []) (mer_To r)"

lemma rule_wf_cidr_peers: "mer_To r = map cidr_peer cs \<Longrightarrow> rule_wf r \<longleftrightarrow> cs \<noteq> [] \<and> [] \<notin> set cs"
  by (auto simp: rule_wf_def list_all_iff cidr_peer_def)

lemma rule_wf_To: "rule_wf r \<Longrightarrow> mer_To r = map cidr_peer (peer_cidrs (mer_To r))"
proof -
  have "list_all (\<lambda>p. case pe_IPBlock p of None \<Rightarrow> False | Some b \<Rightarrow> ib_CIDR b \<noteq> []) ps \<Longrightarrow>
    ps = map cidr_peer (peer_cidrs ps)" for ps
    by (induction ps) (auto simp: peer_cidrs_def cidr_peer_def split: option.splits)
  then show "rule_wf r \<Longrightarrow> ?thesis" by (simp add: rule_wf_def)
qed

end
