(* ===== verification/Api_Funcs.thy ===== *)
theory Api_Funcs
  imports Cidr Policy_Semantics
begin

text \<open>
  The second part of \<open>api/v1alpha1/networkpolicy_funcs.go\<close>, the translation of a NetworkPolicy
  and its resolved addresses into a MultiNetworkPolicy, and the per-name status update.

  \<^item> \<open>ToMultiNetworkPolicy\<close> with the functions below it. The theorem \<open>ToMultiNetworkPolicy_permits\<close>
    says exactly which traffic the result permits.
  \<^item> \<open>FQDNStatus_Update\<close> takes the two readings of the clock that the method can make. Runs of
    updates are studied with \<open>update_run\<close>.
  \<^item> The locale \<open>keyed_table\<close> is the contract of the two \<open>LookupTable\<close> methods of the program:
    the last element with a key wins.
\<close>

subsection \<open>Lookup tables\<close>

locale keyed_table =
  fixes tbl :: "'a list \<Rightarrow> ('k, 'a) gomap" and key :: "'a \<Rightarrow> 'k"
  assumes tbl_Nil: "tbl [] = []"
    and tbl_snoc: "tbl (xs @ [x]) = gm_update (key x) x (tbl xs)"
begin

lemma lookup_rev: "gm_lookup (tbl xs) k = find (\<lambda>x. key x = k) (rev xs)"
  by (induction xs rule: rev_induct) (auto simp: tbl_Nil tbl_snoc gm_lookup_update)

lemma table_wf: "gm_wf (tbl xs)"
  by (induction xs rule: rev_induct) (simp_all add: tbl_Nil tbl_snoc)

lemma lookup_SomeD: "gm_lookup (tbl xs) k = Some x \<Longrightarrow> x \<in> set xs \<and> key x = k"
  by (auto simp: lookup_rev find_Some_iff) (metis nth_mem set_rev length_rev)

lemma lookup_None_iff: "gm_lookup (tbl xs) k = None \<longleftrightarrow> k \<notin> key ` set xs"
  by (auto simp: lookup_rev find_None_iff)

lemma lookup_distinct:
  assumes "distinct (map key xs)" and "x \<in> set xs"
  shows "gm_lookup (tbl xs) (key x) = Some x"
proof (cases "gm_lookup (tbl xs) (key x)")
  case None
  with assms(2) show ?thesis by (simp add: lookup_None_iff)
next
  case (Some y)
  then have "y \<in> set xs" "key y = key x" using lookup_SomeD by auto
  with assms have "y = x" by (meson distinct_map inj_onD)
  with Some show ?thesis by simp
qed

lemma lookup_mset:
  assumes "distinct (map key xs)" and "mset xs = mset ys"
  shows "gm_lookup (tbl xs) k = gm_lookup (tbl ys) k"
proof (cases "gm_lookup (tbl xs) k")
  case None
  then have "k \<notin> key ` set ys" using mset_eq_setD [OF assms(2)] by (simp add: lookup_None_iff)
  with None show ?thesis by (metis lookup_None_iff)
next
  case (Some x)
  then have "x \<in> set ys" "key x = k" using lookup_SomeD mset_eq_setD [OF assms(2)] by auto
  moreover have "distinct (map key ys)" using assms by (metis mset_eq_imp_distinct_iff mset_map)
  ultimately show ?thesis using Some lookup_distinct by metis
qed

end

fun FQDNStatusList_LookupTable_loop ::
  "(FQDN, FQDNStatus) gomap \<Rightarrow> FQDNStatus list \<Rightarrow> (FQDN, FQDNStatus) gomap" where
  "FQDNStatusList_LookupTable_loop lookupTable [] = lookupTable"
| "FQDNStatusList_LookupTable_loop lookupTable (x # s) =
     FQDNStatusList_LookupTable_loop (gm_update (fs_FQDN x) x lookupTable) s"

definition FQDNStatusList_LookupTable :: "FQDNStatus list \<Rightarrow> (FQDN, FQDNStatus) gomap" where
  "FQDNStatusList_LookupTable s = FQDNStatusList_LookupTable_loop [] s"

lemma FQDNStatusList_LookupTable_loop_append:
  "FQDNStatusList_LookupTable_loop t (xs @ ys) =
     FQDNStatusList_LookupTable_loop (FQDNStatusList_LookupTable_loop t xs) ys"
  by (induction t xs rule: FQDNStatusList_LookupTable_loop.induct) auto

interpretation status_table: keyed_table FQDNStatusList_LookupTable fs_FQDN
  by unfold_locales
    (simp_all add: FQDNStatusList_LookupTable_def FQDNStatusList_LookupTable_loop_append)

subsection \<open>Peers\<close>

definition peer_less :: "MnetPeer \<Rightarrow> MnetPeer \<Rightarrow> bool" where
  "peer_less a b =
     (case pe_IPBlock a of
        None \<Rightarrow> False
      | Some x \<Rightarrow> (case pe_IPBlock b of None \<Rightarrow> True | Some y \<Rightarrow> ib_CIDR x < ib_CIDR y))"

definition sortPeersByCIDR :: "MnetPeer list \<Rightarrow> MnetPeer list" where
  "sortPeersByCIDR peers = sort_SliceStable peer_less peers"

definition peer_key :: "MnetPeer \<Rightarrow> bool \<times> string" where
  "peer_key p = (case pe_IPBlock p of None \<Rightarrow> (True, []) | Some b \<Rightarrow> (False, ib_CIDR b))"

interpretation peer_order: key_order peer_less peer_key
  by unfold_locales (auto simp: peer_less_def peer_key_def less_prod_def split: option.splits)

fun getPeers_entries ::
  "bool \<Rightarrow> bool option \<Rightarrow> MnetPeer list \<Rightarrow> AddressEntry list \<Rightarrow> MnetPeer list" where
  "getPeers_entries globalBlock ruleBlock peers [] = peers"
| "getPeers_entries globalBlock ruleBlock peers (entry # es) =
     (if isAllowed (ae_Address entry) globalBlock ruleBlock
      then getPeers_entries globalBlock ruleBlock
             (peers @ [\<lparr>pe_IPBlock = Some \<lparr>ib_CIDR = ae_Address entry\<rparr>\<rparr>]) es
      else getPeers_entries globalBlock ruleBlock peers es)"

fun getPeers_loop ::
  "(FQDN, FQDNStatus) gomap \<Rightarrow> bool \<Rightarrow> bool option \<Rightarrow> MnetPeer list \<Rightarrow> FQDN list \<Rightarrow> MnetPeer list" where
  "getPeers_loop ips globalBlock ruleBlock peers [] = peers"
| "getPeers_loop ips globalBlock ruleBlock peers (fqdn # fqdns) =
     (case gm_lookup ips fqdn of
        Some status \<Rightarrow>
          getPeers_loop ips globalBlock ruleBlock
            (getPeers_entries globalBlock ruleBlock peers (fs_Addresses status)) fqdns
      | None \<Rightarrow> getPeers_loop ips globalBlock ruleBlock peers fqdns)"

definition getPeers ::
  "FQDN list \<Rightarrow> (FQDN, FQDNStatus) gomap \<Rightarrow> bool \<Rightarrow> bool option \<Rightarrow> MnetPeer list" where
  "getPeers fqdns ips globalBlock ruleBlock =
     sortPeersByCIDR (getPeers_loop ips globalBlock ruleBlock [] fqdns)"

definition toMnetPort :: "MultiNetworkPolicyPort \<Rightarrow> MnetPort" where
  "toMnetPort p =
     \<lparr>mp_Port = (case p_Port p of None \<Rightarrow> None | Some n \<Rightarrow> Some (FromInt (sint n))),
      mp_Protocol = Some (p_Protocol p),
      mp_EndPort = (case p_EndPort p of None \<Rightarrow> None | Some e \<Rightarrow> Some e)\<rparr>"

definition toMultiNetworkPolicyEgressRule ::
  "EgressRule \<Rightarrow> (FQDN, FQDNStatus) gomap \<Rightarrow> bool \<Rightarrow> MnetEgressRule option" where
  "toMultiNetworkPolicyEgressRule r ips blockPrivate =
     (let peers = getPeers (er_ToFQDNs r) ips blockPrivate (er_BlockPrivateIPs r)
      in if length peers = 0 then None
         else Some \<lparr>mer_Ports = (if 0 < length (er_Ports r) then map toMnetPort (er_Ports r) else []),
                    mer_To = peers\<rparr>)"

subsection \<open>Names of a policy\<close>

fun fqdn_set_loop :: "(FQDN, unit) gomap \<Rightarrow> FQDN list \<Rightarrow> (FQDN, unit) gomap" where
  "fqdn_set_loop s [] = s"
| "fqdn_set_loop s (fqdn # fqdns) = fqdn_set_loop (gm_update fqdn () s) fqdns"

fun fqdn_set :: "(FQDN, unit) gomap \<Rightarrow> EgressRule list \<Rightarrow> (FQDN, unit) gomap" where
  "fqdn_set s [] = s"
| "fqdn_set s (r # rs) = fqdn_set (fqdn_set_loop s (er_ToFQDNs r)) rs"

definition FQDNs :: "(FQDN list \<Rightarrow> FQDN list) \<Rightarrow> NetworkPolicy \<Rightarrow> FQDN list" where
  "FQDNs order np =
     sort_SliceStable (\<lambda>a b. a < b) (order (map fst (fqdn_set [] (sp_Egress (np_Spec np)))))"

subsection \<open>The policy\<close>

fun egress_loop ::
  "(FQDN, FQDNStatus) gomap \<Rightarrow> bool \<Rightarrow> MnetEgressRule list \<Rightarrow> EgressRule list \<Rightarrow> MnetEgressRule list" where
  "egress_loop lookup block egress [] = egress"
| "egress_loop lookup block egress (r # rs) =
     (case toMultiNetworkPolicyEgressRule r lookup block of
        Some rule \<Rightarrow> egress_loop lookup block (egress @ [rule]) rs
      | None \<Rightarrow> egress_loop lookup block egress rs)"

fun matchLabels_loop :: "(string, string) gomap \<Rightarrow> MatchLabel list \<Rightarrow> (string, string) gomap" where
  "matchLabels_loop m [] = m"
| "matchLabels_loop m (item # items) = matchLabels_loop (gm_update (ml_Label item) (ml_Value item) m) items"

definition toMatchExpression :: "LabelSelectorRequirement \<Rightarrow> MetaLabelSelectorRequirement" where
  "toMatchExpression src =
     \<lparr>mls_Key = lsr_Key src, mls_Operator = lsr_Operator src, mls_Values = map (\<lambda>v. v) (lsr_Values src)\<rparr>"

definition ToMultiNetworkPolicy :: "NetworkPolicy \<Rightarrow> FQDNStatus list \<Rightarrow> MultiNetworkPolicy option" where
  "ToMultiNetworkPolicy np fqdnStatuses =
     (let numRules = length (sp_Egress (np_Spec np))
      in if numRules = 0 then None
         else let lookup = FQDNStatusList_LookupTable fqdnStatuses;
                  egress = egress_loop lookup (sp_BlockPrivateIPs (np_Spec np)) [] (sp_Egress (np_Spec np));
                  matchLabels = matchLabels_loop [] (sp_MatchLabels (np_Spec np));
                  matchExpressions = map toMatchExpression (sp_MatchExpressions (np_Spec np))
              in Some
                \<lparr>mn_Name = np_Name np, mn_Namespace = np_Namespace np, mn_Labels = np_Labels np,
                 mn_Annotations = [(''k8s.v1.cni.cncf.io/policy-for'',
                   np_Namespace np @ ''/'' @ sp_TargetNetwork (np_Spec np))],
                 mn_Owner = [],
                 mn_Spec =
                   \<lparr>ms_PodSelector =
                      \<lparr>ls_MatchLabels = matchLabels, ls_MatchExpressions = matchExpressions\<rparr>,
                    ms_Ingress = [], ms_Egress = egress, ms_PolicyTypes = [''Egress'']\<rparr>\<rparr>)"

subsection \<open>Status of a name\<close>

definition FQDNStatus_Update ::
  "Time \<Rightarrow> Time \<Rightarrow> CIDR list \<Rightarrow> NetworkPolicyResolutionReason \<Rightarrow> string \<Rightarrow> int \<Rightarrow> FQDNStatus \<Rightarrow>
   FQDNStatus \<times> bool" where
  "FQDNStatus_Update now1 now2 cidrs reason message retryTimeoutSeconds f =
     (let (f1, cleared) =
        (if reason = NetworkPolicyResolutionSuccess then
           (f\<lparr>fs_FailingSince := None,
              fs_Addresses := map (\<lambda>cidr. \<lparr>ae_Address = CIDR_String cidr, ae_MissingSince = None\<rparr>) cidrs\<rparr>,
            False)
         else if Transient reason then
           (case fs_FailingSince f of
              None \<Rightarrow> (f\<lparr>fs_FailingSince := Some now1\<rparr>, False)
            | Some t \<Rightarrow>
                let deadline = time_Add t (duration_seconds retryTimeoutSeconds)
                in if time_After now1 deadline \<and> 0 < length (fs_Addresses f)
                   then (f\<lparr>fs_Addresses := []\<rparr>, True)
                   else (f, False))
         else
           let (f', c) = (if 0 < length (fs_Addresses f) then (f\<lparr>fs_Addresses := []\<rparr>, True) else (f, False))
           in (case fs_FailingSince f' of
                 None \<Rightarrow> (f'\<lparr>fs_FailingSince := Some now1\<rparr>, c)
               | Some _ \<Rightarrow> (f', c)));
        f2 = (if fs_Reason f1 \<noteq> reason then f1\<lparr>fs_LastTransitionTime := now2\<rparr> else f1)
      in (f2\<lparr>fs_Reason := reason, fs_Message := message\<rparr>, cleared))"

subsection \<open>Only the lookups matter\<close>

lemma getPeers_cong:
  "(\<And>f. gm_lookup ips f = gm_lookup ips' f) \<Longrightarrow> getPeers fqdns ips g rb = getPeers fqdns ips' g rb"
proof -
  assume "\<And>f. gm_lookup ips f = gm_lookup ips' f"
  then have "getPeers_loop ips g rb peers fqdns = getPeers_loop ips' g rb peers fqdns" for peers
    by (induction fqdns arbitrary: peers) (simp_all split: option.split)
  then show ?thesis by (simp add: getPeers_def)
qed

lemma egress_loop_cong:
  assumes "\<And>f. gm_lookup ips f = gm_lookup ips' f"
  shows "egress_loop ips g acc rs = egress_loop ips' g acc rs"
proof (induction rs arbitrary: acc)
  case (Cons r rs)
  have "toMultiNetworkPolicyEgressRule r ips g = toMultiNetworkPolicyEgressRule r ips' g"
    unfolding toMultiNetworkPolicyEgressRule_def getPeers_cong [OF assms] ..
  with Cons show ?case by (simp split: option.split)
qed simp

lemma ToMultiNetworkPolicy_cong:
  assumes "distinct (map fs_FQDN sts)" and "mset sts = mset sts'"
    and "np_Spec np = np_Spec np'" and "np_Name np = np_Name np'" and "np_Namespace np = np_Namespace np'"
    and "np_Labels np = np_Labels np'"
  shows "ToMultiNetworkPolicy np sts = ToMultiNetworkPolicy np' sts'"
  unfolding ToMultiNetworkPolicy_def assms(3-6)
  using egress_loop_cong [OF status_table.lookup_mset [OF assms(1,2)]] by simp

subsection \<open>What the peers of a rule are\<close>

definition allowed_addrs :: "(FQDN, FQDNStatus) gomap \<Rightarrow> bool \<Rightarrow> bool option \<Rightarrow> FQDN \<Rightarrow> string list" where
  "allowed_addrs ips g rb f =
     (case gm_lookup ips f of
        None \<Rightarrow> []
      | Some st \<Rightarrow> filter (\<lambda>a. isAllowed a g rb) (map ae_Address (fs_Addresses st)))"

lemma getPeers_entries_eq:
  "getPeers_entries g rb peers es =
     peers @ map cidr_peer (filter (\<lambda>a. isAllowed a g rb) (map ae_Address es))"
  by (induction g rb peers es rule: getPeers_entries.induct) (auto simp: cidr_peer_def)

lemma getPeers_loop_eq:
  "getPeers_loop ips g rb peers fqdns =
     peers @ map cidr_peer (concat (map (allowed_addrs ips g rb) fqdns))"
  by (induction ips g rb peers fqdns rule: getPeers_loop.induct)
    (auto simp: getPeers_entries_eq allowed_addrs_def split: option.splits)

lemma peer_key_cidr_peer [simp]: "peer_key (cidr_peer c) = (False, c)"
  by (simp add: peer_key_def cidr_peer_def)

lemma sortPeersByCIDR_cidr_peers: "sortPeersByCIDR (map cidr_peer cs) = map cidr_peer (sort cs)"
proof -
  have "sort_key peer_key (map cidr_peer cs) = map cidr_peer (sort cs)"
  proof (rule sort_key_inj_key_eq)
    show "inj_on peer_key (set (map cidr_peer cs))"
      by (auto simp: inj_on_def)
    have "sorted_wrt (\<le>) (map (Pair False) ds)" if "sorted ds" for ds :: "string list"
      using that by (induction ds) (auto simp: less_eq_prod_def)
    then show "sorted (map peer_key (map cidr_peer (sort cs)))"
      by (simp add: comp_def)
  qed simp
  then show ?thesis by (simp add: sortPeersByCIDR_def peer_order.stable_eq)
qed

lemma getPeers_eq:
  "getPeers fqdns ips g rb = map cidr_peer (sort (concat (map (allowed_addrs ips g rb) fqdns)))"
  by (simp add: getPeers_def getPeers_loop_eq sortPeersByCIDR_cidr_peers)

lemma allowed_addrs_isAllowed: "a \<in> set (allowed_addrs ips g rb f) \<Longrightarrow> isAllowed a g rb"
  by (auto simp: allowed_addrs_def split: option.splits)

lemma toEgressRule_Some:
  assumes "toMultiNetworkPolicyEgressRule r ips g = Some rule"
  shows "rule_wf rule"
    and "mer_Ports rule = map toMnetPort (er_Ports r)"
    and "set (peer_cidrs (mer_To rule)) =
      (\<Union>f \<in> set (er_ToFQDNs r). set (allowed_addrs ips g (er_BlockPrivateIPs r) f))"
proof -
  let ?cs = "sort (concat (map (allowed_addrs ips g (er_BlockPrivateIPs r)) (er_ToFQDNs r)))"
  have to: "mer_To rule = map cidr_peer ?cs" and "?cs \<noteq> []"
    and ports: "mer_Ports rule = (if er_Ports r = [] then [] else map toMnetPort (er_Ports r))"
    using assms by (auto simp: toMultiNetworkPolicyEgressRule_def getPeers_eq Let_def split: if_splits)
  moreover have "[] \<notin> set ?cs"
    using allowed_addrs_isAllowed isAllowed_not_empty by fastforce
  ultimately show "rule_wf rule" by (simp add: rule_wf_cidr_peers)
  show "mer_Ports rule = map toMnetPort (er_Ports r)" using ports by simp
  show "set (peer_cidrs (mer_To rule)) =
      (\<Union>f \<in> set (er_ToFQDNs r). set (allowed_addrs ips g (er_BlockPrivateIPs r) f))"
    by (simp add: to)
qed

lemma toEgressRule_None:
  "toMultiNetworkPolicyEgressRule r ips g = None \<longleftrightarrow>
     (\<forall>f \<in> set (er_ToFQDNs r). allowed_addrs ips g (er_BlockPrivateIPs r) f = [])"
proof -
  have "sort xs = [] \<longleftrightarrow> xs = []" for xs :: "string list"
    by (metis length_0_conv length_sort)
  then show ?thesis
    by (simp add: toMultiNetworkPolicyEgressRule_def getPeers_eq Let_def)
qed

lemma egress_loop_set:
  "set (egress_loop lookup g egress rs) =
     set egress \<union> {rule. \<exists>r \<in> set rs. toMultiNetworkPolicyEgressRule r lookup g = Some rule}"
  by (induction lookup g egress rs rule: egress_loop.induct) (auto split: option.splits)

subsection \<open>What a policy permits\<close>

definition spec_port_permits :: "MultiNetworkPolicyPort \<Rightarrow> Protocol \<Rightarrow> int \<Rightarrow> bool" where
  "spec_port_permits p proto n \<longleftrightarrow> p_Protocol p = proto \<and>
     (case p_Port p of
        None \<Rightarrow> True
      | Some k \<Rightarrow> (case p_EndPort p of None \<Rightarrow> n = sint k | Some e \<Rightarrow> sint k \<le> n \<and> n \<le> sint e))"

text \<open>
  The meaning of a NetworkPolicy with recorded addresses: some rule lists a name that has the
  address recorded, the private-address filter in force for the rule lets it through, and the
  rule's ports admit the port.
\<close>

definition spec_permits ::
  "NetworkPolicySpec \<Rightarrow> FQDNStatus list \<Rightarrow> string \<Rightarrow> Protocol \<Rightarrow> int \<Rightarrow> bool" where
  "spec_permits sp sts c proto n \<longleftrightarrow>
     (\<exists>r \<in> set (sp_Egress sp).
        (\<exists>f \<in> set (er_ToFQDNs r). case gm_lookup (FQDNStatusList_LookupTable sts) f of
             None \<Rightarrow> False | Some st \<Rightarrow> c \<in> ae_Address ` set (fs_Addresses st)) \<and>
        isAllowed c (sp_BlockPrivateIPs sp) (er_BlockPrivateIPs r) \<and>
        (er_Ports r = [] \<or> (\<exists>p \<in> set (er_Ports r). spec_port_permits p proto n)))"

lemma toMnetPort_permits: "port_permits (toMnetPort p) proto n \<longleftrightarrow> spec_port_permits p proto n"
  by (auto simp: port_permits_def toMnetPort_def spec_port_permits_def split: option.splits)

lemma toEgressRule_permits:
  assumes "toMultiNetworkPolicyEgressRule r ips g = Some rule"
  shows "rule_permits rule c proto n \<longleftrightarrow>
    (\<exists>f \<in> set (er_ToFQDNs r). c \<in> set (allowed_addrs ips g (er_BlockPrivateIPs r) f)) \<and>
    (er_Ports r = [] \<or> (\<exists>p \<in> set (er_Ports r). spec_port_permits p proto n))"
  using toEgressRule_Some [OF assms]
  by (auto simp: rule_permits_def ports_permit_def toMnetPort_permits rule_wf_def)

lemma allowed_addrs_iff:
  "c \<in> set (allowed_addrs ips g rb f) \<longleftrightarrow>
     (case gm_lookup ips f of None \<Rightarrow> False | Some st \<Rightarrow> c \<in> ae_Address ` set (fs_Addresses st)) \<and>
     isAllowed c g rb"
  by (cases "gm_lookup ips f") (auto simp: allowed_addrs_def)

lemma ToMultiNetworkPolicy_egress:
  "ToMultiNetworkPolicy np sts = Some m \<Longrightarrow>
     ms_Egress (mn_Spec m) =
       egress_loop (FQDNStatusList_LookupTable sts) (sp_BlockPrivateIPs (np_Spec np)) [] (sp_Egress (np_Spec np))"
  by (auto simp: ToMultiNetworkPolicy_def Let_def split: if_splits)

lemma generated_permits:
  assumes "ToMultiNetworkPolicy np sts = Some m"
  shows "egress_permits (ms_Egress (mn_Spec m)) c proto n \<longleftrightarrow> spec_permits (np_Spec np) sts c proto n"
proof -
  let ?ips = "FQDNStatusList_LookupTable sts" and ?g = "sp_BlockPrivateIPs (np_Spec np)"
  have "egress_permits (ms_Egress (mn_Spec m)) c proto n \<longleftrightarrow>
    (\<exists>r \<in> set (sp_Egress (np_Spec np)). \<exists>rule.
       toMultiNetworkPolicyEgressRule r ?ips ?g = Some rule \<and> rule_permits rule c proto n)"
    using ToMultiNetworkPolicy_egress [OF assms] by (auto simp: egress_permits_def egress_loop_set)
  also have "\<dots> \<longleftrightarrow> (\<exists>r \<in> set (sp_Egress (np_Spec np)).
      (\<exists>f \<in> set (er_ToFQDNs r). c \<in> set (allowed_addrs ?ips ?g (er_BlockPrivateIPs r) f)) \<and>
      (er_Ports r = [] \<or> (\<exists>p \<in> set (er_Ports r). spec_port_permits p proto n)))"
    using toEgressRule_permits toEgressRule_None
    by (metis emptyE list.set(1) option.exhaust)
  also have "\<dots> \<longleftrightarrow> spec_permits (np_Spec np) sts c proto n"
    by (auto simp: spec_permits_def allowed_addrs_iff)
  finally show ?thesis .
qed

text \<open>
  (C3) The generated MultiNetworkPolicy permits a destination and port exactly when the
  NetworkPolicy means to: nothing is added and nothing is lost by the translation.
\<close>

theorem ToMultiNetworkPolicy_permits:
  assumes "ToMultiNetworkPolicy np sts = Some m"
  shows "egress_permits (ms_Egress (mn_Spec m)) c proto n \<longleftrightarrow> spec_permits (np_Spec np) sts c proto n"
  using assms by (rule generated_permits)

subsection \<open>A sample policy\<close>

definition sample_status :: "FQDN \<Rightarrow> string list \<Rightarrow> FQDNStatus" where
  "sample_status f as =
     \<lparr>fs_FQDN = f, fs_FailingSince = None, fs_LastTransitionTime = 0,
      fs_Reason = NetworkPolicyResolutionSuccess, fs_Message = ''Resolved successfully'',
      fs_Addresses = map (\<lambda>a. \<lparr>ae_Address = a, ae_MissingSince = None\<rparr>) as\<rparr>"

definition sample_rule :: EgressRule where
  "sample_rule =
     \<lparr>er_ToFQDNs = [''b.io'', ''a.io''],
      er_Ports = [\<lparr>p_Protocol = ''TCP'', p_Port = Some 443, p_EndPort = None\<rparr>],
      er_BlockPrivateIPs = None\<rparr>"

definition sample_spec :: NetworkPolicySpec where
  "sample_spec =
     \<lparr>sp_TargetNetwork = ''net1'', sp_Egress = [sample_rule],
      sp_MatchLabels = [\<lparr>ml_Label = LabelWithVirtualMachineName, ml_Value = ''vm1''\<rparr>],
      sp_MatchExpressions = [], sp_EnabledNetworkType = IPv4, sp_ResolutionTimeoutSeconds = 2,
      sp_RetryTimeoutSeconds = 3600, sp_TTLSeconds = 60, sp_BlockPrivateIPs = True\<rparr>"

definition sample_np :: NetworkPolicy where
  "sample_np =
     \<lparr>np_Name = ''p'', np_Namespace = ''ns'', np_Labels = [], np_Annotations = [], np_Generation = 1,
      np_Spec = sample_spec,
      np_Status = \<lparr>st_FQDNs = [], st_ActiveFQDNCount = 0, st_FailingFQDNCount = 0,
        st_AppliedAddressCount = 0, st_TotalAddressCount = 0, st_Conditions = [],
        st_ObservedGeneration = 0\<rparr>\<rparr>"

definition sample_statuses :: "FQDNStatus list" where
  "sample_statuses = [sample_status ''a.io'' [''10.0.0.1/32'', ''8.8.8.8/32''], sample_status ''b.io'' [''9.9.9.9/32'']]"

theorem ToMultiNetworkPolicy_permits_witness:
  "\<exists>m. ToMultiNetworkPolicy sample_np sample_statuses = Some m \<and>
     egress_permits (ms_Egress (mn_Spec m)) ''8.8.8.8/32'' ''TCP'' 443 \<and>
     \<not> egress_permits (ms_Egress (mn_Spec m)) ''10.0.0.1/32'' ''TCP'' 443 \<and>
     \<not> egress_permits (ms_Egress (mn_Spec m)) ''8.8.8.8/32'' ''TCP'' 80"
proof -
  obtain m where m: "ToMultiNetworkPolicy sample_np sample_statuses = Some m"
    by (simp add: ToMultiNetworkPolicy_def sample_np_def sample_spec_def Let_def)
  have "spec_permits sample_spec sample_statuses ''8.8.8.8/32'' ''TCP'' 443"
    "\<not> spec_permits sample_spec sample_statuses ''10.0.0.1/32'' ''TCP'' 443"
    "\<not> spec_permits sample_spec sample_statuses ''8.8.8.8/32'' ''TCP'' 80"
    by code_simp+
  moreover have "np_Spec sample_np = sample_spec" by (simp add: sample_np_def)
  ultimately show ?thesis
    using m ToMultiNetworkPolicy_permits [OF m, of "''8.8.8.8/32''" "''TCP''" 443]
      ToMultiNetworkPolicy_permits [OF m, of "''10.0.0.1/32''" "''TCP''" 443]
      ToMultiNetworkPolicy_permits [OF m, of "''8.8.8.8/32''" "''TCP''" 80] by auto
qed

subsection \<open>Safety of the generated rules\<close>

definition effective_block :: "NetworkPolicySpec \<Rightarrow> EgressRule \<Rightarrow> bool" where
  "effective_block sp r = (case er_BlockPrivateIPs r of None \<Rightarrow> sp_BlockPrivateIPs sp | Some b \<Rightarrow> b)"

lemma isAllowed_private:
  "NewCIDR c = Some ci \<Longrightarrow> CIDR_IsPrivate ci \<Longrightarrow> isAllowed c (sp_BlockPrivateIPs sp) (er_BlockPrivateIPs r) \<longleftrightarrow> \<not> effective_block sp r"
  by (auto simp: isAllowed_def effective_block_def Let_def split: option.splits)

text \<open>
  (C10) The blocking of private addresses, rule by rule. For a private address: what is generated
  from a rule that blocks private addresses, by its own setting or by the policy's, does not let it
  through; and the policy as a whole, mixed or not, lets it through exactly when some rule that does
  not block lists a name the address is recorded for and the port. Whatever the policy lets through
  is a well-formed CIDR block.
\<close>

theorem private_addresses_blocked:
  assumes "ToMultiNetworkPolicy np sts = Some m" and "NewCIDR c = Some ci" and "CIDR_IsPrivate ci"
  shows "(\<forall>r \<in> set (sp_Egress (np_Spec np)). \<forall>rule. effective_block (np_Spec np) r \<and>
       toMultiNetworkPolicyEgressRule r (FQDNStatusList_LookupTable sts) (sp_BlockPrivateIPs (np_Spec np)) = Some rule \<longrightarrow>
       \<not> rule_permits rule c proto n) \<and>
    (egress_permits (ms_Egress (mn_Spec m)) c proto n \<longleftrightarrow>
       (\<exists>r \<in> set (sp_Egress (np_Spec np)). \<not> effective_block (np_Spec np) r \<and>
          (\<exists>f \<in> set (er_ToFQDNs r). case gm_lookup (FQDNStatusList_LookupTable sts) f of
             None \<Rightarrow> False | Some st \<Rightarrow> c \<in> ae_Address ` set (fs_Addresses st)) \<and>
          (er_Ports r = [] \<or> (\<exists>p \<in> set (er_Ports r). spec_port_permits p proto n)))) \<and>
    (\<forall>d. egress_permits (ms_Egress (mn_Spec m)) d proto n \<longrightarrow> NewCIDR d \<noteq> None)"
proof (intro conjI ballI allI impI)
  note priv = isAllowed_private [OF assms(2,3)]
  fix r rule
  assume "effective_block (np_Spec np) r \<and>
    toMultiNetworkPolicyEgressRule r (FQDNStatusList_LookupTable sts) (sp_BlockPrivateIPs (np_Spec np)) = Some rule"
  then show "\<not> rule_permits rule c proto n"
    using toEgressRule_permits priv [of "np_Spec np" r] by (auto simp: allowed_addrs_iff)
next
  show "egress_permits (ms_Egress (mn_Spec m)) c proto n \<longleftrightarrow>
       (\<exists>r \<in> set (sp_Egress (np_Spec np)). \<not> effective_block (np_Spec np) r \<and>
          (\<exists>f \<in> set (er_ToFQDNs r). case gm_lookup (FQDNStatusList_LookupTable sts) f of
             None \<Rightarrow> False | Some st \<Rightarrow> c \<in> ae_Address ` set (fs_Addresses st)) \<and>
          (er_Ports r = [] \<or> (\<exists>p \<in> set (er_Ports r). spec_port_permits p proto n)))"
    unfolding generated_permits [OF assms(1)] spec_permits_def isAllowed_private [OF assms(2,3)] by blast
next
  fix d assume "egress_permits (ms_Egress (mn_Spec m)) d proto n"
  then have "\<exists>g rb. isAllowed d g rb" using generated_permits [OF assms(1)] by (auto simp: spec_permits_def)
  then show "NewCIDR d \<noteq> None" by (auto simp: isAllowed_def split: option.splits)
qed

text \<open>A policy that blocks, with one rule that does not.\<close>

definition mixed_np :: NetworkPolicy where
  "mixed_np = sample_np\<lparr>np_Spec := sample_spec\<lparr>sp_Egress := [sample_rule, sample_rule\<lparr>er_BlockPrivateIPs := Some False,
     er_Ports := [\<lparr>p_Protocol = ''TCP'', p_Port = Some 22, p_EndPort = None\<rparr>]\<rparr>]\<rparr>\<rparr>"

theorem private_addresses_blocked_witness:
  "\<exists>m. ToMultiNetworkPolicy mixed_np sample_statuses = Some m \<and>
     egress_permits (ms_Egress (mn_Spec m)) ''10.0.0.1/32'' ''TCP'' 22 \<and>
     \<not> egress_permits (ms_Egress (mn_Spec m)) ''10.0.0.1/32'' ''TCP'' 443"
proof -
  obtain m where m: "ToMultiNetworkPolicy mixed_np sample_statuses = Some m"
    by (simp add: ToMultiNetworkPolicy_def mixed_np_def sample_spec_def Let_def)
  have "case NewCIDR ''10.0.0.1/32'' of None \<Rightarrow> False | Some ci \<Rightarrow> CIDR_IsPrivate ci" by code_simp
  then obtain ci where ci: "NewCIDR ''10.0.0.1/32'' = Some ci" "CIDR_IsPrivate ci" by (auto split: option.splits)
  have "gm_lookup (FQDNStatusList_LookupTable sample_statuses) ''a.io'' = Some (sample_status ''a.io'' [''10.0.0.1/32'', ''8.8.8.8/32''])"
    by code_simp
  then show ?thesis
    using m private_addresses_blocked [OF m ci, of "''TCP''" 22] private_addresses_blocked [OF m ci, of "''TCP''" 443]
    by (auto simp: mixed_np_def sample_spec_def sample_rule_def effective_block_def spec_port_permits_def sample_status_def)
qed

lemma generated_wf:
  assumes "ToMultiNetworkPolicy np sts = Some m"
  shows "list_all rule_wf (ms_Egress (mn_Spec m)) \<and>
    length (ms_Egress (mn_Spec m)) \<le> length (sp_Egress (np_Spec np))"
proof -
  have "length (egress_loop ips g egress rs) \<le> length egress + length rs" for ips g egress rs
    by (induction ips g egress rs rule: egress_loop.induct) (auto split: option.splits)
  from this [of _ _ "[]"] show ?thesis
    using toEgressRule_Some(1)
    by (auto simp: ToMultiNetworkPolicy_egress [OF assms] list_all_iff egress_loop_set)
qed

text \<open>
  No generated rule has an empty peer list, which would open every destination, and every peer
  is a non-empty CIDR block. A rule none of whose names has a usable address is left out.
\<close>

lemma generated_rules_wf:
  assumes "ToMultiNetworkPolicy np sts = Some m"
  shows "list_all rule_wf (ms_Egress (mn_Spec m)) \<and>
    length (ms_Egress (mn_Spec m)) \<le> length (sp_Egress (np_Spec np))"
  using assms by (rule generated_wf)

subsection \<open>Names\<close>

lemma fqdn_set_loop_wf: "gm_wf s \<Longrightarrow> gm_wf (fqdn_set_loop s fs)"
  by (induction s fs rule: fqdn_set_loop.induct) auto

lemma fqdn_set_loop_keys: "fst ` set (fqdn_set_loop s fs) = fst ` set s \<union> set fs"
  by (induction s fs rule: fqdn_set_loop.induct) (auto simp: gm_dom_update)

lemma fqdn_set_wf: "gm_wf s \<Longrightarrow> gm_wf (fqdn_set s rs)"
  by (induction s rs rule: fqdn_set.induct) (auto simp: fqdn_set_loop_wf)

lemma fqdn_set_keys: "fst ` set (fqdn_set s rs) = fst ` set s \<union> (\<Union>r \<in> set rs. set (er_ToFQDNs r))"
  by (induction s rs rule: fqdn_set.induct) (auto simp: fqdn_set_loop_keys)

lemma FQDNs_distinct: "reordering order \<Longrightarrow> distinct (FQDNs order np)"
  using fqdn_set_wf [of "[]" "sp_Egress (np_Spec np)"]
  by (simp add: FQDNs_def string_order.stable_eq reorder_simps gm_wf_def)

text \<open>
  (C39) The names of a policy come out sorted and without duplicates, and are exactly the names its
  rules list, whatever order the Go runtime iterates the set in.
\<close>

theorem FQDNs_eq:
  assumes "reordering order"
  shows "FQDNs order np = sorted_list_of_set (\<Union>r \<in> set (sp_Egress (np_Spec np)). set (er_ToFQDNs r))"
proof -
  let ?ks = "map fst (fqdn_set [] (sp_Egress (np_Spec np)))"
  have "FQDNs order np = sort (order ?ks)"
    by (simp add: FQDNs_def string_order.stable_eq)
  moreover have "distinct (order ?ks)"
    using fqdn_set_wf [of "[]"] assms by (simp add: reorder_simps gm_wf_def)
  moreover have "set (order ?ks) = (\<Union>r \<in> set (sp_Egress (np_Spec np)). set (er_ToFQDNs r))"
    using assms by (simp add: reorder_simps fqdn_set_keys)
  ultimately show ?thesis
    by (metis distinct_sort set_sort sorted_sort sorted_list_of_set.idem_if_sorted_distinct)
qed

theorem FQDNs_eq_witness:
  "FQDNs rev sample_np = sorted_list_of_set {''b.io'', ''a.io''} \<and> FQDNs rev sample_np = [''a.io'', ''b.io'']"
proof
  show "FQDNs rev sample_np = sorted_list_of_set {''b.io'', ''a.io''}"
    using FQDNs_eq [of rev sample_np] by (simp add: sample_np_def sample_spec_def sample_rule_def)
  show "FQDNs rev sample_np = [''a.io'', ''b.io'']" by code_simp
qed

subsection \<open>Status updates\<close>

lemma Update_Success:
  "FQDNStatus_Update t1 t2 cidrs NetworkPolicyResolutionSuccess msg k f =
     (f\<lparr>fs_FailingSince := None,
        fs_LastTransitionTime := (if fs_Reason f = NetworkPolicyResolutionSuccess
          then fs_LastTransitionTime f else t2),
        fs_Reason := NetworkPolicyResolutionSuccess, fs_Message := msg,
        fs_Addresses := map (\<lambda>c. \<lparr>ae_Address = CIDR_String c, ae_MissingSince = None\<rparr>) cidrs\<rparr>, False)"
  by (simp add: FQDNStatus_Update_def)

lemma Update_Transient_first:
  assumes "Transient r" and "fs_FailingSince f = None"
  shows "fs_Addresses (fst (FQDNStatus_Update t1 t2 cidrs r msg k f)) = fs_Addresses f"
    and "fs_FailingSince (fst (FQDNStatus_Update t1 t2 cidrs r msg k f)) = Some t1"
    and "\<not> snd (FQDNStatus_Update t1 t2 cidrs r msg k f)"
  using assms Success_not_Transient by (auto simp: FQDNStatus_Update_def)

lemma Update_Transient_again:
  assumes "Transient r" and "fs_FailingSince f = Some t0"
  shows "fs_Addresses (fst (FQDNStatus_Update t1 t2 cidrs r msg k f)) =
      (if t0 + sint (duration_seconds k) < t1 then [] else fs_Addresses f)"
    and "fs_FailingSince (fst (FQDNStatus_Update t1 t2 cidrs r msg k f)) = Some t0"
    and "snd (FQDNStatus_Update t1 t2 cidrs r msg k f) \<longleftrightarrow>
      t0 + sint (duration_seconds k) < t1 \<and> fs_Addresses f \<noteq> []"
  using assms Success_not_Transient
  by (auto simp: FQDNStatus_Update_def time_After_def time_Add_def Let_def)

lemma Update_permanent:
  assumes "\<not> Transient r" and "r \<noteq> NetworkPolicyResolutionSuccess"
  shows "fs_Addresses (fst (FQDNStatus_Update t1 t2 cidrs r msg k f)) = []"
    and "fs_FailingSince (fst (FQDNStatus_Update t1 t2 cidrs r msg k f)) =
      Some (case fs_FailingSince f of None \<Rightarrow> t1 | Some t0 \<Rightarrow> t0)"
    and "snd (FQDNStatus_Update t1 t2 cidrs r msg k f) \<longleftrightarrow> fs_Addresses f \<noteq> []"
  using assms by (auto simp: FQDNStatus_Update_def Let_def split: option.splits)

lemma Update_frame [simp]:
  "fs_FQDN (fst (FQDNStatus_Update t1 t2 cidrs r msg k f)) = fs_FQDN f"
  "fs_Reason (fst (FQDNStatus_Update t1 t2 cidrs r msg k f)) = r"
  "fs_Message (fst (FQDNStatus_Update t1 t2 cidrs r msg k f)) = msg"
  by (auto simp: FQDNStatus_Update_def Let_def split: option.splits prod.splits)

text \<open>
  One status update, all outcomes: the failure time stamp is empty exactly when the result is a
  success, the transition time moves exactly when the reason changes, and \<open>cleared\<close> is reported
  exactly when a failure dropped recorded addresses.
\<close>

lemma Update_outcome:
  "(fs_FailingSince (fst (FQDNStatus_Update t1 t2 cidrs r msg k f)) = None \<longleftrightarrow> r = NetworkPolicyResolutionSuccess) \<and>
   fs_LastTransitionTime (fst (FQDNStatus_Update t1 t2 cidrs r msg k f)) =
     (if fs_Reason f = r then fs_LastTransitionTime f else t2) \<and>
   (snd (FQDNStatus_Update t1 t2 cidrs r msg k f) \<longleftrightarrow>
     r \<noteq> NetworkPolicyResolutionSuccess \<and> fs_Addresses f \<noteq> [] \<and>
     fs_Addresses (fst (FQDNStatus_Update t1 t2 cidrs r msg k f)) = [])"
proof -
  have "fs_LastTransitionTime (fst (FQDNStatus_Update t1 t2 cidrs r msg k f)) =
     (if fs_Reason f = r then fs_LastTransitionTime f else t2)"
    by (auto simp: FQDNStatus_Update_def Let_def split: option.splits prod.splits)
  moreover consider "r = NetworkPolicyResolutionSuccess"
    | "Transient r" "fs_FailingSince f = None" "r \<noteq> NetworkPolicyResolutionSuccess"
    | t0 where "Transient r" "fs_FailingSince f = Some t0" "r \<noteq> NetworkPolicyResolutionSuccess"
    | "\<not> Transient r" "r \<noteq> NetworkPolicyResolutionSuccess"
    using Success_not_Transient by (cases "fs_FailingSince f") blast+
  then have "(fs_FailingSince (fst (FQDNStatus_Update t1 t2 cidrs r msg k f)) = None \<longleftrightarrow> r = NetworkPolicyResolutionSuccess) \<and>
     (snd (FQDNStatus_Update t1 t2 cidrs r msg k f) \<longleftrightarrow>
     r \<noteq> NetworkPolicyResolutionSuccess \<and> fs_Addresses f \<noteq> [] \<and>
     fs_Addresses (fst (FQDNStatus_Update t1 t2 cidrs r msg k f)) = [])"
    by cases (simp_all add: Update_Success Update_Transient_first Update_Transient_again Update_permanent)
  ultimately show ?thesis by simp
qed

text \<open>A run of updates of one name, each with the time it happens at.\<close>

type_synonym update_event = "Time \<times> CIDR list \<times> NetworkPolicyResolutionReason \<times> string"

fun update_run :: "int \<Rightarrow> FQDNStatus \<Rightarrow> update_event list \<Rightarrow> FQDNStatus" where
  "update_run k f [] = f"
| "update_run k f ((t, cidrs, r, msg) # es) = update_run k (fst (FQDNStatus_Update t t cidrs r msg k f)) es"

definition transient_until :: "Time \<Rightarrow> update_event list \<Rightarrow> bool" where
  "transient_until limit es = list_all (\<lambda>(t, cidrs, r, msg). Transient r \<and> t \<le> limit) es"

lemma update_run_within:
  assumes "fs_FailingSince f = Some t0" and "transient_until (t0 + sint (duration_seconds k)) es"
  shows "fs_Addresses (update_run k f es) = fs_Addresses f \<and> fs_FailingSince (update_run k f es) = Some t0"
  using assms
proof (induction k f es rule: update_run.induct)
  case (2 k f t cidrs r msg es)
  then have tr: "Transient r" "\<not> t0 + sint (duration_seconds k) < t"
    by (auto simp: transient_until_def)
  note again = Update_Transient_again [OF tr(1) "2.prems"(1), of t t cidrs msg k]
  have "fs_Addresses (update_run k (fst (FQDNStatus_Update t t cidrs r msg k f)) es) =
      fs_Addresses (fst (FQDNStatus_Update t t cidrs r msg k f)) \<and>
    fs_FailingSince (update_run k (fst (FQDNStatus_Update t t cidrs r msg k f)) es) = Some t0"
    using "2.IH" [OF again(2)] "2.prems"(2) by (simp add: transient_until_def)
  with again tr show ?case by simp
qed simp

text \<open>
  (C6) The retry window over a whole run: when a healthy name starts to fail transiently at \<open>t0\<close>,
  every run of transient failures up to \<open>RetryTimeoutSeconds\<close> after \<open>t0\<close> keeps the recorded addresses
  and the start of the failure, and the first transient failure after the window drops them all.
  The seconds are a 32-bit field and the deadline is computed in 64-bit nanoseconds without overflow.
\<close>

theorem retry_window:
  assumes "fs_FailingSince f = None"
    and "transient_until (t0 + sint (k :: int32) * 1000000000) es" and "Transient r0"
  shows "fs_Addresses (update_run (sint k) f ((t0, cs0, r0, m0) # es)) = fs_Addresses f \<and>
    fs_FailingSince (update_run (sint k) f ((t0, cs0, r0, m0) # es)) = Some t0 \<and>
    (\<forall>t cs r m. Transient r \<and> t0 + sint k * 1000000000 < t \<longrightarrow>
      fs_Addresses (update_run (sint k) f (((t0, cs0, r0, m0) # es) @ [(t, cs, r, m)])) = [])"
proof -
  let ?f1 = "fst (FQDNStatus_Update t0 t0 cs0 r0 m0 (sint k) f)"
  let ?g = "update_run (sint k) ?f1 es"
  have d: "sint (duration_seconds (sint k)) = sint k * 1000000000"
    by (rule sint_duration_seconds_int32)
  note first = Update_Transient_first [OF assms(3,1), of t0 t0 cs0 m0 "sint k"]
  have g: "fs_Addresses ?g = fs_Addresses f" "fs_FailingSince ?g = Some t0"
    using update_run_within [OF first(2), of "sint k" es] assms(2) first(1) by (simp_all add: d)
  have "update_run k' f' (xs @ ys) = update_run k' (update_run k' f' xs) ys" for k' f' xs ys
    by (induction k' f' xs rule: update_run.induct) auto
  then have "fs_Addresses (update_run (sint k) f (((t0, cs0, r0, m0) # es) @ [(t, cs, r, m)])) = []"
    if "Transient r" "t0 + sint k * 1000000000 < t" for t cs r m
    using Update_Transient_again(1) [OF that(1) g(2), of t t cs m "sint k"] that(2) by (simp add: d)
  with g show ?thesis by auto
qed

theorem retry_window_witness:
  "fs_Addresses (update_run (sint (5 :: int32)) (sample_status ''a.io'' [''8.8.8.8/32''])
     [(10, [], NetworkPolicyResolutionTimeout, ''m''), (2000000000, [], NetworkPolicyResolutionError, ''m'')]) =
     [\<lparr>ae_Address = ''8.8.8.8/32'', ae_MissingSince = None\<rparr>] \<and>
   fs_Addresses (update_run (sint (5 :: int32)) (sample_status ''a.io'' [''8.8.8.8/32''])
     ([(10, [], NetworkPolicyResolutionTimeout, ''m''), (2000000000, [], NetworkPolicyResolutionError, ''m'')] @
      [(6000000000, [], NetworkPolicyResolutionTimeout, ''m'')])) = []"
proof -
  have h: "fs_FailingSince (sample_status ''a.io'' [''8.8.8.8/32'']) = None"
    "transient_until (10 + sint (5 :: int32) * 1000000000) [(2000000000, [], NetworkPolicyResolutionError, ''m'')]"
    "Transient NetworkPolicyResolutionTimeout" by code_simp+
  show ?thesis
    using retry_window [OF h, of "[]" "''m''"] h(3) by (simp add: sample_status_def)
qed

end
