(* ===== verification/Resolver.thy ===== *)
theory Resolver
  imports Api_Funcs
begin

text \<open>
  \<open>pkg/network/resolver.go\<close> without the goroutines of \<open>Resolve\<close>: the classification of
  errors, the result of one lookup, and the aggregation of a list of results.

  A Go error is a value of \<open>go_error\<close>: the package's own \<open>lookupError\<close>, the two context errors, the
  two sentinel errors of package \<open>net\<close> that match them under \<open>errors.Is\<close>, a \<open>net.DNSError\<close>, an error
  that wraps another, or any other error. \<open>errors.As\<close> and \<open>errors.Is\<close> follow the chain of
  wrapped errors. The DNS lookup itself, the method \<open>LookupIP\<close> of the \<open>Resolver\<close> interface, is an
  argument. A nil dereference is \<open>None\<close>.
\<close>

subsection \<open>Errors\<close>

record lookupError =
  le_Reason :: NetworkPolicyResolutionReason
  le_Message :: string

datatype go_error =
    LookupError lookupError
  | DeadlineExceeded
  | Canceled
  | NetTimeout
  | NetCanceled
  | DNSError (de_Err: string) (de_Name: string) (de_Server: string)
      (de_IsTimeout: bool) (de_IsTemporary: bool) (de_IsNotFound: bool) (de_Unwrap: "go_error option")
  | WrapError string go_error
  | OtherError string

fun go_Error :: "go_error \<Rightarrow> string" where
  "go_Error (LookupError e) = le_Message e"
| "go_Error DeadlineExceeded = ''context deadline exceeded''"
| "go_Error Canceled = ''context canceled''"
| "go_Error NetTimeout = ''i/o timeout''"
| "go_Error NetCanceled = ''operation was canceled''"
| "go_Error (DNSError e n s _ _ _ _) =
     ''lookup '' @ n @ (if s \<noteq> [] then '' on '' @ s else []) @ '': '' @ e"
| "go_Error (WrapError m _) = m"
| "go_Error (OtherError m) = m"

definition lookupError_Error :: "lookupError \<Rightarrow> string" where
  "lookupError_Error e = le_Message e"

fun errors_As_lookupError :: "go_error \<Rightarrow> lookupError option" where
  "errors_As_lookupError (LookupError e) = Some e"
| "errors_As_lookupError (DNSError _ _ _ _ _ _ u) =
     (case u of None \<Rightarrow> None | Some e \<Rightarrow> errors_As_lookupError e)"
| "errors_As_lookupError (WrapError _ e) = errors_As_lookupError e"
| "errors_As_lookupError _ = None"

fun errors_Is_DeadlineExceeded :: "go_error \<Rightarrow> bool" where
  "errors_Is_DeadlineExceeded DeadlineExceeded = True"
| "errors_Is_DeadlineExceeded NetTimeout = True"
| "errors_Is_DeadlineExceeded (DNSError _ _ _ _ _ _ u) =
     (case u of None \<Rightarrow> False | Some e \<Rightarrow> errors_Is_DeadlineExceeded e)"
| "errors_Is_DeadlineExceeded (WrapError _ e) = errors_Is_DeadlineExceeded e"
| "errors_Is_DeadlineExceeded _ = False"

fun errors_Is_Canceled :: "go_error \<Rightarrow> bool" where
  "errors_Is_Canceled Canceled = True"
| "errors_Is_Canceled NetCanceled = True"
| "errors_Is_Canceled (DNSError _ _ _ _ _ _ u) =
     (case u of None \<Rightarrow> False | Some e \<Rightarrow> errors_Is_Canceled e)"
| "errors_Is_Canceled (WrapError _ e) = errors_Is_Canceled e"
| "errors_Is_Canceled _ = False"

fun errors_As_DNSError :: "go_error \<Rightarrow> go_error option" where
  "errors_As_DNSError (DNSError a b c d e f u) = Some (DNSError a b c d e f u)"
| "errors_As_DNSError (WrapError _ e) = errors_As_DNSError e"
| "errors_As_DNSError _ = None"

definition resolutionReason :: "go_error option \<Rightarrow> NetworkPolicyResolutionReason" where
  "resolutionReason err =
     (case err of
        None \<Rightarrow> NetworkPolicyResolutionSuccess
      | Some e \<Rightarrow>
          (case errors_As_lookupError e of
             Some lookupErr \<Rightarrow> le_Reason lookupErr
           | None \<Rightarrow>
               if errors_Is_DeadlineExceeded e then NetworkPolicyResolutionTimeout
               else if errors_Is_Canceled e then NetworkPolicyResolutionError
               else (case errors_As_DNSError e of
                   None \<Rightarrow> NetworkPolicyResolutionError
                 | Some dnsErr \<Rightarrow>
                     if de_IsTimeout dnsErr then NetworkPolicyResolutionTimeout
                     else if de_IsNotFound dnsErr then NetworkPolicyResolutionHostNotFound
                     else if de_IsTemporary dnsErr then NetworkPolicyResolutionTemporaryError
                     else NetworkPolicyResolutionError)))"

definition resolutionMessage :: "go_error option \<Rightarrow> string" where
  "resolutionMessage err =
     (case err of
        None \<Rightarrow> ''Resolved successfully''
      | Some e \<Rightarrow>
          (case errors_As_lookupError e of
             Some lookupErr \<Rightarrow> lookupError_Error lookupErr
           | None \<Rightarrow>
               if errors_Is_DeadlineExceeded e then ''Timeout waiting for resolution task to complete''
               else if errors_Is_Canceled e then ''Resolution task was canceled by the system''
               else (case errors_As_DNSError e of
                   None \<Rightarrow> go_Error e
                 | Some dnsErr \<Rightarrow>
                     if de_IsTimeout dnsErr then ''Timeout waiting for DNS server response''
                     else if de_IsNotFound dnsErr then ''Domain not found or no address records exist''
                     else if de_IsTemporary dnsErr then ''Temporary failure in name resolution''
                     else go_Error e)))"

subsection \<open>Results\<close>

record DNSResolverResult =
  rr_FQDN :: FQDN
  rr_Error :: "go_error option"
  rr_Status :: NetworkPolicyResolutionReason
  rr_Message :: string
  rr_CIDRs :: "CIDR list"

definition cidr_less :: "CIDR \<Rightarrow> CIDR \<Rightarrow> bool" where
  "cidr_less a b =
     (if To16 (cd_IP a) = To16 (cd_IP b) then cd_Prefix a < cd_Prefix b
      else To16 (cd_IP a) < To16 (cd_IP b))"

definition NewDNSResolverResult :: "FQDN \<Rightarrow> CIDR list \<Rightarrow> go_error option \<Rightarrow> DNSResolverResult" where
  "NewDNSResolverResult fqdn cidrs err =
     \<lparr>rr_FQDN = fqdn, rr_Error = err, rr_Status = resolutionReason err,
      rr_Message = resolutionMessage err, rr_CIDRs = sort_SliceStable cidr_less cidrs\<rparr>"

type_synonym DNSResolverResultList = "DNSResolverResult list"

definition ResultList_CIDRs :: "DNSResolverResultList \<Rightarrow> CIDR list" where
  "ResultList_CIDRs rl =
     (let total = sum_list (map (\<lambda>r. length (rr_CIDRs r)) rl)
      in if total = 0 then [] else foldl (\<lambda>allCIDRs r. allCIDRs @ rr_CIDRs r) [] rl)"

fun successCount_loop :: "nat \<Rightarrow> DNSResolverResultList \<Rightarrow> nat" where
  "successCount_loop n [] = n"
| "successCount_loop n (r # rl) =
     successCount_loop (if rr_Status r = NetworkPolicyResolutionSuccess then Suc n else n) rl"

definition AggregatedResolutionStatus :: "DNSResolverResultList \<Rightarrow> NetworkPolicyResolutionReason" where
  "AggregatedResolutionStatus rl =
     (let total = length rl; successCount = successCount_loop 0 rl
      in if total = 0 then NetworkPolicyResolutionSuccess
         else if successCount = total then NetworkPolicyResolutionSuccess
         else if successCount = 0 then NetworkPolicyResolutionFailure
         else NetworkPolicyResolutionPartialSuccess)"

fun worstResult_loop ::
  "nat \<times> DNSResolverResult option \<Rightarrow> DNSResolverResultList \<Rightarrow> nat \<times> DNSResolverResult option" where
  "worstResult_loop s [] = s"
| "worstResult_loop (n, worst) (result # rl) =
     (if rr_Status result = NetworkPolicyResolutionSuccess then worstResult_loop (Suc n, worst) rl
      else (case worst of
          None \<Rightarrow> worstResult_loop (n, Some result) rl
        | Some w \<Rightarrow>
            if Priority (rr_Status w) < Priority (rr_Status result)
            then worstResult_loop (n, Some result) rl
            else worstResult_loop (n, Some w) rl))"

text \<open>The message of the worst result; \<open>None\<close> is the nil dereference of \<open>Error.Error()\<close>.\<close>

definition sampleMessage :: "DNSResolverResult option \<Rightarrow> string option" where
  "sampleMessage worst =
     (case worst of
        None \<Rightarrow> Some ''Unknown error''
      | Some w \<Rightarrow>
          (case rr_Error w of
             None \<Rightarrow> None
           | Some e \<Rightarrow>
               let resMsg = resolutionMessage (Some e); rawErr = go_Error e
               in Some (if resMsg = rawErr then resMsg else resMsg @ '': '' @ rawErr)))"

definition AggregatedResolutionMessage :: "DNSResolverResultList \<Rightarrow> string option" where
  "AggregatedResolutionMessage rl =
     (let total = length rl; (successCount, worst) = worstResult_loop (0, None) rl
      in if total = 0 then Some ''Network policy has no FQDNs defined.''
         else if successCount = total
         then Some (''All '' @ Itoa (int total) @ '' FQDNs resolved successfully.'')
         else (case sampleMessage worst of
             None \<Rightarrow> None
           | Some msg \<Rightarrow>
               if successCount = 0
               then Some (''Failed to resolve any of the '' @ Itoa (int total) @ '' FQDNs. '' @ msg @ ''.'')
               else Some (''Partially resolved ('' @ Itoa (int successCount) @ ''/'' @ Itoa (int total) @
                          '' FQDNs). '' @ msg @ ''.'')))"

fun ResultList_LookupTable_loop ::
  "(FQDN, DNSResolverResult) gomap \<Rightarrow> DNSResolverResultList \<Rightarrow> (FQDN, DNSResolverResult) gomap" where
  "ResultList_LookupTable_loop lookup [] = lookup"
| "ResultList_LookupTable_loop lookup (r # rl) = ResultList_LookupTable_loop (gm_update (rr_FQDN r) r lookup) rl"

definition ResultList_LookupTable :: "DNSResolverResultList \<Rightarrow> (FQDN, DNSResolverResult) gomap" where
  "ResultList_LookupTable rl = ResultList_LookupTable_loop [] rl"

subsection \<open>One lookup\<close>

type_synonym LookupIP = "string \<Rightarrow> string \<Rightarrow> go_error + IP list"

definition host_cidr :: "IP \<Rightarrow> CIDR" where
  "host_cidr ip = \<lparr>cd_IP = ip, cd_Prefix = (if To4 ip \<noteq> None then 32 else 128)\<rparr>"

definition DNSResolver_lookupIP :: "LookupIP \<Rightarrow> NetworkType \<Rightarrow> FQDN \<Rightarrow> go_error + CIDR list" where
  "DNSResolver_lookupIP LookupIP networkType host =
     (if \<not> FQDN_Valid host
      then Inl (LookupError \<lparr>le_Reason = NetworkPolicyResolutionInvalidFormat,
             le_Message = ''Received invalid FQDN '' @ [CHR 0x27] @ host @ [CHR 0x27]\<rparr>)
      else (case LookupIP (ResolverString networkType) host of
          Inl err \<Rightarrow> Inl err
        | Inr ips \<Rightarrow> Inr (map host_cidr ips)))"

text \<open>What one goroutine of \<open>Resolve\<close> sends when it got its slot, and when the context ended first.\<close>

definition lookup_result :: "LookupIP \<Rightarrow> NetworkType \<Rightarrow> FQDN \<Rightarrow> DNSResolverResult" where
  "lookup_result LookupIP networkType fqdn =
     (case DNSResolver_lookupIP LookupIP networkType fqdn of
        Inl err \<Rightarrow> NewDNSResolverResult fqdn [] (Some err)
      | Inr cidrs \<Rightarrow> NewDNSResolverResult fqdn cidrs None)"

definition canceled_result :: "FQDN \<Rightarrow> DNSResolverResult" where
  "canceled_result fqdn =
     NewDNSResolverResult fqdn []
       (Some (LookupError \<lparr>le_Reason = NetworkPolicyResolutionError,
                le_Message = ''Context canceled before resolution could start''\<rparr>))"

record FakeDNSResolver =
  fake_Results :: DNSResolverResultList

definition FakeDNSResolver_Resolve :: "FakeDNSResolver \<Rightarrow> FQDN list \<Rightarrow> DNSResolverResultList" where
  "FakeDNSResolver_Resolve r fqdns = fake_Results r"

subsection \<open>Laws of the helpers\<close>

interpretation cidr_order: key_order cidr_less "\<lambda>c. (To16 (cd_IP c), cd_Prefix c)"
  by unfold_locales (auto simp: cidr_less_def less_prod_def)

lemma ResultList_LookupTable_loop_append:
  "ResultList_LookupTable_loop t (xs @ ys) = ResultList_LookupTable_loop (ResultList_LookupTable_loop t xs) ys"
  by (induction t xs rule: ResultList_LookupTable_loop.induct) auto

interpretation result_table: keyed_table ResultList_LookupTable rr_FQDN
  by unfold_locales (simp_all add: ResultList_LookupTable_def ResultList_LookupTable_loop_append)

lemma foldl_append_concat: "foldl (\<lambda>acc r. acc @ f r) a xs = a @ concat (map f xs)"
  by (induction xs arbitrary: a) auto

lemma ResultList_CIDRs_concat: "ResultList_CIDRs rl = concat (map rr_CIDRs rl)"
  by (auto simp: ResultList_CIDRs_def foldl_append_concat Let_def sum_list_eq_0_iff)

definition succeeded :: "DNSResolverResult \<Rightarrow> bool" where
  "succeeded r \<longleftrightarrow> rr_Status r = NetworkPolicyResolutionSuccess"

lemma successCount_loop_eq: "successCount_loop n rl = n + length (filter succeeded rl)"
  by (induction n rl rule: successCount_loop.induct) (auto simp: succeeded_def)

text \<open>
  The aggregate of a list of results is \<open>Success\<close> exactly when every lookup succeeded,
  \<open>Failure\<close> exactly when there was one and none succeeded, and \<open>PartialSuccess\<close> otherwise; in
  particular it does not depend on the order in which the lookups finish.
\<close>

lemma AggregatedResolutionStatus_cases:
  "AggregatedResolutionStatus rl =
     (if list_all succeeded rl then NetworkPolicyResolutionSuccess
      else if list_ex succeeded rl then NetworkPolicyResolutionPartialSuccess
      else NetworkPolicyResolutionFailure)"
proof -
  have "length (filter succeeded rl) = length rl \<longleftrightarrow> list_all succeeded rl"
    by (metis filter_id_conv length_filter_less less_irrefl list_all_iff)
  moreover have "length (filter succeeded rl) = 0 \<longleftrightarrow> \<not> list_ex succeeded rl"
    by (simp add: filter_empty_conv list_ex_iff)
  ultimately show ?thesis
    by (simp add: AggregatedResolutionStatus_def successCount_loop_eq Let_def)
qed

lemma worstResult_loop_count: "fst (worstResult_loop (n, w) rl) = n + length (filter succeeded rl)"
  by (induction "(n, w)" rl arbitrary: n w rule: worstResult_loop.induct)
    (auto simp: succeeded_def split: option.splits)

text \<open>
  The failure a message should quote: among the failures of highest priority, the first in the list.
\<close>

definition highest_failure :: "DNSResolverResultList \<Rightarrow> DNSResolverResult \<Rightarrow> bool" where
  "highest_failure rl r \<longleftrightarrow> \<not> succeeded r \<and>
     list_all (\<lambda>q. succeeded q \<or> Priority (rr_Status q) \<le> Priority (rr_Status r)) rl"

definition first_worst :: "DNSResolverResultList \<Rightarrow> DNSResolverResult option" where
  "first_worst rl = find (highest_failure rl) rl"

lemma highest_failure_Cons:
  "highest_failure (r # rl) q \<longleftrightarrow> highest_failure rl q \<and> (succeeded r \<or> Priority (rr_Status r) \<le> Priority (rr_Status q))"
  by (auto simp: highest_failure_def)

lemma worstResult_loop_Some:
  "\<not> succeeded v \<Longrightarrow> snd (worstResult_loop (n, Some v) rl) = first_worst (v # rl)"
proof (induction rl arbitrary: n v)
  case (Cons r rl)
  have "first_worst (v # r # rl) =
      (if succeeded r \<or> Priority (rr_Status r) \<le> Priority (rr_Status v) then first_worst (v # rl) else first_worst (r # rl))"
  proof (cases "succeeded r \<or> Priority (rr_Status r) \<le> Priority (rr_Status v)")
    case True
    then have "highest_failure (v # r # rl) = highest_failure (v # rl)"
      using Cons.prems by (auto simp: fun_eq_iff highest_failure_def list_all_iff)
    moreover have "\<not> highest_failure (v # rl) r" if "\<not> highest_failure (v # rl) v"
      using that True Cons.prems by (auto simp: highest_failure_def list_all_iff)
    ultimately show ?thesis using True by (simp add: first_worst_def)
  next
    case False
    then have "highest_failure (v # r # rl) = highest_failure (r # rl)"
      by (auto simp: fun_eq_iff highest_failure_def list_all_iff)
    moreover have "\<not> highest_failure (r # rl) v" using False by (simp add: highest_failure_def)
    ultimately show ?thesis using False by (simp add: first_worst_def)
  qed
  then show ?case using Cons by (auto simp: succeeded_def)
qed (simp add: first_worst_def highest_failure_def)

lemma worstResult_worst: "snd (worstResult_loop (n, None) rl) = first_worst rl"
proof (induction rl arbitrary: n)
  case (Cons r rl)
  show ?case
  proof (cases "succeeded r")
    case True
    then have "highest_failure (r # rl) = highest_failure rl" "\<not> highest_failure rl r"
      by (auto simp: fun_eq_iff highest_failure_def)
    then show ?thesis using Cons.IH [of "Suc n"] True by (simp add: first_worst_def succeeded_def)
  next
    case False
    then show ?thesis using worstResult_loop_Some [OF False, of n rl] by (simp add: succeeded_def)
  qed
qed (simp add: first_worst_def)

lemma first_worst_Some:
  assumes "first_worst rl = Some r"
  shows "r \<in> set rl \<and> highest_failure rl r"
  using assms by (auto simp: first_worst_def find_Some_iff)

lemma first_worst_None: "first_worst rl = None \<longleftrightarrow> list_all succeeded rl"
proof
  assume none: "first_worst rl = None"
  show "list_all succeeded rl"
  proof (rule ccontr)
    let ?F = "{r \<in> set rl. \<not> succeeded r}"
    let ?M = "Max ((\<lambda>r. Priority (rr_Status r)) ` ?F)"
    assume "\<not> list_all succeeded rl"
    then have "(\<lambda>r. Priority (rr_Status r)) ` ?F \<noteq> {}" by (auto simp: list_all_iff)
    then have "?M \<in> (\<lambda>r. Priority (rr_Status r)) ` ?F" by (intro Max_in) auto
    then obtain r where r: "r \<in> ?F" "Priority (rr_Status r) = ?M" by auto
    have "\<forall>q \<in> set rl. succeeded q \<or> Priority (rr_Status q) \<le> ?M" by (auto intro!: Max_ge)
    then have "highest_failure rl r" using r(1) by (simp add: highest_failure_def list_all_iff r(2))
    with r none show False by (auto simp: first_worst_def find_None_iff)
  qed
next
  assume "list_all succeeded rl"
  then show "first_worst rl = None" by (auto simp: first_worst_def find_None_iff highest_failure_def list_all_iff)
qed

subsection \<open>Classification\<close>

definition foreign_error :: "go_error \<Rightarrow> bool" where
  "foreign_error e \<longleftrightarrow> errors_As_lookupError e = None"

lemma foreign_reason:
  "foreign_error e \<Longrightarrow> resolutionReason (Some e) \<in>
     {NetworkPolicyResolutionTimeout, NetworkPolicyResolutionError,
      NetworkPolicyResolutionHostNotFound, NetworkPolicyResolutionTemporaryError}"
  by (auto simp: resolutionReason_def foreign_error_def split: option.splits)

lemma resolutionReason_None [simp]: "resolutionReason None = NetworkPolicyResolutionSuccess"
  by (simp add: resolutionReason_def)

lemma resolutionReason_LookupError [simp]: "resolutionReason (Some (LookupError e)) = le_Reason e"
  by (simp add: resolutionReason_def)

text \<open>A result as the package builds it: the status is that of the error, and an error never counts as success.\<close>

definition result_wf :: "DNSResolverResult \<Rightarrow> bool" where
  "result_wf r \<longleftrightarrow> (rr_Error r = None \<longleftrightarrow> rr_Status r = NetworkPolicyResolutionSuccess) \<and>
     rr_Status r = resolutionReason (rr_Error r) \<and> rr_Message r = resolutionMessage (rr_Error r) \<and>
     (rr_Error r \<noteq> None \<longrightarrow> rr_CIDRs r = [])"

text \<open>
  The type \<open>lookupError\<close> is private to the package, so no error that a \<open>Resolver\<close> returns has one in
  its chain.
\<close>

definition foreign_lookup :: "LookupIP \<Rightarrow> bool" where
  "foreign_lookup L \<longleftrightarrow> (\<forall>net host e. L net host = Inl e \<longrightarrow> foreign_error e)"

lemma result_wf_canceled: "result_wf (canceled_result f)"
  by (simp add: canceled_result_def NewDNSResolverResult_def result_wf_def sort_SliceStable_def reason_defs)

lemma result_wf_lookup:
  assumes "foreign_lookup L"
  shows "result_wf (lookup_result L nt f)"
proof (cases "DNSResolver_lookupIP L nt f")
  case (Inl e)
  then have "resolutionReason (Some e) \<noteq> NetworkPolicyResolutionSuccess"
    using assms foreign_reason [of e]
    by (auto simp: DNSResolver_lookupIP_def foreign_lookup_def reason_defs split: if_splits sum.splits)
  with Inl show ?thesis
    by (simp add: lookup_result_def NewDNSResolverResult_def result_wf_def sort_SliceStable_def)
qed (simp add: lookup_result_def NewDNSResolverResult_def result_wf_def)

lemma result_FQDN [simp]: "rr_FQDN (canceled_result f) = f" "rr_FQDN (lookup_result L nt f) = f"
  by (auto simp: canceled_result_def lookup_result_def NewDNSResolverResult_def split: sum.splits)

text \<open>
  What an error says, read off its chain of wrapped errors: whether a deadline passed, whether the
  task was canceled, and the first DNS error.
\<close>

fun error_chain :: "go_error \<Rightarrow> go_error list" where
  "error_chain (DNSError a b c d e f u) =
     DNSError a b c d e f u # (case u of None \<Rightarrow> [] | Some x \<Rightarrow> error_chain x)"
| "error_chain (WrapError m e) = WrapError m e # error_chain e"
| "error_chain e = [e]"

definition interrupted :: "go_error \<Rightarrow> bool" where
  "interrupted e \<longleftrightarrow> Canceled \<in> set (error_chain e) \<or> NetCanceled \<in> set (error_chain e)"

definition dns_says :: "(go_error \<Rightarrow> bool) \<Rightarrow> go_error \<Rightarrow> bool" where
  "dns_says P e \<longleftrightarrow> \<not> interrupted e \<and> (\<exists>d. find is_DNSError (error_chain e) = Some d \<and> P d)"

definition timed_out :: "go_error \<Rightarrow> bool" where
  "timed_out e \<longleftrightarrow> DeadlineExceeded \<in> set (error_chain e) \<or> NetTimeout \<in> set (error_chain e) \<or> dns_says de_IsTimeout e"

definition host_not_found :: "go_error \<Rightarrow> bool" where
  "host_not_found e \<longleftrightarrow> \<not> timed_out e \<and> dns_says de_IsNotFound e"

definition temporary_failure :: "go_error \<Rightarrow> bool" where
  "temporary_failure e \<longleftrightarrow> \<not> timed_out e \<and> \<not> host_not_found e \<and> dns_says de_IsTemporary e"

lemma errors_Is_chain:
  "errors_Is_DeadlineExceeded e \<longleftrightarrow> DeadlineExceeded \<in> set (error_chain e) \<or> NetTimeout \<in> set (error_chain e)"
  "errors_Is_Canceled e \<longleftrightarrow> interrupted e"
  "errors_As_DNSError e = find is_DNSError (error_chain e)"
  by (induction e rule: error_chain.induct) (auto simp: interrupted_def split: option.splits)

lemma foreign_classes:
  assumes "foreign_error e"
  shows "resolutionReason (Some e) =
    (if timed_out e then NetworkPolicyResolutionTimeout
     else if host_not_found e then NetworkPolicyResolutionHostNotFound
     else if temporary_failure e then NetworkPolicyResolutionTemporaryError
     else NetworkPolicyResolutionError)"
  using assms
  by (auto simp: resolutionReason_def foreign_error_def errors_Is_chain timed_out_def host_not_found_def
      temporary_failure_def dns_says_def split: option.splits)


definition sample_lookup :: LookupIP where
  "sample_lookup net host =
     (if host = ''a.io'' then Inr [[8, 8, 8, 8], [10, 0, 0, 1]]
      else Inl (DNSError ''no such host'' host [] False False True None))"

lemma sample_lookup_foreign: "foreign_lookup sample_lookup"
  by (simp add: foreign_lookup_def sample_lookup_def foreign_error_def)

text \<open>A resolver that fails in every way.\<close>

definition broken_lookup :: LookupIP where
  "broken_lookup net host =
     Inl (if host = ''t.io'' then WrapError ''w'' (DNSError ''slow'' host [] True True True None)
          else if host = ''n.io'' then DNSError ''no such host'' host [] False True True None
          else if host = ''s.io'' then DNSError ''server misbehaving'' host [] False True False None
          else DNSError ''stopped'' host [] True True True (Some NetCanceled))"

lemma broken_lookup_foreign: "foreign_lookup broken_lookup"
  by (simp add: foreign_lookup_def broken_lookup_def foreign_error_def)


subsection \<open>The aggregate message\<close>

text \<open>The text of a failure: its message, followed by the raw error where that says something else.\<close>

definition failure_text :: "DNSResolverResult \<Rightarrow> string" where
  "failure_text r =
     (case rr_Error r of
        None \<Rightarrow> ''''
      | Some e \<Rightarrow> if rr_Message r = go_Error e then go_Error e else rr_Message r @ '': '' @ go_Error e)"

definition message_head :: "DNSResolverResultList \<Rightarrow> string" where
  "message_head rl =
     (if list_ex succeeded rl
      then ''Partially resolved ('' @ Itoa (int (length (filter succeeded rl))) @ ''/'' @ Itoa (int (length rl)) @ '' FQDNs). ''
      else ''Failed to resolve any of the '' @ Itoa (int (length rl)) @ '' FQDNs. '')"

lemma aggregated_message:
  assumes "list_all result_wf rl"
  shows "AggregatedResolutionMessage rl = Some
    (case first_worst rl of
       None \<Rightarrow> if rl = [] then ''Network policy has no FQDNs defined.''
         else ''All '' @ Itoa (int (length rl)) @ '' FQDNs resolved successfully.''
     | Some r \<Rightarrow> message_head rl @ failure_text r @ ''.'')"
proof -
  have loop: "worstResult_loop (0, None) rl = (length (filter succeeded rl), first_worst rl)"
    using worstResult_worst [of 0 rl] worstResult_loop_count [of 0 None rl] by (simp add: prod_eq_iff)
  show ?thesis
  proof (cases "first_worst rl")
    case None
    then have "filter succeeded rl = rl" by (simp add: first_worst_None list_all_iff)
    with None loop show ?thesis by (simp add: AggregatedResolutionMessage_def)
  next
    case (Some r)
    then have r: "r \<in> set rl" "\<not> succeeded r" using first_worst_Some by (auto simp: highest_failure_def)
    then obtain e where e: "rr_Error r = Some e" "rr_Message r = resolutionMessage (Some e)"
      using assms by (fastforce simp: list_all_iff result_wf_def succeeded_def)
    then have "sampleMessage (Some r) = Some (failure_text r)"
      by (simp add: sampleMessage_def failure_text_def Let_def)
    moreover have "length (filter succeeded rl) < length rl" by (rule length_filter_less [of r]) fact+
    moreover have "length (filter succeeded rl) = 0 \<longleftrightarrow> \<not> list_ex succeeded rl"
      by (simp add: filter_empty_conv list_ex_iff)
    ultimately show ?thesis
      using Some loop by (auto simp: AggregatedResolutionMessage_def message_head_def Let_def)
  qed
qed

text \<open>
  (C33) The aggregate message: for results as the package builds them it never dereferences a nil error
  and reads as follows. Without names it says so; when every lookup succeeded it counts them;
  otherwise it says how many of how many succeeded and quotes, with its message and its raw error, a
  failure of highest priority, the first one among those in the list.
\<close>

theorem AggregatedResolutionMessage_text:
  assumes "list_all result_wf rl"
  shows "(rl = [] \<longrightarrow> AggregatedResolutionMessage rl = Some ''Network policy has no FQDNs defined.'') \<and>
    (rl \<noteq> [] \<and> list_all succeeded rl \<longrightarrow>
       AggregatedResolutionMessage rl = Some (''All '' @ Itoa (int (length rl)) @ '' FQDNs resolved successfully.'')) \<and>
    (\<not> list_all succeeded rl \<longrightarrow>
       (\<exists>before r after. rl = before @ r # after \<and> \<not> succeeded r \<and>
          (\<forall>q \<in> set rl. \<not> succeeded q \<longrightarrow> Priority (rr_Status q) \<le> Priority (rr_Status r)) \<and>
          (\<forall>q \<in> set before. \<not> succeeded q \<longrightarrow> Priority (rr_Status q) < Priority (rr_Status r)) \<and>
          AggregatedResolutionMessage rl = Some (message_head rl @ failure_text r @ ''.'')))"
proof (cases "first_worst rl")
  case None
  then have "list_all succeeded rl" by (simp add: first_worst_None)
  with None show ?thesis using aggregated_message [OF assms] by (cases rl) simp_all
next
  case (Some r)
  then obtain i where i: "i < length rl" "rl ! i = r" and high: "highest_failure rl r"
    and before: "\<forall>j < i. \<not> highest_failure rl (rl ! j)"
    by (auto simp: first_worst_def find_Some_iff)
  have split: "rl = take i rl @ r # drop (Suc i) rl" using id_take_nth_drop [OF i(1)] i(2) by simp
  have "Priority (rr_Status q) < Priority (rr_Status r)" if q: "q \<in> set (take i rl)" "\<not> succeeded q" for q
  proof -
    obtain j where "j < i" "q = rl ! j" using q(1) by (auto simp: in_set_conv_nth)
    then have "\<not> highest_failure rl q" using before by simp
    then obtain p where "p \<in> set rl" "\<not> succeeded p" "Priority (rr_Status q) < Priority (rr_Status p)"
      using q(2) by (auto simp: highest_failure_def list_all_iff)
    then show ?thesis using high by (auto simp: highest_failure_def list_all_iff)
  qed
  moreover have "\<not> list_all succeeded rl" using first_worst_None [of rl] Some by simp
  moreover have "\<forall>q \<in> set rl. \<not> succeeded q \<longrightarrow> Priority (rr_Status q) \<le> Priority (rr_Status r)"
    "\<not> succeeded r" using high by (auto simp: highest_failure_def list_all_iff)
  ultimately show ?thesis using split aggregated_message [OF assms] Some by auto
qed

theorem AggregatedResolutionMessage_text_witness:
  "AggregatedResolutionMessage (map (lookup_result broken_lookup IPv4) [''s.io'', ''n.io'', ''t.io'']) =
     Some (message_head (map (lookup_result broken_lookup IPv4) [''s.io'', ''n.io'', ''t.io'']) @
       ''Domain not found or no address records exist: lookup n.io: no such host.'')"
proof -
  let ?rl = "map (lookup_result broken_lookup IPv4) [''s.io'', ''n.io'', ''t.io'']"
  have "list_all result_wf ?rl" by (simp add: result_wf_lookup broken_lookup_foreign)
  moreover have "\<not> list_all succeeded ?rl" by code_simp
  ultimately obtain r where r: "r \<in> set ?rl"
    "\<forall>q \<in> set ?rl. \<not> succeeded q \<longrightarrow> Priority (rr_Status q) \<le> Priority (rr_Status r)"
    and m: "AggregatedResolutionMessage ?rl = Some (message_head ?rl @ failure_text r @ ''.'')"
    using AggregatedResolutionMessage_text [of ?rl] by (metis in_set_conv_decomp)
  have n: "\<not> succeeded (lookup_result broken_lookup IPv4 ''n.io'')"
    "\<not> Priority (rr_Status (lookup_result broken_lookup IPv4 ''n.io'')) \<le> Priority (rr_Status (lookup_result broken_lookup IPv4 ''s.io''))"
    "\<not> Priority (rr_Status (lookup_result broken_lookup IPv4 ''n.io'')) \<le> Priority (rr_Status (lookup_result broken_lookup IPv4 ''t.io''))"
    "failure_text (lookup_result broken_lookup IPv4 ''n.io'') = ''Domain not found or no address records exist: lookup n.io: no such host''"
    by code_simp+
  then have "r = lookup_result broken_lookup IPv4 ''n.io''" using r by auto
  with m n(4) show ?thesis by simp
qed

subsection \<open>Resolved addresses\<close>

lemma cidr_wf_host_cidr: "length ip = 4 \<or> length ip = 16 \<Longrightarrow> cidr_wf (host_cidr ip)"
  by (auto simp: cidr_wf_def host_cidr_def addr_bits_def)

text \<open>
  (C31) Every address the resolver returns, IPv4 or IPv6, becomes a host block (\<open>/32\<close> or \<open>/128\<close>) whose
  recorded string parses back to the same address and prefix; so the private-address filter decides
  on the address itself and never drops it for a parse error.
\<close>

theorem resolved_address_round_trip:
  assumes "c \<in> set (rr_CIDRs (lookup_result L nt f))"
    and "L (ResolverString nt) f = Inr ips" and "list_all (\<lambda>ip. length ip = 4 \<or> length ip = 16) ips"
  shows "NewCIDR (CIDR_String c) = Some (c\<lparr>cd_IP := To16 (cd_IP c)\<rparr>) \<and>
    cd_Prefix c = int (addr_bits (cd_IP c)) \<and>
    (isAllowed (CIDR_String c) g rb \<longleftrightarrow> \<not> (CIDR_IsPrivate c \<and> (case rb of None \<Rightarrow> g | Some b \<Rightarrow> b)))"
proof -
  obtain ip where ip: "ip \<in> set ips" "c = host_cidr ip"
    using assms(1,2) by (auto simp: lookup_result_def DNSResolver_lookupIP_def NewDNSResolverResult_def
        cidr_order.stable_set split: if_splits sum.splits)
  then have "cidr_wf c" using assms(3) cidr_wf_host_cidr by (auto simp: list_all_iff)
  with ip show ?thesis
    by (simp add: NewCIDR_CIDR_String isAllowed_CIDR_String host_cidr_def addr_bits_def)
qed

theorem resolved_address_round_trip_witness:
  "NewCIDR (CIDR_String (host_cidr [8, 8, 8, 8])) = Some ((host_cidr [8, 8, 8, 8])\<lparr>cd_IP := To16 [8, 8, 8, 8]\<rparr>)"
proof -
  have h: "list_ex (\<lambda>c. c = host_cidr [8, 8, 8, 8]) (rr_CIDRs (lookup_result sample_lookup IPv4 ''a.io''))" by code_simp
  then have h1: "host_cidr [8, 8, 8, 8] \<in> set (rr_CIDRs (lookup_result sample_lookup IPv4 ''a.io''))"
    by (auto simp: list_ex_iff)
  have h2: "sample_lookup (ResolverString IPv4) ''a.io'' = Inr [[8, 8, 8, 8], [10, 0, 0, 1]]"
    by (simp add: sample_lookup_def)
  have "cd_IP (host_cidr [8, 8, 8, 8]) = [8, 8, 8, 8]" by (simp add: host_cidr_def)
  then show ?thesis
    using resolved_address_round_trip [OF h1 h2, of False None] by simp
qed

end
