(* ===== verification/Go_Time.thy ===== *)
theory Go_Time
  imports Go_Strings
begin

text \<open>
  Go's \<open>time.ParseDuration\<close>, which reads the retention-period annotation. Integer parts are
  exact; the fractional part of a number is computed by the library in \<open>float64\<close>, so the model
  rounds each operation to 53 significant bits, to nearest and ties to even. Exponents are not
  bounded in the model: where \<open>float64\<close> would underflow or overflow, the fraction is far below
  one nanosecond and both truncate to zero.
\<close>

subsection \<open>Rounding to 53 bits\<close>

fun bit_len :: "nat \<Rightarrow> nat" where
  "bit_len n = (if n = 0 then 0 else Suc (bit_len (n div 2)))"

declare bit_len.simps [simp del]

definition round_half_even :: "nat \<Rightarrow> nat \<Rightarrow> nat" where
  "round_half_even p q =
     (let m = p div q; r = 2 * (p mod q)
      in if r < q then m else if q < r then m + 1 else if even m then m else m + 1)"

text \<open>A non-negative number is a fraction \<open>(p, q)\<close>; \<open>shift2\<close> multiplies it by a power of two.\<close>

definition shift2 :: "int \<Rightarrow> nat \<times> nat \<Rightarrow> nat \<times> nat" where
  "shift2 s x = (if 0 \<le> s then (fst x * 2 ^ nat s, snd x) else (fst x, snd x * 2 ^ nat (- s)))"

definition f64 :: "nat \<times> nat \<Rightarrow> nat \<times> nat" where
  "f64 x =
     (if fst x = 0 then (0, 1)
      else let s = 53 - (int (bit_len (fst x)) - int (bit_len (snd x)));
               y = shift2 s x;
               t = (if snd y * 2 ^ 53 \<le> fst y then s - 1 else s);
               z = shift2 t x
           in shift2 (- t) (round_half_even (fst z) (snd z), 1))"

definition f64_of_nat :: "nat \<Rightarrow> nat \<times> nat" where
  "f64_of_nat n = f64 (n, 1)"

definition f64_mult :: "nat \<times> nat \<Rightarrow> nat \<times> nat \<Rightarrow> nat \<times> nat" where
  "f64_mult x y = f64 (fst x * fst y, snd x * snd y)"

definition f64_div :: "nat \<times> nat \<Rightarrow> nat \<times> nat \<Rightarrow> nat \<times> nat" where
  "f64_div x y = f64 (fst x * snd y, snd x * fst y)"

definition f64_trunc :: "nat \<times> nat \<Rightarrow> nat" where
  "f64_trunc x = fst x div snd x"

subsection \<open>Parsing\<close>

text \<open>\<open>leadingFraction\<close>: the value of the digits, the scale, and whether the value overflowed.\<close>

fun leadingFraction :: "string \<Rightarrow> nat \<Rightarrow> nat \<times> nat \<Rightarrow> nat \<times> (nat \<times> nat)" where
  "leadingFraction [] x scale = (x, scale)"
| "leadingFraction (c # s) x scale =
     (if (2 ^ 63 - 1) div 10 < x then (x, scale)
      else let y = x * 10 + digit_val c
           in if 2 ^ 63 < y then (x, scale)
              else leadingFraction s y (f64_mult scale (10, 1)))"

definition unitMap :: "string \<Rightarrow> nat option" where
  "unitMap u = map_of
     [(''ns'', 1), (''us'', 1000), ([CHR 0xC2, CHR 0xB5, CHR ''s''], 1000),
      ([CHR 0xCE, CHR 0xBC, CHR ''s''], 1000), (''ms'', 1000000), (''s'', 1000000000),
      (''m'', 60000000000), (''h'', 3600000000000)] u"

definition is_num_char :: "char \<Rightarrow> bool" where
  "is_num_char c \<longleftrightarrow> c = CHR ''.'' \<or> is_digit c"

text \<open>The part after the integer digits: an optional fraction.\<close>

definition fraction_digits :: "string \<Rightarrow> string" where
  "fraction_digits s = (case s of CHR ''.'' # t \<Rightarrow> takeWhile is_digit t | _ \<Rightarrow> [])"

definition after_fraction :: "string \<Rightarrow> string" where
  "after_fraction s = (case s of CHR ''.'' # t \<Rightarrow> dropWhile is_digit t | _ \<Rightarrow> s)"

definition fraction_ns :: "string \<Rightarrow> nat \<Rightarrow> nat" where
  "fraction_ns ds unit =
     (let (f, scale) = leadingFraction ds 0 (1, 1)
      in if 0 < f then f64_trunc (f64_mult (f64_of_nat f) (f64_div (f64_of_nat unit) scale)) else 0)"

definition duration_item :: "string \<Rightarrow> (nat \<times> string) option" where
  "duration_item s =
     (let ds = takeWhile is_digit s; s1 = dropWhile is_digit s;
          fs = fraction_digits s1; s2 = after_fraction s1;
          u = takeWhile (\<lambda>c. \<not> is_num_char c) s2; v = digits_val 0 ds
      in if 2 ^ 63 < v \<or> ds = [] \<and> fs = [] \<or> u = [] then None
         else (case unitMap u of
             None \<Rightarrow> None
           | Some unit \<Rightarrow>
               let w = v * unit + fraction_ns fs unit
               in if 2 ^ 63 div unit < v \<or> 2 ^ 63 < w then None
                  else Some (w, dropWhile (\<lambda>c. \<not> is_num_char c) s2)))"

lemma length_after_fraction: "length (after_fraction s) \<le> length s"
  by (auto simp: after_fraction_def le_SucI length_dropWhile_le split: list.splits char.splits bool.splits)

lemma length_dropWhile_less: "takeWhile P s \<noteq> [] \<Longrightarrow> length (dropWhile P s) < length s"
  by (metis add_diff_cancel_left' diff_less length_append length_greater_0_conv
      length_dropWhile_le takeWhile_dropWhile_id le_neq_implies_less less_add_same_cancel2)

lemma duration_item_shorter: "duration_item s = Some (v, t) \<Longrightarrow> length t < length s"
  using length_dropWhile_less [of "\<lambda>c. \<not> is_num_char c" "after_fraction (dropWhile is_digit s)"]
    length_after_fraction [of "dropWhile is_digit s"] length_dropWhile_le [of is_digit s]
  by (auto simp: duration_item_def Let_def split: if_splits option.splits)

function duration_loop :: "nat \<Rightarrow> string \<Rightarrow> nat option" where
  "duration_loop d s =
     (if s = [] then Some d
      else (case duration_item s of
          None \<Rightarrow> None
        | Some (v, t) \<Rightarrow>
            if 2 ^ 63 < (d + v) mod 2 ^ 64 then None else duration_loop ((d + v) mod 2 ^ 64) t))"
  by pat_completeness auto
termination
  by (relation "measure (\<lambda>(d, s). length s)") (auto simp: duration_item_shorter)

declare duration_loop.simps [simp del]

definition ParseDuration :: "string \<Rightarrow> Duration option" where
  "ParseDuration s =
     (let neg = (take 1 s = ''-''); t = (if take 1 s = ''-'' \<or> take 1 s = ''+'' then drop 1 s else s)
      in if t = ''0'' then Some 0
         else if t = [] then None
         else (case duration_loop 0 t of
             None \<Rightarrow> None
           | Some d \<Rightarrow>
               if neg then Some (- of_nat d)
               else if 2 ^ 63 - 1 < d then None
               else Some (of_nat d)))"

text \<open>A plain number of seconds, the form users write most.\<close>

lemma duration_item_seconds:
  assumes "n \<le> 9223372036"
  shows "duration_item (nat_digits n @ ''s'') = Some (n * 1000000000, [])"
proof -
  have dig: "\<not> is_digit (CHR ''s'')" by (simp add: is_digit_iff)
  have "takeWhile is_digit (nat_digits n @ ''s'') = nat_digits n"
    and "dropWhile is_digit (nat_digits n @ ''s'') = ''s''"
    using nat_digits_all_digits [of n] dig by (simp_all add: takeWhile_append2 dropWhile_append2)
  then show ?thesis
    using assms dig by (simp add: duration_item_def digits_val_nat_digits fraction_digits_def
        after_fraction_def is_num_char_def unitMap_def fraction_ns_def)
qed

lemma hd_nat_digits_sign: "take 1 (nat_digits n @ t) \<noteq> ''-''" "take 1 (nat_digits n @ t) \<noteq> ''+''"
  using nat_digits_all_digits [of n] by (cases "nat_digits n"; force simp: is_digit_iff)+

lemma ParseDuration_seconds:
  assumes "n \<le> 9223372036"
  shows "ParseDuration (nat_digits n @ ''s'') = Some (of_nat (n * 1000000000))"
proof -
  have "duration_loop 0 (nat_digits n @ ''s'') = Some (n * 1000000000)"
    using assms by (simp add: duration_loop.simps [of 0] duration_loop.simps [of _ "[]"] duration_item_seconds)
  moreover have "nat_digits n @ ''s'' \<noteq> ''0''"
    by (cases "nat_digits n") auto
  ultimately show ?thesis
    using assms hd_nat_digits_sign [of n "''s''"] by (simp add: ParseDuration_def)
qed

subsection \<open>Printing\<close>

text \<open>\<open>Duration.String\<close>. The micro sign is printed in its two-byte UTF-8 encoding.\<close>

fun pad_digits :: "nat \<Rightarrow> nat \<Rightarrow> string" where
  "pad_digits 0 n = []"
| "pad_digits (Suc k) n = pad_digits k (n div 10) @ [digit_char (n mod 10)]"

definition fmtFrac :: "nat \<Rightarrow> nat \<Rightarrow> string" where
  "fmtFrac v prec =
     (let ds = rev (dropWhile (\<lambda>c. c = CHR ''0'') (rev (pad_digits prec (v mod 10 ^ prec))))
      in if ds = [] then [] else CHR ''.'' # ds)"

definition Duration_String :: "Duration \<Rightarrow> string" where
  "Duration_String d =
     (let u = nat \<bar>sint d\<bar>;
          body =
            (if u = 0 then ''0s''
             else if u < 1000 then nat_digits u @ ''ns''
             else if u < 1000000 then nat_digits (u div 1000) @ fmtFrac u 3 @ [char_of (194 :: nat), char_of (181 :: nat)] @ ''s''
             else if u < 1000000000 then nat_digits (u div 1000000) @ fmtFrac u 6 @ ''ms''
             else
               let secs = u div 1000000000; mins = secs div 60; hours = mins div 60
               in (if 0 < hours then nat_digits hours @ ''h'' else []) @
                  (if 0 < mins then nat_digits (mins mod 60) @ ''m'' else []) @
                  nat_digits (secs mod 60) @ fmtFrac u 9 @ ''s'')
      in if sint d < 0 then CHR ''-'' # body else body)"

end
