(* ===== verification/Fqdn_Status.thy ===== *)
theory Fqdn_Status
  imports Api_Funcs Resolver Go_Time
begin

text \<open>
  \<open>internal/controller/networkpolicy_fqdn_status.go\<close>: \<open>updateFQDNStatuses\<close>, which carries the recorded
  status of every name over to the next reconciliation and records an event when addresses are
  dropped.

  \<open>clock\<close> gives the readings of the wall clock: the \<open>i\<close>-th result may read it twice, at the indices
  \<open>2 * i\<close> and \<open>2 * i + 1\<close>. The events of the recorder are returned with the statuses.

  Shown: there is one status per result, in the order of the results, and each is the update of the
  recorded status of that name (\<open>updateFQDNStatuses_nth\<close>); there is one event for each name that lost
  its addresses.
\<close>

record Event =
  ev_Type :: string
  ev_Reason :: string
  ev_Message :: string

definition EventTypeNormal :: string where "EventTypeNormal = ''Normal''"
definition EventTypeWarning :: string where "EventTypeWarning = ''Warning''"

definition new_status :: "FQDN \<Rightarrow> FQDNStatus" where
  "new_status fqdn =
     \<lparr>fs_FQDN = fqdn, fs_FailingSince = None, fs_LastTransitionTime = zeroTime, fs_Reason = '''',
      fs_Message = '''', fs_Addresses = []\<rparr>"

definition cleared_event :: "DNSResolverResult \<Rightarrow> FQDNStatus \<Rightarrow> int \<Rightarrow> Event" where
  "cleared_event result status retryTimeoutSeconds =
     (if Transient (rr_Status result)
      then \<lparr>ev_Type = EventTypeWarning, ev_Reason = ''StaleIPsRemoved'',
            ev_Message = ''Removed stale IPs for FQDN '' @ fs_FQDN status @ '' after '' @
              Duration_String (duration_seconds retryTimeoutSeconds) @ '' (Status: '' @ fs_Reason status @ '')''\<rparr>
      else \<lparr>ev_Type = EventTypeWarning, ev_Reason = ''IPsRevoked'',
            ev_Message = ''Immediately removed IPs for FQDN '' @ fs_FQDN status @
              '': domain not found or no address records exist (Status: '' @ fs_Reason status @ '')''\<rparr>)"

fun update_loop ::
  "(nat \<Rightarrow> Time) \<Rightarrow> (FQDN, FQDNStatus) gomap \<Rightarrow> int \<Rightarrow> nat \<Rightarrow> FQDNStatus list \<times> Event list \<Rightarrow>
   DNSResolverResultList \<Rightarrow> FQDNStatus list \<times> Event list" where
  "update_loop clock previousLookup retry i s [] = s"
| "update_loop clock previousLookup retry i (statuses, events) (result # results) =
     (let status0 = (case gm_lookup previousLookup (rr_FQDN result) of
            Some existing \<Rightarrow> existing
          | None \<Rightarrow> new_status (rr_FQDN result));
          (status, cleared) = FQDNStatus_Update (clock (2 * i)) (clock (2 * i + 1))
            (rr_CIDRs result) (rr_Status result) (rr_Message result) retry status0
      in update_loop clock previousLookup retry (Suc i)
           (statuses @ [status], if cleared then events @ [cleared_event result status retry] else events)
           results)"

definition updateFQDNStatuses ::
  "(nat \<Rightarrow> Time) \<Rightarrow> FQDNStatus list \<Rightarrow> DNSResolverResultList \<Rightarrow> int \<Rightarrow> FQDNStatus list \<times> Event list" where
  "updateFQDNStatuses clock previous results retryTimeoutSeconds =
     update_loop clock (FQDNStatusList_LookupTable previous) retryTimeoutSeconds 0 ([], []) results"

subsection \<open>The statuses\<close>

text \<open>The status a name starts from, and one step.\<close>

definition previous_status :: "FQDNStatus list \<Rightarrow> FQDN \<Rightarrow> FQDNStatus" where
  "previous_status previous fqdn =
     (case gm_lookup (FQDNStatusList_LookupTable previous) fqdn of Some st \<Rightarrow> st | None \<Rightarrow> new_status fqdn)"

definition updated ::
  "(nat \<Rightarrow> Time) \<Rightarrow> FQDNStatus list \<Rightarrow> int \<Rightarrow> nat \<Rightarrow> DNSResolverResult \<Rightarrow> FQDNStatus \<times> bool" where
  "updated clock previous retry i r =
     FQDNStatus_Update (clock (2 * i)) (clock (2 * i + 1)) (rr_CIDRs r) (rr_Status r) (rr_Message r) retry
       (previous_status previous (rr_FQDN r))"

lemma fs_FQDN_previous_status [simp]: "fs_FQDN (previous_status previous f) = f"
  by (auto simp: previous_status_def new_status_def split: option.splits dest: status_table.lookup_SomeD)

lemma updated_frame [simp]:
  "fs_FQDN (fst (updated clock previous retry i r)) = rr_FQDN r"
  "fs_Reason (fst (updated clock previous retry i r)) = rr_Status r"
  "fs_Message (fst (updated clock previous retry i r)) = rr_Message r"
  by (simp_all add: updated_def)

definition updated_events ::
  "(nat \<Rightarrow> Time) \<Rightarrow> FQDNStatus list \<Rightarrow> int \<Rightarrow> nat \<times> DNSResolverResult \<Rightarrow> Event list" where
  "updated_events clock previous retry ir =
     (let (st, cleared) = updated clock previous retry (fst ir) (snd ir)
      in if cleared then [cleared_event (snd ir) st retry] else [])"

lemma update_loop_eq:
  "update_loop clock (FQDNStatusList_LookupTable previous) retry i (sts, evs) results =
     (sts @ map (\<lambda>(j, r). fst (updated clock previous retry j r)) (enumerate i results),
      evs @ concat (map (updated_events clock previous retry) (enumerate i results)))"
proof (induction results arbitrary: i sts evs)
  case (Cons r results)
  obtain st cleared where u: "updated clock previous retry i r = (st, cleared)" by fastforce
  then have "update_loop clock (FQDNStatusList_LookupTable previous) retry i (sts, evs) (r # results) =
    update_loop clock (FQDNStatusList_LookupTable previous) retry (Suc i)
      (sts @ [st], if cleared then evs @ [cleared_event r st retry] else evs) results"
    by (simp add: updated_def previous_status_def Let_def)
  with Cons u show ?case by (simp add: updated_events_def)
qed simp

lemma updateFQDNStatuses_eq:
  "updateFQDNStatuses clock previous results retry =
     (map (\<lambda>(j, r). fst (updated clock previous retry j r)) (enumerate 0 results),
      concat (map (updated_events clock previous retry) (enumerate 0 results)))"
  by (simp add: updateFQDNStatuses_def update_loop_eq)

lemma updateFQDNStatuses_names:
  "map fs_FQDN (fst (updateFQDNStatuses clock previous results retry)) = map rr_FQDN results"
  by (rule nth_equalityI) (simp_all add: updateFQDNStatuses_eq nth_enumerate_eq)

lemma updateFQDNStatuses_nth:
  "i < length results \<Longrightarrow> fst (updateFQDNStatuses clock previous results retry) ! i =
     fst (updated clock previous retry i (results ! i))"
  by (simp add: updateFQDNStatuses_eq nth_enumerate_eq)

lemma updateFQDNStatuses_length [simp]:
  "length (fst (updateFQDNStatuses clock previous results retry)) = length results"
  by (simp add: updateFQDNStatuses_eq)

text \<open>
  (C34) After an update there is exactly one status per result, in the order of the results, that
  carries the name, reason and message of the result. A success replaces the recorded addresses of
  the name by those of the result; a permanent failure leaves none; a name without a record starts
  from the empty status.
\<close>

theorem updateFQDNStatuses_correct:
  "map fs_FQDN (fst (updateFQDNStatuses clock previous results retry)) = map rr_FQDN results \<and>
   (\<forall>i < length results. let st = fst (updateFQDNStatuses clock previous results retry) ! i; r = results ! i
     in fs_Reason st = rr_Status r \<and> fs_Message st = rr_Message r \<and>
        (succeeded r \<longrightarrow> map ae_Address (fs_Addresses st) = map CIDR_String (rr_CIDRs r) \<and> fs_FailingSince st = None) \<and>
        (\<not> succeeded r \<and> \<not> Transient (rr_Status r) \<longrightarrow> fs_Addresses st = []) \<and>
        (Transient (rr_Status r) \<longrightarrow> fs_Addresses st \<in> {[], fs_Addresses (previous_status previous (rr_FQDN r))}))"
proof -
  have "let st = fst (updated clock previous retry i r)
     in fs_Reason st = rr_Status r \<and> fs_Message st = rr_Message r \<and>
        (succeeded r \<longrightarrow> map ae_Address (fs_Addresses st) = map CIDR_String (rr_CIDRs r) \<and> fs_FailingSince st = None) \<and>
        (\<not> succeeded r \<and> \<not> Transient (rr_Status r) \<longrightarrow> fs_Addresses st = []) \<and>
        (Transient (rr_Status r) \<longrightarrow> fs_Addresses st \<in> {[], fs_Addresses (previous_status previous (rr_FQDN r))})" for i r
    by (cases "fs_FailingSince (previous_status previous (rr_FQDN r))")
      (auto simp: Let_def succeeded_def updated_def Update_Success Update_permanent
        Update_Transient_first Update_Transient_again)
  then show ?thesis by (simp add: updateFQDNStatuses_names updateFQDNStatuses_nth Let_def)
qed

theorem updateFQDNStatuses_correct_witness:
  "map ae_Address (fs_Addresses (fst (updateFQDNStatuses (\<lambda>i. 0) [] [lookup_result sample_lookup IPv4 ''a.io''] 5) ! 0)) =
     [''8.8.8.8/32'', ''10.0.0.1/32'']"
proof -
  have "rr_CIDRs (lookup_result sample_lookup IPv4 ''a.io'') = map host_cidr [[8, 8, 8, 8], [10, 0, 0, 1]]"
    "succeeded (lookup_result sample_lookup IPv4 ''a.io'')"
    "map CIDR_String (map host_cidr [[8, 8, 8, 8], [10, 0, 0, 1]]) = [''8.8.8.8/32'', ''10.0.0.1/32'']"
    by code_simp+
  then show ?thesis
    using updateFQDNStatuses_correct [of "\<lambda>i. 0" "[]" "[lookup_result sample_lookup IPv4 ''a.io'']" 5]
    by (simp add: Let_def)
qed

lemma updated_cleared:
  "snd (updated clock previous retry i r) \<longleftrightarrow> \<not> succeeded r \<and>
     fs_Addresses (previous_status previous (rr_FQDN r)) \<noteq> [] \<and> fs_Addresses (fst (updated clock previous retry i r)) = []"
proof -
  let ?p = "previous_status previous (rr_FQDN r)"
  consider "succeeded r" | "\<not> succeeded r" "\<not> Transient (rr_Status r)"
    | "\<not> succeeded r" "Transient (rr_Status r)" by blast
  then show ?thesis
  proof cases
    case 3
    then show ?thesis
      by (cases "fs_FailingSince ?p") (simp_all add: updated_def Update_Transient_first Update_Transient_again)
  qed (simp_all add: updated_def succeeded_def Update_Success Update_permanent)
qed

lemma enumerate_map: "enumerate 0 xs = map (\<lambda>i. (i, xs ! i)) [0..<length xs]"
  by (rule nth_equalityI) (simp_all add: nth_enumerate_eq)

text \<open>
  One event per revocation: the events of an update are one warning for each result, in order,
  whose name had addresses on record and lost them all to a failure, and nothing else.
\<close>

lemma updateFQDNStatuses_events:
  "length (snd (updateFQDNStatuses clock previous results retry)) =
     length (filter (\<lambda>i. \<not> succeeded (results ! i) \<and>
        fs_Addresses (previous_status previous (rr_FQDN (results ! i))) \<noteq> [] \<and>
        fs_Addresses (fst (updateFQDNStatuses clock previous results retry) ! i) = []) [0..<length results]) \<and>
   list_all (\<lambda>e. ev_Type e = EventTypeWarning) (snd (updateFQDNStatuses clock previous results retry))"
proof -
  let ?cl = "\<lambda>i. snd (updated clock previous retry i (results ! i))"
  have "length (concat (map (updated_events clock previous retry) (map (\<lambda>i. (i, results ! i)) is))) =
    length (filter ?cl is)" for "is"
    by (induction "is") (auto simp: updated_events_def split: prod.splits)
  then have "length (snd (updateFQDNStatuses clock previous results retry)) = length (filter ?cl [0..<length results])"
    by (simp add: updateFQDNStatuses_eq enumerate_map)
  also have "filter ?cl [0..<length results] = filter (\<lambda>i. \<not> succeeded (results ! i) \<and>
        fs_Addresses (previous_status previous (rr_FQDN (results ! i))) \<noteq> [] \<and>
        fs_Addresses (fst (updateFQDNStatuses clock previous results retry) ! i) = []) [0..<length results]"
    by (rule filter_cong) (auto simp: updated_cleared updateFQDNStatuses_nth)
  finally show ?thesis
    by (auto simp: updateFQDNStatuses_eq list_all_iff updated_events_def cleared_event_def split: prod.splits if_splits)
qed

end
