(* ===== verification/Retention.thy ===== *)
theory Retention
  imports Fqdn_Status
begin

text \<open>
  The address retention block of \<open>Reconcile\<close> in \<open>internal/controller/networkpolicy_controller.go\<close>:
  with a positive retention period in the annotation, addresses that a name no longer resolves to
  are kept, with the time since which they are missing, until the period has passed.

  The index maps \<open>oldMissingMap\<close>, \<open>freshlyResolved\<close> and \<open>existingIPs\<close> are Go maps; \<open>order\<close> is the order
  in which the loop over the recorded addresses of a name iterates.

  Shown: \<open>retention_entries\<close> describes exactly which entries a status holds afterwards and with which
  time; \<open>retention_window\<close> follows one address through a run of reconciliations.
\<close>

definition retention_key :: string where
  "retention_key = ''networking.turbosimone.com/retention-period''"

definition retentionDuration :: "(string, string) gomap \<Rightarrow> Duration" where
  "retentionDuration annotations =
     (case gm_lookup annotations retention_key of
        None \<Rightarrow> 0
      | Some val \<Rightarrow> (case ParseDuration val of Some d \<Rightarrow> d | None \<Rightarrow> 0))"

subsection \<open>Index maps\<close>

type_synonym missing_map = "(string, Time option) gomap"

fun missing_loop :: "missing_map \<Rightarrow> AddressEntry list \<Rightarrow> missing_map" where
  "missing_loop ipMap [] = ipMap"
| "missing_loop ipMap (entry # entries) =
     missing_loop (gm_update (ae_Address entry) (ae_MissingSince entry) ipMap) entries"

fun oldMissingMap_loop :: "(FQDN, missing_map) gomap \<Rightarrow> FQDNStatus list \<Rightarrow> (FQDN, missing_map) gomap" where
  "oldMissingMap_loop m [] = m"
| "oldMissingMap_loop m (oldFqdn # rest) =
     oldMissingMap_loop (gm_update (fs_FQDN oldFqdn) (missing_loop [] (fs_Addresses oldFqdn)) m) rest"

definition oldMissingMap :: "FQDNStatus list \<Rightarrow> (FQDN, missing_map) gomap" where
  "oldMissingMap previous = oldMissingMap_loop [] previous"

fun cidr_set_loop :: "(string, unit) gomap \<Rightarrow> CIDR list \<Rightarrow> (string, unit) gomap" where
  "cidr_set_loop ipMap [] = ipMap"
| "cidr_set_loop ipMap (cidr # cidrs) = cidr_set_loop (gm_update (CIDR_String cidr) () ipMap) cidrs"

fun freshlyResolved_loop ::
  "(FQDN, (string, unit) gomap) gomap \<Rightarrow> DNSResolverResultList \<Rightarrow> (FQDN, (string, unit) gomap) gomap" where
  "freshlyResolved_loop m [] = m"
| "freshlyResolved_loop m (res # rest) =
     freshlyResolved_loop
       (if rr_Status res = NetworkPolicyResolutionSuccess
        then gm_update (rr_FQDN res) (cidr_set_loop [] (rr_CIDRs res)) m else m) rest"

definition freshlyResolved :: "DNSResolverResultList \<Rightarrow> (FQDN, (string, unit) gomap) gomap" where
  "freshlyResolved results = freshlyResolved_loop [] results"

text \<open>Reading a nested map: a missing outer key gives the nil map, in which every lookup fails.\<close>

definition nested_lookup :: "('k, ('l, 'v) gomap) gomap \<Rightarrow> 'k \<Rightarrow> 'l \<Rightarrow> 'v option" where
  "nested_lookup m k l = (case gm_lookup m k of None \<Rightarrow> None | Some n \<Rightarrow> gm_lookup n l)"

subsection \<open>The entries of one name\<close>

type_synonym retain_state = "(string, unit) gomap \<times> AddressEntry list"

definition within_retention :: "Time \<Rightarrow> Duration \<Rightarrow> Time \<Rightarrow> bool" where
  "within_retention now retention missing \<longleftrightarrow> sint (time_Sub now missing) \<le> sint retention"

definition keep_entry :: "string \<Rightarrow> Time option \<Rightarrow> retain_state \<Rightarrow> retain_state" where
  "keep_entry addr missing s =
     (gm_update addr () (fst s), snd s @ [\<lparr>ae_Address = addr, ae_MissingSince = missing\<rparr>])"

fun current_loop ::
  "Time \<Rightarrow> Duration \<Rightarrow> (string \<Rightarrow> bool) \<Rightarrow> (string \<Rightarrow> Time option option) \<Rightarrow> retain_state \<Rightarrow>
   AddressEntry list \<Rightarrow> retain_state" where
  "current_loop now retention isFresh oldTs s [] = s"
| "current_loop now retention isFresh oldTs s (entry # entries) =
     current_loop now retention isFresh oldTs
       (let addr = ae_Address entry
        in if isFresh addr then keep_entry addr None s
           else let missingTime = (case oldTs addr of Some (Some ts) \<Rightarrow> ts | _ \<Rightarrow> now)
                in if within_retention now retention missingTime
                   then keep_entry addr (Some missingTime) s else s)
       entries"

fun old_loop :: "Time \<Rightarrow> Duration \<Rightarrow> retain_state \<Rightarrow> (string \<times> Time option) list \<Rightarrow> retain_state" where
  "old_loop now retention s [] = s"
| "old_loop now retention s ((oldAddr, oldTs) # rest) =
     old_loop now retention
       (case gm_lookup (fst s) oldAddr of
          Some _ \<Rightarrow> s
        | None \<Rightarrow>
            let missingTime = (case oldTs of None \<Rightarrow> now | Some ts \<Rightarrow> ts)
            in if within_retention now retention missingTime
               then keep_entry oldAddr (Some missingTime) s else s)
       rest"

definition retain_status ::
  "(FQDN \<Rightarrow> (string \<times> Time option) list \<Rightarrow> (string \<times> Time option) list) \<Rightarrow> Time \<Rightarrow> Duration \<Rightarrow>
   (FQDN, missing_map) gomap \<Rightarrow> (FQDN, (string, unit) gomap) gomap \<Rightarrow> FQDNStatus \<Rightarrow> FQDNStatus" where
  "retain_status order now retention old fresh st =
     (let fqdn = fs_FQDN st;
          s1 = current_loop now retention (\<lambda>a. nested_lookup fresh fqdn a \<noteq> None)
            (nested_lookup old fqdn) ([], []) (fs_Addresses st);
          s2 = (case gm_lookup old fqdn of
              None \<Rightarrow> s1
            | Some oldMap \<Rightarrow> old_loop now retention s1 (order fqdn oldMap))
      in st\<lparr>fs_Addresses := snd s2\<rparr>)"

definition clear_missing :: "FQDNStatus \<Rightarrow> FQDNStatus" where
  "clear_missing st = st\<lparr>fs_Addresses := map (\<lambda>e. e\<lparr>ae_MissingSince := None\<rparr>) (fs_Addresses st)\<rparr>"

definition retain_addresses ::
  "(FQDN \<Rightarrow> (string \<times> Time option) list \<Rightarrow> (string \<times> Time option) list) \<Rightarrow> Time \<Rightarrow> Duration \<Rightarrow>
   FQDNStatus list \<Rightarrow> DNSResolverResultList \<Rightarrow> FQDNStatus list \<Rightarrow> FQDNStatus list" where
  "retain_addresses order now retention previous results statuses =
     (if 0 < sint retention
      then map (retain_status order now retention (oldMissingMap previous) (freshlyResolved results)) statuses
      else map clear_missing statuses)"

subsection \<open>What the index maps hold\<close>

lemma AddressEntry_collapse [simp]: "\<lparr>ae_Address = ae_Address e, ae_MissingSince = ae_MissingSince e\<rparr> = e"
  by simp

lemma missing_loop_lookup:
  "gm_lookup (missing_loop m es) = map_of (rev (map (\<lambda>e. (ae_Address e, ae_MissingSince e)) es) @ m)"
  by (induction m es rule: missing_loop.induct) (simp_all add: update_conv' map_add_def fun_eq_iff split: option.splits)

lemma missing_loop_wf: "gm_wf m \<Longrightarrow> gm_wf (missing_loop m es)"
  by (induction m es rule: missing_loop.induct) simp_all

lemma missing_loop_iff:
  assumes "inj_on ae_Address (set es)"
  shows "gm_lookup (missing_loop [] es) a = Some m \<longleftrightarrow> \<lparr>ae_Address = a, ae_MissingSince = m\<rparr> \<in> set es"
proof
  assume "gm_lookup (missing_loop [] es) a = Some m"
  then obtain e where "e \<in> set es" "a = ae_Address e" "m = ae_MissingSince e"
    by (auto simp: missing_loop_lookup dest!: map_of_SomeD)
  then show "\<lparr>ae_Address = a, ae_MissingSince = m\<rparr> \<in> set es" by simp
next
  assume in_es: "\<lparr>ae_Address = a, ae_MissingSince = m\<rparr> \<in> set es"
  then have "gm_lookup (missing_loop [] es) a \<noteq> None"
    unfolding missing_loop_lookup map_of_eq_None_iff by force
  then obtain m' where m': "gm_lookup (missing_loop [] es) a = Some m'" by blast
  then obtain e where "e \<in> set es" "a = ae_Address e" "m' = ae_MissingSince e"
    by (auto simp: missing_loop_lookup dest!: map_of_SomeD)
  with in_es have "e = \<lparr>ae_Address = a, ae_MissingSince = m\<rparr>" by (intro inj_onD [OF assms]) simp_all
  with m' \<open>m' = ae_MissingSince e\<close> show "gm_lookup (missing_loop [] es) a = Some m" by simp
qed

lemma oldMissingMap_lookup:
  "gm_lookup (oldMissingMap previous) f =
     map_option (\<lambda>st. missing_loop [] (fs_Addresses st)) (gm_lookup (FQDNStatusList_LookupTable previous) f)"
proof -
  have "\<forall>f. gm_lookup m f = map_option (\<lambda>st. missing_loop [] (fs_Addresses st)) (gm_lookup t f) \<Longrightarrow>
    gm_lookup (oldMissingMap_loop m xs) f =
    map_option (\<lambda>st. missing_loop [] (fs_Addresses st)) (gm_lookup (FQDNStatusList_LookupTable_loop t xs) f)" for m t xs
    by (induction m xs arbitrary: t rule: oldMissingMap_loop.induct) (simp_all add: gm_lookup_update)
  from this [of "[]" "[]"] show ?thesis
    by (simp add: oldMissingMap_def FQDNStatusList_LookupTable_def)
qed

lemma oldMissingMap_iff:
  assumes "inj_on ae_Address (set (fs_Addresses (previous_status previous f)))"
  shows "nested_lookup (oldMissingMap previous) f a = Some m \<longleftrightarrow>
    \<lparr>ae_Address = a, ae_MissingSince = m\<rparr> \<in> set (fs_Addresses (previous_status previous f))"
  using assms missing_loop_iff
  by (auto simp: nested_lookup_def oldMissingMap_lookup previous_status_def new_status_def split: option.splits)

lemma cidr_set_loop_keys: "gm_lookup (cidr_set_loop m cs) a \<noteq> None \<longleftrightarrow> gm_lookup m a \<noteq> None \<or> a \<in> CIDR_String ` set cs"
  by (induction m cs rule: cidr_set_loop.induct) (auto simp: gm_lookup_update)

lemma freshlyResolved_loop_other:
  "f \<notin> rr_FQDN ` set rs \<Longrightarrow> gm_lookup (freshlyResolved_loop m rs) f = gm_lookup m f"
  by (induction m rs rule: freshlyResolved_loop.induct) (auto simp: gm_lookup_update)

lemma freshlyResolved_loop_lookup:
  "distinct (map rr_FQDN rs) \<Longrightarrow> r \<in> set rs \<Longrightarrow> gm_lookup m (rr_FQDN r) = None \<Longrightarrow>
   gm_lookup (freshlyResolved_loop m rs) (rr_FQDN r) =
     (if succeeded r then Some (cidr_set_loop [] (rr_CIDRs r)) else None)"
proof (induction m rs rule: freshlyResolved_loop.induct)
  case (2 m res rest)
  show ?case
  proof (cases "r = res")
    case True
    then show ?thesis
      using "2.prems" by (simp add: freshlyResolved_loop_other succeeded_def gm_lookup_update)
  next
    case False
    then have rest: "r \<in> set rest" using "2.prems"(2) by simp
    moreover from this have "rr_FQDN r \<in> rr_FQDN ` set rest" by (rule imageI)
    moreover have "rr_FQDN res \<notin> rr_FQDN ` set rest" using "2.prems"(1) by simp
    ultimately have "rr_FQDN r \<noteq> rr_FQDN res" by metis
    with rest "2.IH" "2.prems" show ?thesis by (simp add: gm_lookup_update)
  qed
qed simp

definition fresh_in :: "DNSResolverResult \<Rightarrow> string \<Rightarrow> bool" where
  "fresh_in r a \<longleftrightarrow> succeeded r \<and> a \<in> CIDR_String ` set (rr_CIDRs r)"

lemma freshlyResolved_iff:
  "distinct (map rr_FQDN rs) \<Longrightarrow> r \<in> set rs \<Longrightarrow>
   nested_lookup (freshlyResolved rs) (rr_FQDN r) a \<noteq> None \<longleftrightarrow> fresh_in r a"
  using cidr_set_loop_keys [of "[]" "rr_CIDRs r" a]
  by (auto simp: nested_lookup_def freshlyResolved_def freshlyResolved_loop_lookup fresh_in_def)

subsection \<open>What a status holds afterwards\<close>

definition missing_time :: "Time \<Rightarrow> Time option \<Rightarrow> Time" where
  "missing_time now ts = (case ts of None \<Rightarrow> now | Some t \<Rightarrow> t)"

lemma within_retention_iff:
  "within_retention now ret t \<longleftrightarrow> now - t \<le> sint ret \<or> sint ret = 2 ^ 63 - 1"
  using sint_ge [of ret] sint_lt [of ret] by (auto simp: within_retention_def sint_time_Sub)

text \<open>The entry an address gets: none, fresh, or missing since some time.\<close>

definition verdict :: "Time \<Rightarrow> Duration \<Rightarrow> bool \<Rightarrow> Time option \<Rightarrow> Time option option" where
  "verdict now ret isFresh ts =
     (if isFresh then Some None
      else if within_retention now ret (missing_time now ts) then Some (Some (missing_time now ts))
      else None)"

definition entry_of :: "string \<Rightarrow> Time option \<Rightarrow> AddressEntry" where
  "entry_of a m = \<lparr>ae_Address = a, ae_MissingSince = m\<rparr>"

lemma entry_of_inject [simp]: "entry_of a m = entry_of b n \<longleftrightarrow> a = b \<and> m = n"
  by (simp add: entry_of_def)

lemma ae_Address_entry_of [simp]: "ae_Address (entry_of a m) = a"
  by (simp add: entry_of_def)

definition ts_of :: "(string \<Rightarrow> Time option option) \<Rightarrow> string \<Rightarrow> Time option" where
  "ts_of old a = (case old a of None \<Rightarrow> None | Some ts \<Rightarrow> ts)"

definition give_entry :: "string \<Rightarrow> Time option option \<Rightarrow> retain_state \<Rightarrow> retain_state" where
  "give_entry a v s = (case v of None \<Rightarrow> s | Some m \<Rightarrow> keep_entry a m s)"

definition has_ip :: "retain_state \<Rightarrow> string \<Rightarrow> bool" where
  "has_ip s a \<longleftrightarrow> gm_lookup (fst s) a \<noteq> None"

lemma give_entry_simps [simp]:
  "set (snd (give_entry a v s)) = set (snd s) \<union> {entry_of a m | m. v = Some m}"
  "has_ip (give_entry a v s) b \<longleftrightarrow> has_ip s b \<or> (b = a \<and> v \<noteq> None)"
  by (auto simp: give_entry_def keep_entry_def has_ip_def gm_lookup_update entry_of_def split: option.splits)

lemma current_loop_Cons:
  "current_loop now ret fresh old s (e # es) =
     current_loop now ret fresh old
       (give_entry (ae_Address e) (verdict now ret (fresh (ae_Address e)) (ts_of old (ae_Address e))) s) es"
  by (simp add: give_entry_def verdict_def missing_time_def ts_of_def Let_def split: option.split)

lemma old_loop_Cons:
  "old_loop now ret s ((a, ts) # rest) =
     old_loop now ret (if has_ip s a then s else give_entry a (verdict now ret False ts) s) rest"
  by (auto simp: give_entry_def verdict_def missing_time_def has_ip_def Let_def split: option.split)

lemma current_loop_set:
  "set (snd (current_loop now ret fresh old s es)) = set (snd s) \<union>
     {entry_of a m | a m. a \<in> ae_Address ` set es \<and> verdict now ret (fresh a) (ts_of old a) = Some m}"
  "has_ip (current_loop now ret fresh old s es) b \<longleftrightarrow>
     has_ip s b \<or> (b \<in> ae_Address ` set es \<and> verdict now ret (fresh b) (ts_of old b) \<noteq> None)"
proof (induction es arbitrary: s)
  case (Cons e es)
  { case 1 show ?case unfolding current_loop_Cons Cons by auto }
  { case 2 show ?case unfolding current_loop_Cons Cons by auto }
qed simp_all

lemma old_loop_set:
  assumes "distinct (map fst xs)"
  shows "set (snd (old_loop now ret s xs)) = set (snd s) \<union>
    {entry_of a m | a ts m. (a, ts) \<in> set xs \<and> \<not> has_ip s a \<and> verdict now ret False ts = Some m}"
  using assms
proof (induction xs arbitrary: s)
  case (Cons x xs)
  obtain a ts where x: "x = (a, ts)" by fastforce
  define t where "t = (if has_ip s a then s else give_entry a (verdict now ret False ts) s)"
  have "has_ip t b \<longleftrightarrow> has_ip s b" if "(b, us) \<in> set xs" for b us
    using that Cons.prems x by (force simp: t_def)
  then have keys: "{entry_of a m | a ts m. (a, ts) \<in> set xs \<and> \<not> has_ip t a \<and> verdict now ret False ts = Some m} =
    {entry_of a m | a ts m. (a, ts) \<in> set xs \<and> \<not> has_ip s a \<and> verdict now ret False ts = Some m}"
    by metis
  have "set (snd (old_loop now ret t xs)) = set (snd t) \<union>
    {entry_of a m | a ts m. (a, ts) \<in> set xs \<and> \<not> has_ip t a \<and> verdict now ret False ts = Some m}"
    using Cons by simp
  then show ?case
    unfolding x old_loop_Cons t_def [symmetric] keys by (auto simp: t_def)
qed simp

lemma retain_status_set:
  assumes "reordering (order (fs_FQDN st))" and "r \<in> set results" and "distinct (map rr_FQDN results)"
    and "fs_FQDN st = rr_FQDN r"
    and old_def: "old = nested_lookup (oldMissingMap previous) (fs_FQDN st)"
  shows "entry_of a m \<in> set (fs_Addresses (retain_status order now ret (oldMissingMap previous) (freshlyResolved results) st)) \<longleftrightarrow>
    (a \<in> ae_Address ` set (fs_Addresses st) \<and> verdict now ret (fresh_in r a) (ts_of old a) = Some m) \<or>
    (\<exists>ts. old a = Some ts \<and>
      \<not> (a \<in> ae_Address ` set (fs_Addresses st) \<and> verdict now ret (fresh_in r a) (ts_of old a) \<noteq> None) \<and>
      verdict now ret False ts = Some m)"
proof -
  let ?f = "fs_FQDN st"
  let ?s1 = "current_loop now ret (\<lambda>a. nested_lookup (freshlyResolved results) ?f a \<noteq> None) old ([], []) (fs_Addresses st)"
  have "(\<lambda>a. nested_lookup (freshlyResolved results) ?f a \<noteq> None) = fresh_in r"
    using freshlyResolved_iff [OF assms(3,2)] assms(4) by (intro ext) simp
  then have s1: "set (snd ?s1) = {entry_of a m | a m. a \<in> ae_Address ` set (fs_Addresses st) \<and>
      verdict now ret (fresh_in r a) (ts_of old a) = Some m}"
    "has_ip ?s1 b \<longleftrightarrow> b \<in> ae_Address ` set (fs_Addresses st) \<and> verdict now ret (fresh_in r b) (ts_of old b) \<noteq> None" for b
    by (simp_all add: current_loop_set) (simp add: has_ip_def)
  show ?thesis
  proof (cases "gm_lookup (oldMissingMap previous) ?f")
    case None
    then have "old a = None" by (simp add: old_def nested_lookup_def)
    with None s1(1) show ?thesis by (simp add: retain_status_def Let_def old_def [symmetric])
  next
    case (Some om)
    then have om: "old a = gm_lookup om a" for a by (simp add: old_def nested_lookup_def)
    have "gm_wf om" using Some by (auto simp: oldMissingMap_lookup missing_loop_wf)
    then have d: "distinct (map fst (order ?f om))" and mem: "(a, ts) \<in> set (order ?f om) \<longleftrightarrow> old a = Some ts" for a ts
      using assms(1) by (simp_all add: om gm_wf_def reordering_distinct_map reordering_set)
    have "fs_Addresses (retain_status order now ret (oldMissingMap previous) (freshlyResolved results) st) =
      snd (old_loop now ret ?s1 (order ?f om))"
      using Some by (simp add: retain_status_def Let_def old_def)
    with old_loop_set [OF d, of now ret ?s1] s1 mem show ?thesis by auto
  qed
qed

lemma updated_addresses:
  "succeeded r \<Longrightarrow> ae_Address ` set (fs_Addresses (fst (updated clock previous retry i r))) = CIDR_String ` set (rr_CIDRs r)"
  "\<not> succeeded r \<Longrightarrow> set (fs_Addresses (fst (updated clock previous retry i r))) \<subseteq>
     set (fs_Addresses (previous_status previous (rr_FQDN r)))"
proof -
  show "succeeded r \<Longrightarrow> ae_Address ` set (fs_Addresses (fst (updated clock previous retry i r))) = CIDR_String ` set (rr_CIDRs r)"
    by (simp add: updated_def succeeded_def Update_Success image_image)
  show "\<not> succeeded r \<Longrightarrow> set (fs_Addresses (fst (updated clock previous retry i r))) \<subseteq>
     set (fs_Addresses (previous_status previous (rr_FQDN r)))"
    by (cases "Transient (rr_Status r)"; cases "fs_FailingSince (previous_status previous (rr_FQDN r))")
      (auto simp: updated_def succeeded_def Update_permanent Update_Transient_first Update_Transient_again)
qed

definition refresh ::
  "(nat \<Rightarrow> Time) \<Rightarrow> (FQDN \<Rightarrow> (string \<times> Time option) list \<Rightarrow> (string \<times> Time option) list) \<Rightarrow> int \<Rightarrow> Duration \<Rightarrow>
   FQDNStatus list \<Rightarrow> DNSResolverResultList \<Rightarrow> FQDNStatus list" where
  "refresh clock order retry ret previous results =
     retain_addresses order (clock (2 * length results)) ret previous results
       (fst (updateFQDNStatuses clock previous results retry))"

lemma refresh_names: "map fs_FQDN (refresh clock order retry ret previous results) = map rr_FQDN results"
proof -
  have "fs_FQDN (retain_status order now ret old fresh st) = fs_FQDN st" "fs_FQDN (clear_missing st) = fs_FQDN st"
    for now old fresh st by (simp_all add: retain_status_def clear_missing_def Let_def)
  then have "map fs_FQDN (refresh clock order retry ret previous results) =
      map fs_FQDN (fst (updateFQDNStatuses clock previous results retry))"
    by (simp add: refresh_def retain_addresses_def)
  then show ?thesis by (simp add: updateFQDNStatuses_names)
qed

lemma refresh_length [simp]: "length (refresh clock order retry ret previous results) = length results"
  using refresh_names [of clock order retry ret previous results] by (metis length_map)

lemma refresh_entry_iff:
  assumes "0 < sint ret" and "\<forall>f. reordering (order f)" and "distinct (map rr_FQDN results)" and "i < length results"
    and "inj_on ae_Address (set (fs_Addresses (previous_status previous (rr_FQDN (results ! i)))))"
    and now_def: "now = clock (2 * length results)"
  shows "entry_of a m \<in> set (fs_Addresses (refresh clock order retry ret previous results ! i)) \<longleftrightarrow>
    (if fresh_in (results ! i) a then m = None
     else \<exists>m0. entry_of a m0 \<in> set (fs_Addresses (previous_status previous (rr_FQDN (results ! i)))) \<and>
       within_retention now ret (missing_time now m0) \<and> m = Some (missing_time now m0))"
proof -
  let ?r = "results ! i"
  let ?st = "fst (updated clock previous retry i ?r)"
  let ?old = "nested_lookup (oldMissingMap previous) (rr_FQDN ?r)"
  let ?A = "ae_Address ` set (fs_Addresses ?st)"
  have at: "refresh clock order retry ret previous results ! i =
    retain_status order now ret (oldMissingMap previous) (freshlyResolved results) ?st"
    using assms(1,4) by (simp add: refresh_def retain_addresses_def updateFQDNStatuses_nth now_def)
  have old: "?old a = Some ts \<longleftrightarrow> entry_of a ts \<in> set (fs_Addresses (previous_status previous (rr_FQDN ?r)))" for ts
    unfolding entry_of_def by (rule oldMissingMap_iff [OF assms(5)])
  have fresh: "a \<in> ?A" if "fresh_in ?r a"
    using that updated_addresses(1) [of ?r clock previous retry i] by (simp add: fresh_in_def)
  have stale: "\<exists>ts. ?old a = Some ts" if a: "a \<in> ?A" "\<not> fresh_in ?r a"
  proof -
    have "\<not> succeeded ?r" using a updated_addresses(1) [of ?r clock previous retry i] by (auto simp: fresh_in_def)
    with a(1) updated_addresses(2) [of ?r clock previous retry i] obtain e
      where "e \<in> set (fs_Addresses (previous_status previous (rr_FQDN ?r)))" "a = ae_Address e" by blast
    then have "?old a = Some (ae_MissingSince e)" unfolding old by (simp add: entry_of_def)
    then show ?thesis ..
  qed
  have "reordering (order (fs_FQDN ?st))" using assms(2) by blast
  from retain_status_set [of order ?st ?r results, OF this nth_mem [OF assms(4)] assms(3) _ refl, of a m now ret previous]
  have "entry_of a m \<in> set (fs_Addresses (refresh clock order retry ret previous results ! i)) \<longleftrightarrow>
    (a \<in> ?A \<and> verdict now ret (fresh_in ?r a) (ts_of ?old a) = Some m) \<or>
    (\<exists>ts. ?old a = Some ts \<and> \<not> (a \<in> ?A \<and> verdict now ret (fresh_in ?r a) (ts_of ?old a) \<noteq> None) \<and>
      verdict now ret False ts = Some m)" unfolding at by simp
  also have "\<dots> \<longleftrightarrow> (if fresh_in ?r a then m = None else \<exists>ts. ?old a = Some ts \<and> verdict now ret False ts = Some m)"
    using fresh stale by (auto simp: verdict_def ts_of_def split: option.splits if_splits)
  also have "\<dots> \<longleftrightarrow> (if fresh_in ?r a then m = None
     else \<exists>m0. entry_of a m0 \<in> set (fs_Addresses (previous_status previous (rr_FQDN ?r))) \<and>
       within_retention now ret (missing_time now m0) \<and> m = Some (missing_time now m0))"
    unfolding old by (auto simp: verdict_def)
  finally show ?thesis .
qed

subsection \<open>Properties\<close>

text \<open>Recorded statuses hold at most one entry per address.\<close>

definition statuses_wf :: "FQDNStatus list \<Rightarrow> bool" where
  "statuses_wf sts = list_all (\<lambda>st. inj_on ae_Address (set (fs_Addresses st))) sts"

lemma statuses_wf_previous: "statuses_wf sts \<Longrightarrow> inj_on ae_Address (set (fs_Addresses (previous_status sts f)))"
  by (auto simp: previous_status_def new_status_def statuses_wf_def list_all_iff split: option.splits
      dest: status_table.lookup_SomeD)

lemma entry_of_unique:
  "inj_on ae_Address S \<Longrightarrow> entry_of a m \<in> S \<Longrightarrow> entry_of a n \<in> S \<Longrightarrow> m = n"
  by (auto dest!: inj_onD [where x = "entry_of a m" and y = "entry_of a n"])

lemma refresh_wf:
  assumes "\<forall>f. reordering (order f)" and "distinct (map rr_FQDN results)" and "statuses_wf previous"
  shows "statuses_wf (refresh clock order retry ret previous results)"
proof (cases "0 < sint ret")
  case True
  have "inj_on ae_Address (set (fs_Addresses (refresh clock order retry ret previous results ! i)))"
    if i: "i < length results" for i
  proof (rule inj_onI)
    fix x y
    assume xy: "x \<in> set (fs_Addresses (refresh clock order retry ret previous results ! i))"
      "y \<in> set (fs_Addresses (refresh clock order retry ret previous results ! i))" "ae_Address x = ae_Address y"
    note inj = statuses_wf_previous [OF assms(3), of "rr_FQDN (results ! i)"]
    note iff = refresh_entry_iff [where order = order, OF True assms(1,2) i inj refl, of "ae_Address x" _ clock retry]
    have "entry_of (ae_Address x) (ae_MissingSince x) = x" "entry_of (ae_Address x) (ae_MissingSince y) = y"
      using xy(3) by (simp_all add: entry_of_def)
    with xy(1,2) have
      "entry_of (ae_Address x) (ae_MissingSince x) \<in> set (fs_Addresses (refresh clock order retry ret previous results ! i))"
      "entry_of (ae_Address x) (ae_MissingSince y) \<in> set (fs_Addresses (refresh clock order retry ret previous results ! i))"
      by simp_all
    then have "ae_MissingSince x = ae_MissingSince y"
      unfolding iff by (auto split: if_splits dest: entry_of_unique [OF inj])
    with xy(3) show "x = y" by simp
  qed
  then show ?thesis by (auto simp: statuses_wf_def list_all_length)
next
  case False
  then show ?thesis
    by (auto simp: statuses_wf_def refresh_def retain_addresses_def clear_missing_def list_all_iff inj_on_def)
qed

text \<open>
  (C11) Which addresses a name has after a reconciliation with a positive retention period, and since
  when they are missing: an address of a successful result is present and not missing; any other
  address is present exactly when it was recorded before and the retention period has not passed
  since it went missing, which is the recorded time or, if none is recorded, now. Nothing else is
  present, whatever the iteration order.
\<close>

theorem retention_entries:
  assumes "0 < sint ret" and "\<forall>f. reordering (order f)" and "distinct (map rr_FQDN results)"
    and "statuses_wf previous" and "i < length results"
  shows "entry_of a m \<in> set (fs_Addresses (refresh clock order retry ret previous results ! i)) \<longleftrightarrow>
    (if fresh_in (results ! i) a then m = None
     else \<exists>m0. entry_of a m0 \<in> set (fs_Addresses (previous_status previous (rr_FQDN (results ! i)))) \<and>
       within_retention (clock (2 * length results)) ret (missing_time (clock (2 * length results)) m0) \<and>
       m = Some (missing_time (clock (2 * length results)) m0))"
  by (rule refresh_entry_iff [OF assms(1-3,5) statuses_wf_previous [OF assms(4)] refl])

definition sample_previous :: "FQDNStatus list" where
  "sample_previous = [sample_status ''a.io'' [''8.8.8.8/32'', ''1.1.1.1/32'']]"

lemma sample_previous_wf: "statuses_wf sample_previous"
  by (simp add: statuses_wf_def sample_previous_def sample_status_def)

theorem retention_entries_witness:
  "entry_of ''8.8.8.8/32'' None \<in> set (fs_Addresses
     (refresh (\<lambda>i. 50) (\<lambda>f xs. xs) 5 100 sample_previous [lookup_result sample_lookup IPv4 ''a.io''] ! 0)) \<and>
   entry_of ''1.1.1.1/32'' (Some 50) \<in> set (fs_Addresses
     (refresh (\<lambda>i. 50) (\<lambda>f xs. xs) 5 100 sample_previous [lookup_result sample_lookup IPv4 ''a.io''] ! 0))"
proof -
  let ?r = "lookup_result sample_lookup IPv4 ''a.io''"
  have "fresh_in ?r ''8.8.8.8/32''" "\<not> fresh_in ?r ''1.1.1.1/32''"
    "entry_of ''1.1.1.1/32'' None \<in> set (fs_Addresses (previous_status sample_previous (rr_FQDN ?r)))"
    "within_retention 50 100 (missing_time 50 None)" "missing_time 50 None = 50"
    by code_simp+
  then show ?thesis
    using retention_entries [of 100 "\<lambda>f xs. xs" "[?r]" sample_previous 0 "''8.8.8.8/32''" None "\<lambda>i. 50" 5]
      retention_entries [of 100 "\<lambda>f xs. xs" "[?r]" sample_previous 0 "''1.1.1.1/32''" "Some 50" "\<lambda>i. 50" 5]
      sample_previous_wf by force
qed

subsection \<open>A run of reconciliations\<close>

text \<open>One reconciliation of the run: the readings of the clock and the results.\<close>

type_synonym round = "(nat \<Rightarrow> Time) \<times> DNSResolverResultList"

definition round_now :: "round \<Rightarrow> Time" where
  "round_now rd = fst rd (2 * length (snd rd))"

fun retention_run ::
  "(FQDN \<Rightarrow> (string \<times> Time option) list \<Rightarrow> (string \<times> Time option) list) \<Rightarrow> int \<Rightarrow> Duration \<Rightarrow>
   FQDNStatus list \<Rightarrow> round list \<Rightarrow> FQDNStatus list" where
  "retention_run order retry ret sts [] = sts"
| "retention_run order retry ret sts (rd # rds) =
     retention_run order retry ret (refresh (fst rd) order retry ret sts (snd rd)) rds"

lemma retention_run_append:
  "retention_run order retry ret sts (xs @ ys) = retention_run order retry ret (retention_run order retry ret sts xs) ys"
  by (induction order retry ret sts xs rule: retention_run.induct) simp_all

text \<open>A round that asks for the name, gets one result per name, and does not resolve the address.\<close>

definition misses :: "FQDN \<Rightarrow> string \<Rightarrow> round \<Rightarrow> bool" where
  "misses f a rd \<longleftrightarrow> distinct (map rr_FQDN (snd rd)) \<and>
     list_ex (\<lambda>r. rr_FQDN r = f \<and> \<not> fresh_in r a) (snd rd)"

definition recorded :: "FQDNStatus list \<Rightarrow> FQDN \<Rightarrow> AddressEntry set" where
  "recorded sts f = set (fs_Addresses (previous_status sts f))"

lemma previous_status_refresh:
  assumes "distinct (map rr_FQDN results)" and "i < length results"
  shows "previous_status (refresh clock order retry ret previous results) (rr_FQDN (results ! i)) =
    refresh clock order retry ret previous results ! i"
proof -
  let ?sts = "refresh clock order retry ret previous results"
  have names: "map fs_FQDN ?sts = map rr_FQDN results" by (rule refresh_names)
  then have "fs_FQDN (?sts ! i) = rr_FQDN (results ! i)"
    using assms(2) by (metis length_map nth_map)
  then show ?thesis
    using status_table.lookup_distinct [of ?sts "?sts ! i"] assms names
    by (simp add: previous_status_def)
qed

lemma missed_round:
  assumes "0 < sint ret" and "\<forall>f. reordering (order f)" and "statuses_wf sts" and "misses f a rd"
  shows "entry_of a m \<in> recorded (refresh (fst rd) order retry ret sts (snd rd)) f \<longleftrightarrow>
    (\<exists>m0. entry_of a m0 \<in> recorded sts f \<and> within_retention (round_now rd) ret (missing_time (round_now rd) m0) \<and>
      m = Some (missing_time (round_now rd) m0))"
proof -
  obtain i where i: "i < length (snd rd)" "rr_FQDN (snd rd ! i) = f" "\<not> fresh_in (snd rd ! i) a"
    and d: "distinct (map rr_FQDN (snd rd))"
    using assms(4) by (auto simp: misses_def list_ex_length)
  note iff = refresh_entry_iff [where order = order, OF assms(1,2) d i(1) statuses_wf_previous [OF assms(3)] refl,
      of a m "fst rd" retry]
  show ?thesis
    using iff previous_status_refresh [OF d i(1), of "fst rd" order retry ret sts] i
    by (simp add: recorded_def round_now_def)
qed

lemma misses_wf:
  "\<forall>f. reordering (order f) \<Longrightarrow> statuses_wf sts \<Longrightarrow> misses f a rd \<Longrightarrow>
   statuses_wf (refresh (fst rd) order retry ret sts (snd rd))"
  by (rule refresh_wf) (simp_all add: misses_def)

lemma retention_run_within:
  assumes "0 < sint ret" and "\<forall>f. reordering (order f)" and "statuses_wf sts"
    and "entry_of a (Some t0) \<in> recorded sts f"
    and "list_all (\<lambda>rd. misses f a rd \<and> round_now rd \<le> t0 + sint ret) rds"
  shows "entry_of a (Some t0) \<in> recorded (retention_run order retry ret sts rds) f \<and>
    statuses_wf (retention_run order retry ret sts rds)"
  using assms(3-5)
proof (induction rds arbitrary: sts)
  case (Cons rd rds)
  let ?sts = "refresh (fst rd) order retry ret sts (snd rd)"
  have rd: "misses f a rd" "round_now rd \<le> t0 + sint ret" using Cons.prems by simp_all
  have "entry_of a (Some t0) \<in> recorded ?sts f"
    using missed_round [OF assms(1,2) Cons.prems(1) rd(1), of "Some t0" retry] Cons.prems(2) rd(2)
    by (auto simp: missing_time_def within_retention_iff)
  with Cons.IH [of ?sts] Cons.prems misses_wf [OF assms(2) Cons.prems(1) rd(1)] show ?case by simp
qed simp

text \<open>
  (C5) The retention window over a whole run: an address that stops resolving at \<open>t0\<close> stays on
  record, missing since \<open>t0\<close>, through every reconciliation up to the retention period after \<open>t0\<close>, and
  the first reconciliation after the period drops it, provided it does not resolve in between.
\<close>

theorem retention_window:
  assumes "0 < sint ret" and "sint ret < 2 ^ 63 - 1" and "\<forall>f. reordering (order f)" and "statuses_wf sts"
    and "entry_of a None \<in> recorded sts f" and "misses f a rd0"
    and "list_all (\<lambda>rd. misses f a rd \<and> round_now rd \<le> round_now rd0 + sint ret) rds"
  shows "entry_of a (Some (round_now rd0)) \<in> recorded (retention_run order retry ret sts (rd0 # rds)) f \<and>
    (\<forall>rd. misses f a rd \<and> round_now rd0 + sint ret < round_now rd \<longrightarrow>
      a \<notin> ae_Address ` recorded (retention_run order retry ret sts ((rd0 # rds) @ [rd])) f)"
proof -
  let ?t0 = "round_now rd0"
  let ?sts = "refresh (fst rd0) order retry ret sts (snd rd0)"
  let ?run = "retention_run order retry ret sts (rd0 # rds)"
  have "entry_of a (Some ?t0) \<in> recorded ?sts f"
    using missed_round [OF assms(1,3,4,6), of "Some ?t0" retry] assms(1,5)
    by (auto simp: missing_time_def within_retention_iff)
  then have run: "entry_of a (Some ?t0) \<in> recorded ?run f" "statuses_wf ?run"
    using retention_run_within [OF assms(1,3) misses_wf [OF assms(3,4,6)] _ assms(7)] by simp_all
  moreover have "a \<notin> ae_Address ` recorded (refresh (fst rd) order retry ret ?run (snd rd)) f"
    if rd: "misses f a rd" "?t0 + sint ret < round_now rd" for rd
  proof
    assume "a \<in> ae_Address ` recorded (refresh (fst rd) order retry ret ?run (snd rd)) f"
    then obtain e where e: "e \<in> recorded (refresh (fst rd) order retry ret ?run (snd rd)) f" "a = ae_Address e" by blast
    then have "entry_of a (ae_MissingSince e) \<in> recorded (refresh (fst rd) order retry ret ?run (snd rd)) f"
      by (simp add: entry_of_def)
    then obtain m0 where m0: "entry_of a m0 \<in> recorded ?run f" "within_retention (round_now rd) ret (missing_time (round_now rd) m0)"
      using missed_round [OF assms(1,3) run(2) rd(1)] by blast
    have "m0 = Some ?t0"
      using entry_of_unique [OF statuses_wf_previous [OF run(2)]] run(1) m0(1) by (simp add: recorded_def)
    with m0(2) rd(2) assms(2) show False by (simp add: missing_time_def within_retention_iff)
  qed
  ultimately show ?thesis by (simp only: retention_run_append) simp
qed

definition empty_round :: "Time \<Rightarrow> round" where
  "empty_round t = (\<lambda>i. t, [NewDNSResolverResult ''a.io'' [] None])"

theorem retention_window_witness:
  "entry_of ''8.8.8.8/32'' (Some 10) \<in> recorded
     (retention_run (\<lambda>f xs. xs) 5 100 sample_previous [empty_round 10, empty_round 110]) ''a.io'' \<and>
   ''8.8.8.8/32'' \<notin> ae_Address ` recorded
     (retention_run (\<lambda>f xs. xs) 5 100 sample_previous ([empty_round 10, empty_round 110] @ [empty_round 111])) ''a.io''"
proof -
  have h: "entry_of ''8.8.8.8/32'' None \<in> recorded sample_previous ''a.io''"
    "misses ''a.io'' ''8.8.8.8/32'' (empty_round t)" "round_now (empty_round t) = t" for t
    unfolding recorded_def by (code_simp, simp_all add: misses_def empty_round_def fresh_in_def
        NewDNSResolverResult_def sort_SliceStable_def round_now_def)
  have "sint (100 :: Duration) = 100" by simp
  then show ?thesis
    using retention_window [of 100 "\<lambda>f xs. xs" sample_previous "''8.8.8.8/32''" "''a.io''" "empty_round 10" "[empty_round 110]" 5]
      h sample_previous_wf by simp
qed

subsection \<open>Retention against the failure rules\<close>

text \<open>
  (C35) With a positive retention period a failure that is not transient does not clear the recorded
  addresses: an address that was resolving is still on record after the reconciliation, as missing,
  although the update of the statuses had cleared the name and recorded the revocation event.
\<close>

theorem revocation_overridden_by_retention:
  assumes "0 < sint ret" and "\<forall>f. reordering (order f)" and "distinct (map rr_FQDN results)"
    and "statuses_wf previous" and "i < length results"
    and "\<not> succeeded (results ! i)" and "\<not> Transient (rr_Status (results ! i))"
    and "entry_of a None \<in> recorded previous (rr_FQDN (results ! i))"
  shows "fs_Addresses (fst (updateFQDNStatuses clock previous results retry) ! i) = [] \<and>
    entry_of a (Some (clock (2 * length results))) \<in>
      set (fs_Addresses (refresh clock order retry ret previous results ! i))"
proof -
  have "fs_Addresses (fst (updateFQDNStatuses clock previous results retry) ! i) = []"
    using assms(5-7) by (simp add: updateFQDNStatuses_nth updated_def succeeded_def Update_permanent)
  moreover have "within_retention t ret t" for t using assms(1) by (simp add: within_retention_iff)
  then have "entry_of a (Some (clock (2 * length results))) \<in>
      set (fs_Addresses (refresh clock order retry ret previous results ! i))"
    using refresh_entry_iff [OF assms(1-3,5) statuses_wf_previous [OF assms(4)] refl,
        of a "Some (clock (2 * length results))" clock retry] assms(6,8)
    by (auto simp: fresh_in_def recorded_def missing_time_def)
  ultimately show ?thesis ..
qed

definition sample_not_found :: DNSResolverResult where
  "sample_not_found = NewDNSResolverResult ''a.io'' [] (Some (DNSError ''no such host'' ''a.io'' [] False False True None))"

theorem revocation_overridden_by_retention_witness:
  "rr_Status sample_not_found = NetworkPolicyResolutionHostNotFound \<and>
   fs_Addresses (fst (updateFQDNStatuses (\<lambda>i. 50) sample_previous [sample_not_found] 5) ! 0) = [] \<and>
   entry_of ''8.8.8.8/32'' (Some 50) \<in>
     set (fs_Addresses (refresh (\<lambda>i. 50) (\<lambda>f xs. xs) 5 100 sample_previous [sample_not_found] ! 0))"
proof -
  have h: "rr_Status sample_not_found = NetworkPolicyResolutionHostNotFound" "\<not> succeeded sample_not_found"
    "\<not> Transient (rr_Status sample_not_found)" "rr_FQDN sample_not_found = ''a.io''" by code_simp+
  have "entry_of ''8.8.8.8/32'' None \<in> recorded sample_previous ''a.io''" unfolding recorded_def by code_simp
  then show ?thesis
    using revocation_overridden_by_retention [of 100 "\<lambda>f xs. xs" "[sample_not_found]" sample_previous 0 "''8.8.8.8/32''" "\<lambda>i. 50" 5]
      h sample_previous_wf by simp
qed

text \<open>
  (C36) A retention period shorter than the retry timeout ends the retry window early: an address
  that has been missing for longer than the period is dropped by a transient failure, although the
  retry timeout has not passed and the update of the statuses kept it.
\<close>

theorem retention_ends_retry_window:
  assumes "0 < sint ret" and "sint ret < 2 ^ 63 - 1" and "\<forall>f. reordering (order f)" and "distinct (map rr_FQDN results)"
    and "statuses_wf previous" and "i < length results"
    and "Transient (rr_Status (results ! i))"
    and "fs_FailingSince (previous_status previous (rr_FQDN (results ! i))) = Some t0"
    and "clock (2 * i) \<le> t0 + sint (k :: int32) * 1000000000"
    and "entry_of a (Some t) \<in> recorded previous (rr_FQDN (results ! i))"
    and "t + sint ret < clock (2 * length results)"
  shows "entry_of a (Some t) \<in> set (fs_Addresses (fst (updateFQDNStatuses clock previous results (sint k)) ! i)) \<and>
    a \<notin> ae_Address ` set (fs_Addresses (refresh clock order (sint k) ret previous results ! i))"
proof
  let ?r = "results ! i"
  have ns: "\<not> succeeded ?r" using assms(7) Success_not_Transient by (auto simp: succeeded_def)
  show "entry_of a (Some t) \<in> set (fs_Addresses (fst (updateFQDNStatuses clock previous results (sint k)) ! i))"
    using assms(6-10) by (simp add: updateFQDNStatuses_nth updated_def Update_Transient_again recorded_def
        sint_duration_seconds_int32)
  show "a \<notin> ae_Address ` set (fs_Addresses (refresh clock order (sint k) ret previous results ! i))"
  proof
    assume "a \<in> ae_Address ` set (fs_Addresses (refresh clock order (sint k) ret previous results ! i))"
    then obtain e where "e \<in> set (fs_Addresses (refresh clock order (sint k) ret previous results ! i))"
      "entry_of a (ae_MissingSince e) = e" by (auto simp: entry_of_def)
    then have "entry_of a (ae_MissingSince e) \<in> set (fs_Addresses (refresh clock order (sint k) ret previous results ! i))"
      by simp
    then obtain m0 where m0: "entry_of a m0 \<in> set (fs_Addresses (previous_status previous (rr_FQDN ?r)))"
      "within_retention (clock (2 * length results)) ret (missing_time (clock (2 * length results)) m0)"
      using refresh_entry_iff [OF assms(1,3,4,6) statuses_wf_previous [OF assms(5)] refl] ns
      by (auto simp: fresh_in_def)
    have "m0 = Some t"
      using entry_of_unique [OF statuses_wf_previous [OF assms(5)] m0(1)] assms(10) by (simp add: recorded_def)
    with m0(2) assms(2,11) show False by (simp add: missing_time_def within_retention_iff)
  qed
qed

definition sample_failing :: "FQDNStatus list" where
  "sample_failing = [(sample_status ''a.io'' [])\<lparr>fs_FailingSince := Some 0,
     fs_Addresses := [entry_of ''8.8.8.8/32'' (Some 0)]\<rparr>]"

definition sample_timeout :: DNSResolverResult where
  "sample_timeout = NewDNSResolverResult ''a.io'' [] (Some (DNSError ''timeout'' ''a.io'' [] True False False None))"

theorem retention_ends_retry_window_witness:
  "entry_of ''8.8.8.8/32'' (Some 0) \<in>
     set (fs_Addresses (fst (updateFQDNStatuses (\<lambda>i. 500) sample_failing [sample_timeout] (sint (5 :: int32))) ! 0)) \<and>
   ''8.8.8.8/32'' \<notin> ae_Address `
     set (fs_Addresses (refresh (\<lambda>i. 500) (\<lambda>f xs. xs) (sint (5 :: int32)) 100 sample_failing [sample_timeout] ! 0))"
proof -
  have h: "Transient (rr_Status sample_timeout)" "rr_FQDN sample_timeout = ''a.io''"
    "fs_FailingSince (previous_status sample_failing ''a.io'') = Some 0" by code_simp+
  have "entry_of ''8.8.8.8/32'' (Some 0) \<in> recorded sample_failing ''a.io''" unfolding recorded_def by code_simp
  moreover have "statuses_wf sample_failing" by (simp add: statuses_wf_def sample_failing_def)
  ultimately show ?thesis
    using retention_ends_retry_window [of 100 "\<lambda>f xs. xs" "[sample_timeout]" sample_failing 0 0 "\<lambda>i. 500" 5 "''8.8.8.8/32''" 0]
      h by simp
qed

end
