(* ===== verification/Conditions.thy ===== *)
theory Conditions
  imports Api_Types
begin

text \<open>
  \<open>api/v1alpha1/networkpolicy_conditions.go\<close>: the setters of the \<open>Resolved\<close> and \<open>Ready\<close>
  conditions. They call \<open>meta.SetStatusCondition\<close> of the Kubernetes API machinery, which is an
  argument of the definitions; \<open>SetStatusCondition_doc\<close> is its documented behaviour that the operator
  relies on: the condition of the given type carries the given status, reason, message and
  generation afterwards, and conditions of other types are left alone.
\<close>

type_synonym set_condition = "Condition list \<Rightarrow> Condition \<Rightarrow> Condition list"

definition condition_of :: "string \<Rightarrow> Condition list \<Rightarrow> Condition option" where
  "condition_of ty cs = find (\<lambda>c. c_Type c = ty) cs"

definition same_condition :: "Condition \<Rightarrow> Condition \<Rightarrow> bool" where
  "same_condition a b \<longleftrightarrow> c_Type a = c_Type b \<and> c_Status a = c_Status b \<and> c_Reason a = c_Reason b \<and>
     c_Message a = c_Message b \<and> c_ObservedGeneration a = c_ObservedGeneration b"

definition SetStatusCondition_doc :: "set_condition \<Rightarrow> bool" where
  "SetStatusCondition_doc setc \<longleftrightarrow>
     (\<forall>cs c. (\<exists>d. condition_of (c_Type c) (setc cs c) = Some d \<and> same_condition d c)) \<and>
     (\<forall>cs c ty. ty \<noteq> c_Type c \<longrightarrow> condition_of ty (setc cs c) = condition_of ty cs)"

text \<open>A condition that already says what is to be set is left as it is, with its time stamp.\<close>

definition SetStatusCondition_same_doc :: "set_condition \<Rightarrow> bool" where
  "SetStatusCondition_same_doc setc \<longleftrightarrow>
     (\<forall>cs c d. condition_of (c_Type c) cs = Some d \<and> same_condition d c \<longrightarrow> setc cs c = cs)"

definition ConditionTrue :: string where "ConditionTrue = ''True''"
definition ConditionFalse :: string where "ConditionFalse = ''False''"

definition set_condition_np :: "set_condition \<Rightarrow> Condition \<Rightarrow> NetworkPolicy \<Rightarrow> NetworkPolicy" where
  "set_condition_np setc c np =
     np\<lparr>np_Status := (np_Status np)\<lparr>st_Conditions := setc (st_Conditions (np_Status np)) c\<rparr>\<rparr>"

definition SetResolvedCondition ::
  "set_condition \<Rightarrow> NetworkPolicyResolutionReason \<Rightarrow> string \<Rightarrow> NetworkPolicy \<Rightarrow> NetworkPolicy" where
  "SetResolvedCondition setc reason message np =
     (let condition = (if reason = NetworkPolicyResolutionSuccess then ConditionTrue else ConditionFalse)
      in set_condition_np setc
           \<lparr>c_Type = NetworkPolicyResolved, c_Status = condition,
            c_ObservedGeneration = np_Generation np, c_LastTransitionTime = zeroTime,
            c_Reason = reason, c_Message = message\<rparr> np)"

definition SetReadyConditionTrue ::
  "set_condition \<Rightarrow> NetworkPolicyReadyReason \<Rightarrow> string \<Rightarrow> NetworkPolicy \<Rightarrow> NetworkPolicy" where
  "SetReadyConditionTrue setc reason message np =
     (let np' = set_condition_np setc
           \<lparr>c_Type = NetworkPolicyReady, c_Status = ConditionTrue,
            c_ObservedGeneration = np_Generation np, c_LastTransitionTime = zeroTime,
            c_Reason = reason, c_Message = message\<rparr> np
      in np'\<lparr>np_Status := (np_Status np')\<lparr>st_ObservedGeneration := np_Generation np'\<rparr>\<rparr>)"

definition SetReadyConditionFalse ::
  "set_condition \<Rightarrow> NetworkPolicyReadyReason \<Rightarrow> string \<Rightarrow> NetworkPolicy \<Rightarrow> NetworkPolicy" where
  "SetReadyConditionFalse setc reason message np =
     set_condition_np setc
       \<lparr>c_Type = NetworkPolicyReady, c_Status = ConditionFalse,
        c_ObservedGeneration = np_Generation np, c_LastTransitionTime = zeroTime,
        c_Reason = reason, c_Message = message\<rparr> np"

lemmas condition_setter_defs =
  SetResolvedCondition_def SetReadyConditionTrue_def SetReadyConditionFalse_def set_condition_np_def

lemma setters_keep_spec [simp]:
  "np_Spec (SetResolvedCondition setc r m np) = np_Spec np"
  "np_Spec (SetReadyConditionTrue setc q m np) = np_Spec np"
  "np_Spec (SetReadyConditionFalse setc q m np) = np_Spec np"
  "st_FQDNs (np_Status (SetResolvedCondition setc r m np)) = st_FQDNs (np_Status np)"
  "st_FQDNs (np_Status (SetReadyConditionTrue setc q m np)) = st_FQDNs (np_Status np)"
  "st_FQDNs (np_Status (SetReadyConditionFalse setc q m np)) = st_FQDNs (np_Status np)"
  by (simp_all add: condition_setter_defs Let_def)

lemma setters_keep_meta [simp]:
  "np_Name (SetResolvedCondition setc r m np) = np_Name np"
  "np_Name (SetReadyConditionTrue setc q m np) = np_Name np"
  "np_Name (SetReadyConditionFalse setc q m np) = np_Name np"
  "np_Namespace (SetResolvedCondition setc r m np) = np_Namespace np"
  "np_Namespace (SetReadyConditionTrue setc q m np) = np_Namespace np"
  "np_Namespace (SetReadyConditionFalse setc q m np) = np_Namespace np"
  "np_Generation (SetResolvedCondition setc r m np) = np_Generation np"
  "np_Generation (SetReadyConditionTrue setc q m np) = np_Generation np"
  "np_Generation (SetReadyConditionFalse setc q m np) = np_Generation np"
  by (simp_all add: condition_setter_defs Let_def)

text \<open>A function with the documented behaviour: update in place, or append.\<close>

fun put_condition :: "Condition list \<Rightarrow> Condition \<Rightarrow> Condition list" where
  "put_condition [] c = [c]"
| "put_condition (d # cs) c =
     (if c_Type d = c_Type c
      then (if c_Status d = c_Status c then c\<lparr>c_LastTransitionTime := c_LastTransitionTime d\<rparr> else c) # cs
      else d # put_condition cs c)"

lemma put_condition_doc: "SetStatusCondition_doc put_condition"
proof -
  have "\<exists>d. condition_of (c_Type c) (put_condition cs c) = Some d \<and> same_condition d c" for cs c
    by (induction cs c rule: put_condition.induct) (auto simp: condition_of_def same_condition_def)
  moreover have "ty \<noteq> c_Type c \<Longrightarrow> condition_of ty (put_condition cs c) = condition_of ty cs" for ty cs c
    by (induction cs c rule: put_condition.induct) (auto simp: condition_of_def)
  ultimately show ?thesis by (simp add: SetStatusCondition_doc_def)
qed

lemma put_condition_same_doc: "SetStatusCondition_same_doc put_condition"
proof -
  have "condition_of (c_Type c) cs = Some d \<Longrightarrow> same_condition d c \<Longrightarrow> put_condition cs c = cs" for cs c d
    by (induction cs c rule: put_condition.induct) (auto simp: condition_of_def same_condition_def split: if_splits)
  then show ?thesis by (auto simp: SetStatusCondition_same_doc_def)
qed

definition condition_status :: "string \<Rightarrow> NetworkPolicy \<Rightarrow> (string \<times> string \<times> int64) option" where
  "condition_status ty np =
     map_option (\<lambda>c. (c_Status c, c_Reason c, c_ObservedGeneration c)) (condition_of ty (st_Conditions (np_Status np)))"

lemma condition_status_set:
  assumes "SetStatusCondition_doc setc"
  shows "condition_status (c_Type c) (set_condition_np setc c np) =
      Some (c_Status c, c_Reason c, c_ObservedGeneration c)"
    and "ty \<noteq> c_Type c \<Longrightarrow> condition_status ty (set_condition_np setc c np) = condition_status ty np"
proof -
  have "\<exists>d. condition_of (c_Type c) (setc cs c) = Some d \<and> same_condition d c" for cs
    using assms unfolding SetStatusCondition_doc_def by blast
  then show "condition_status (c_Type c) (set_condition_np setc c np) =
      Some (c_Status c, c_Reason c, c_ObservedGeneration c)"
    by (fastforce simp: condition_status_def set_condition_np_def same_condition_def)
  show "ty \<noteq> c_Type c \<Longrightarrow> condition_status ty (set_condition_np setc c np) = condition_status ty np"
    using assms unfolding SetStatusCondition_doc_def
    by (simp add: condition_status_def set_condition_np_def)
qed

lemma condition_types_distinct [simp]:
  "NetworkPolicyReady \<noteq> NetworkPolicyResolved" "NetworkPolicyResolved \<noteq> NetworkPolicyReady"
  by (simp_all add: NetworkPolicyReady_def NetworkPolicyResolved_def)

lemma condition_status_observed [simp]:
  "condition_status ty (np\<lparr>np_Status := (np_Status np)\<lparr>st_ObservedGeneration := g\<rparr>\<rparr>) = condition_status ty np"
  by (simp add: condition_status_def)

text \<open>
  The \<open>Resolved\<close> condition becomes true exactly for the reason \<open>Success\<close>, and \<open>Ready\<close> takes the
  status of the setter called; each carries the reason and the generation of the object, and neither
  touches the other.
\<close>

lemma condition_setters_correct:
  assumes "SetStatusCondition_doc setc"
  shows "condition_status NetworkPolicyResolved (SetResolvedCondition setc r m np) =
      Some (if r = NetworkPolicyResolutionSuccess then ConditionTrue else ConditionFalse, r, np_Generation np) \<and>
    condition_status NetworkPolicyReady (SetResolvedCondition setc r m np) = condition_status NetworkPolicyReady np \<and>
    condition_status NetworkPolicyReady (SetReadyConditionTrue setc q m np) = Some (ConditionTrue, q, np_Generation np) \<and>
    condition_status NetworkPolicyReady (SetReadyConditionFalse setc q m np) = Some (ConditionFalse, q, np_Generation np) \<and>
    condition_status NetworkPolicyResolved (SetReadyConditionTrue setc q m np) = condition_status NetworkPolicyResolved np \<and>
    condition_status NetworkPolicyResolved (SetReadyConditionFalse setc q m np) = condition_status NetworkPolicyResolved np"
proof -
  define c where "c ty st rs = \<lparr>c_Type = ty, c_Status = st, c_ObservedGeneration = np_Generation np,
    c_LastTransitionTime = zeroTime, c_Reason = rs, c_Message = m\<rparr>" for ty st rs
  have set: "condition_status ty (set_condition_np setc (c ty st rs) np) = Some (st, rs, np_Generation np)"
    for ty st rs using condition_status_set(1) [OF assms, of "c ty st rs"] by (simp add: c_def)
  have keep: "condition_status ty' (set_condition_np setc (c ty st rs) np) = condition_status ty' np"
    if "ty' \<noteq> ty" for ty' ty st rs
    using that condition_status_set(2) [OF assms, of ty' "c ty st rs"] by (simp add: c_def)
  show ?thesis
    unfolding SetResolvedCondition_def SetReadyConditionTrue_def SetReadyConditionFalse_def Let_def
      c_def [symmetric] by (simp add: set keep)
qed

end
