(* ===== verification/Dedup_Correct.thy ===== *)
theory Dedup_Correct
  imports Dedup
begin

text \<open>
  Correctness of the deduplication. The first part describes the result of each phase for arbitrary
  rules; its summary is \<open>dedup_rules_eq\<close>: one rule per fingerprint, in order, with the sorted CIDRs
  of that fingerprint. The second part adds that ports carry no end port and a schema protocol.
\<close>

subsection \<open>Port maps\<close>

definition ports_wf :: "(IntOrString \<Rightarrow> string) \<Rightarrow> (string, MnetPort) gomap \<Rightarrow> bool" where
  "ports_wf pstr m \<longleftrightarrow> gm_wf m \<and> list_all (\<lambda>(k, p). getSinglePortKey pstr p = k) m"

lemma gm_update_set: "set (gm_update k v m) \<subseteq> insert (k, v) (set m)"
  by (induction m) auto

lemma ports_wf_update:
  "ports_wf pstr m \<Longrightarrow> ports_wf pstr (gm_update (getSinglePortKey pstr p) p m)"
  using gm_update_set [of "getSinglePortKey pstr p" p m]
  by (auto simp: ports_wf_def list_all_iff)

lemma ports_wf_add_ports: "ports_wf pstr m \<Longrightarrow> ports_wf pstr (add_ports pstr m ps)"
  by (induction pstr m ps rule: add_ports.induct) (auto simp: ports_wf_update)

lemma gm_update_not_Nil [simp]: "gm_update k v m \<noteq> []"
  by (cases m) auto

lemma add_ports_not_Nil: "ps \<noteq> [] \<or> m \<noteq> [] \<Longrightarrow> add_ports pstr m ps \<noteq> []"
  by (induction pstr m ps rule: add_ports.induct) auto

lemma ports_wf_inj: "ports_wf pstr m \<Longrightarrow> inj_on (getSinglePortKey pstr) (set (map snd m))"
proof (rule inj_onI)
  fix p q
  assume wf: "ports_wf pstr m" and "p \<in> set (map snd m)" "q \<in> set (map snd m)"
    and eq: "getSinglePortKey pstr p = getSinglePortKey pstr q"
  then obtain k l where kl: "(k, p) \<in> set m" "(l, q) \<in> set m" by auto
  with wf have "k = getSinglePortKey pstr p" "l = getSinglePortKey pstr q"
    by (auto simp: ports_wf_def list_all_iff)
  with kl eq wf show "p = q"
    by (metis eq_key_imp_eq_value gm_wf_def ports_wf_def)
qed

lemma ports_wf_Nil [simp]: "ports_wf pstr []"
  by (simp add: ports_wf_def)

definition pset_wf :: "(IntOrString \<Rightarrow> string) \<Rightarrow> portSet \<Rightarrow> bool" where
  "pset_wf pstr ps \<longleftrightarrow> ports_wf pstr (ps_ports ps) \<and> (ps_allowAll ps \<longleftrightarrow> ps_ports ps = [])"

definition cmap_wf :: "(IntOrString \<Rightarrow> string) \<Rightarrow> (string, portSet) gomap \<Rightarrow> bool" where
  "cmap_wf pstr m \<longleftrightarrow> gm_wf m \<and> list_all (\<lambda>(c, ps). c \<noteq> [] \<and> pset_wf pstr ps) m"

lemma cmap_wf_lookup: "cmap_wf pstr m \<Longrightarrow> gm_lookup m c = Some ps \<Longrightarrow> pset_wf pstr ps \<and> c \<noteq> []"
  by (auto simp: cmap_wf_def list_all_iff dest: map_of_SomeD)

lemma cmap_wf_update:
  "cmap_wf pstr m \<Longrightarrow> c \<noteq> [] \<Longrightarrow> pset_wf pstr ps \<Longrightarrow> cmap_wf pstr (gm_update c ps m)"
  using gm_update_set [of c ps m] by (auto simp: cmap_wf_def list_all_iff)

text \<open>One peer, as a single update of the entry of its CIDR.\<close>

definition merged :: "(IntOrString \<Rightarrow> string) \<Rightarrow> MnetPort list \<Rightarrow> portSet option \<Rightarrow> portSet" where
  "merged pstr ports old =
     (let ps = (case old of Some ps \<Rightarrow> ps | None \<Rightarrow> \<lparr>ps_allowAll = False, ps_ports = []\<rparr>)
      in if ps_allowAll ps then ps
         else if ports = [] then ps\<lparr>ps_allowAll := True, ps_ports := []\<rparr>
         else ps\<lparr>ps_ports := add_ports pstr (ps_ports ps) ports\<rparr>)"

lemma gm_update_update: "gm_update k v (gm_update k w m) = gm_update k v m"
  by (induction m) auto

lemma gm_update_same: "gm_lookup m k = Some v \<Longrightarrow> gm_update k v m = m"
  by (induction m) auto

lemma add_peer_cidr:
  "c \<noteq> [] \<Longrightarrow> add_peer pstr ports m (cidr_peer c) = gm_update c (merged pstr ports (gm_lookup m c)) m"
  by (auto simp: add_peer_def cidr_peer_def merged_def Let_def gm_update_update gm_update_same
      split: option.splits)

lemma pset_wf_merged: "(\<forall>ps. old = Some ps \<longrightarrow> pset_wf pstr ps) \<Longrightarrow> pset_wf pstr (merged pstr ports old)"
  by (auto simp: merged_def pset_wf_def Let_def ports_wf_add_ports add_ports_not_Nil split: option.splits)

lemma cmap_wf_add_peer: "cmap_wf pstr m \<Longrightarrow> c \<noteq> [] \<Longrightarrow> cmap_wf pstr (add_peer pstr ports m (cidr_peer c))"
  using cmap_wf_lookup [of pstr m c]
  by (simp add: add_peer_cidr cmap_wf_update pset_wf_merged)

text \<open>All peers of a rule, and all rules.\<close>

definition add_rule :: "(IntOrString \<Rightarrow> string) \<Rightarrow> (string, portSet) gomap \<Rightarrow> MnetEgressRule \<Rightarrow> (string, portSet) gomap" where
  "add_rule pstr m r = foldl (add_peer pstr (mer_Ports r)) m (mer_To r)"

lemma add_rules_foldl: "add_rules pstr m rules = foldl (add_rule pstr) m rules"
  by (induction pstr m rules rule: add_rules.induct) (auto simp: add_rule_def)

lemma foldl_invariant:
  assumes "P a" and "\<And>b x. P b \<Longrightarrow> x \<in> set xs \<Longrightarrow> P (f b x)"
  shows "P (foldl f a xs)"
  using assms by (induction xs arbitrary: a) auto

lemma rule_wf_peer: "rule_wf r \<Longrightarrow> p \<in> set (mer_To r) \<Longrightarrow> \<exists>c. p = cidr_peer c \<and> c \<noteq> []"
  by (auto simp: rule_wf_def list_all_iff cidr_peer_def split: option.splits)
    (metis (no_types, lifting) IPBlock.cases IPBlock.simps(1) MnetPeer.cases MnetPeer.simps(1) option.simps(5))

lemma cmap_wf_add_rules:
  assumes "list_all rule_wf rules"
  shows "cmap_wf pstr (add_rules pstr [] rules)"
  unfolding add_rules_foldl
proof (rule foldl_invariant)
  fix m r
  assume m: "cmap_wf pstr m" and "r \<in> set rules"
  then have r: "rule_wf r" using assms by (simp add: list_all_iff)
  show "cmap_wf pstr (add_rule pstr m r)"
    unfolding add_rule_def
  proof (rule foldl_invariant)
    fix m p
    assume "cmap_wf pstr m" and "p \<in> set (mer_To r)"
    with rule_wf_peer [OF r] cmap_wf_add_peer show "cmap_wf pstr (add_peer pstr (mer_Ports r) m p)" by blast
  qed (rule m)
qed (simp add: cmap_wf_def)

lemma collapse_proto_wf: "ports_wf pstr m \<Longrightarrow> ports_wf pstr (collapse_proto m proto)"
  by (auto simp: ports_wf_def gm_wf_def list_all_iff collapse_proto_def Let_def distinct_map_filter)

lemma collapse_proto_Nil [simp]: "collapse_proto m proto = [] \<longleftrightarrow> m = []"
  by (auto simp: collapse_proto_def Let_def filter_empty_conv dest!: map_of_SomeD)

lemma pset_wf_collapse: "pset_wf pstr ps \<Longrightarrow> pset_wf pstr (collapse ps)"
  by (simp add: collapse_def pset_wf_def collapse_proto_wf)

definition collapsed_map :: "(IntOrString \<Rightarrow> string) \<Rightarrow> MnetEgressRule list \<Rightarrow> (string, portSet) gomap" where
  "collapsed_map pstr rules = map (\<lambda>(c, ps). (c, collapse ps)) (add_rules pstr [] rules)"

lemma collapsed_map_keys: "map fst (collapsed_map pstr rules) = map fst (add_rules pstr [] rules)"
  by (simp add: collapsed_map_def case_prod_beta comp_def)

lemma collapsed_map_lookup:
  "gm_lookup (collapsed_map pstr rules) c = map_option collapse (gm_lookup (add_rules pstr [] rules) c)"
proof -
  have "gm_lookup (map (\<lambda>(c, ps). (c, collapse ps)) m) c = map_option collapse (gm_lookup m c)" for m
    by (induction m) auto
  then show ?thesis by (simp add: collapsed_map_def)
qed

lemma collapsed_map_wf: "list_all rule_wf rules \<Longrightarrow> cmap_wf pstr (collapsed_map pstr rules)"
  using cmap_wf_add_rules [of rules pstr] pset_wf_collapse
  unfolding cmap_wf_def gm_wf_def collapsed_map_keys by (auto simp: list_all_iff collapsed_map_def)

subsection \<open>The CIDRs of the map\<close>

lemma rule_wf_obtain:
  assumes "rule_wf r"
  obtains cs where "mer_To r = map cidr_peer cs" and "[] \<notin> set cs"
  using assms rule_wf_To rule_wf_cidr_peers by blast

lemma add_rules_keys:
  assumes "list_all rule_wf rules"
  shows "fst ` set (add_rules pstr m rules) = fst ` set m \<union> (\<Union>r \<in> set rules. set (peer_cidrs (mer_To r)))"
  using assms
proof (induction pstr m rules rule: add_rules.induct)
  case (2 pstr m r rules)
  have keys: "\<forall>c \<in> set cs. c \<noteq> [] \<Longrightarrow> fst ` set (foldl (add_peer pstr ports) m (map cidr_peer cs)) = fst ` set m \<union> set cs"
    for ports m cs
    by (induction cs arbitrary: m) (simp_all add: add_peer_cidr gm_dom_update insert_commute)
  have "rule_wf r" using "2.prems" by simp
  then obtain cs where cs: "mer_To r = map cidr_peer cs" and "[] \<notin> set cs"
    by (rule rule_wf_obtain)
  then have "\<forall>c \<in> set cs. c \<noteq> []" by auto
  from keys [OF this, of "mer_Ports r" m]
  have "fst ` set (foldl (add_peer pstr (mer_Ports r)) m (mer_To r)) = fst ` set m \<union> set (peer_cidrs (mer_To r))"
    by (simp only: cs peer_cidrs_map)
  with 2 show ?case by auto
qed simp

subsection \<open>Grouping\<close>

definition entry_slice :: "(IntOrString \<Rightarrow> string) \<Rightarrow> dedup_order \<Rightarrow> string \<times> portSet \<Rightarrow> MnetPort list" where
  "entry_slice pstr ord e = port_slice pstr ord (fst e) (snd e)"

definition entry_fp :: "(IntOrString \<Rightarrow> string) \<Rightarrow> dedup_order \<Rightarrow> string \<times> portSet \<Rightarrow> string" where
  "entry_fp pstr ord e = getPortsFingerprint pstr (entry_slice pstr ord e)"

lemmas group_cidr_unfold = group_cidr_def [unfolded Let_def case_prod_beta,
    folded entry_slice_def, folded entry_fp_def]

lemma foldl_group_groupings:
  "gs_groupings (foldl (group_cidr pstr ord) st es) = gs_groupings st @ map (\<lambda>e. (fst e, entry_fp pstr ord e)) es"
  by (induction es arbitrary: st) (simp_all add: group_cidr_unfold)

lemma foldl_group_counts:
  "fst ` set (gs_counts (foldl (group_cidr pstr ord) st es)) = fst ` set (gs_counts st) \<union> entry_fp pstr ord ` set es"
  "gm_wf (gs_counts st) \<Longrightarrow> gm_wf (gs_counts (foldl (group_cidr pstr ord) st es))"
  by (induction es arbitrary: st) (simp_all add: group_cidr_unfold gm_dom_update)

lemma foldl_group_slices:
  "gm_lookup (gs_slices (foldl (group_cidr pstr ord) st es)) f =
     (case gm_lookup (gs_slices st) f of
        Some ps \<Rightarrow> Some ps
      | None \<Rightarrow> map_option (entry_slice pstr ord) (find (\<lambda>e. entry_fp pstr ord e = f) es))"
  by (induction es arbitrary: st)
    (auto simp: group_cidr_unfold gm_lookup_update split: option.splits)

definition cidrs_of :: "(string, string list) gomap \<Rightarrow> string \<Rightarrow> string list" where
  "cidrs_of m f = (case gm_lookup m f of None \<Rightarrow> [] | Some cs \<Rightarrow> cs)"

lemma cidrs_of_append:
  "cidrs_of (foldl append_cidr m gs) f = cidrs_of m f @ map fst (filter (\<lambda>g. snd g = f) gs)"
proof (induction gs arbitrary: m)
  case (Cons g gs)
  have "cidrs_of (append_cidr m g) f = cidrs_of m f @ (if snd g = f then [fst g] else [])"
    by (cases g) (simp add: append_cidr_def cidrs_of_def gm_lookup_update)
  with Cons show ?case by simp
qed simp

lemma append_cidr_keys:
  "fst ` set (foldl append_cidr m gs) = fst ` set m \<union> snd ` set gs"
  "gm_wf m \<Longrightarrow> gm_wf (foldl append_cidr m gs)"
proof -
  have "fst ` set (append_cidr m g) = insert (snd g) (fst ` set m)" for m g
    by (cases g) (simp add: append_cidr_def gm_dom_update)
  then show "fst ` set (foldl append_cidr m gs) = fst ` set m \<union> snd ` set gs"
    by (induction gs arbitrary: m) simp_all
  have "gm_wf m \<Longrightarrow> gm_wf (append_cidr m g)" for m g
    by (cases g) (simp add: append_cidr_def)
  then show "gm_wf m \<Longrightarrow> gm_wf (foldl append_cidr m gs)"
    by (induction gs arbitrary: m) simp_all
qed

text \<open>The summary of all phases.\<close>

definition grouped_rule ::
  "(IntOrString \<Rightarrow> string) \<Rightarrow> dedup_order \<Rightarrow> (string \<times> portSet) list \<Rightarrow> string \<Rightarrow> MnetEgressRule" where
  "grouped_rule pstr ord es f =
     \<lparr>mer_Ports = (case find (\<lambda>e. entry_fp pstr ord e = f) es of None \<Rightarrow> [] | Some e \<Rightarrow> entry_slice pstr ord e),
      mer_To = map cidr_peer (sort (map fst (filter (\<lambda>e. entry_fp pstr ord e = f) es)))\<rparr>"

lemma dedup_rules_eq:
  assumes "dedup_order_ok ord"
    and es: "es = do_cidrs ord (collapsed_map pstr rules)"
  shows "dedup_rules pstr ord rules =
    map (grouped_rule pstr ord es) (sorted_list_of_set (entry_fp pstr ord ` set es))"
proof -
  define st where "st = foldl (group_cidr pstr ord) \<lparr>gs_groupings = [], gs_counts = [], gs_slices = []\<rparr> es"
  define byf where "byf = cidrs_by_fingerprint st"
  let ?zero = "map (\<lambda>(f, n). (f, [] :: string list)) (gs_counts st)"
  have byf: "byf = foldl append_cidr ?zero (map (\<lambda>e. (fst e, entry_fp pstr ord e)) es)"
    by (simp add: byf_def cidrs_by_fingerprint_def st_def foldl_group_groupings)
  have zero: "map fst ?zero = map fst (gs_counts st)" by (simp add: case_prod_beta)
  have "gm_wf (gs_counts st)"
    unfolding st_def by (rule foldl_group_counts(2)) simp
  then have "gm_wf ?zero" unfolding gm_wf_def zero .
  then have wf: "distinct (map fst byf)"
    unfolding byf using append_cidr_keys(2) gm_wf_def by blast
  have "fst ` set ?zero = entry_fp pstr ord ` set es"
    using foldl_group_counts(1) [of pstr ord "\<lparr>gs_groupings = [], gs_counts = [], gs_slices = []\<rparr>" es]
    by (simp add: st_def image_image case_prod_beta)
  then have keys: "set (map fst byf) = entry_fp pstr ord ` set es"
    unfolding byf by (simp add: append_cidr_keys(1) image_image)
  have r: "reordering (do_fingerprints ord)"
    using assms(1) by (simp add: dedup_order_ok_def)
  have sorted: "sort_Strings (do_fingerprints ord (map fst byf)) = sorted_list_of_set (entry_fp pstr ord ` set es)"
    unfolding sort_Strings_eq keys [symmetric] using r wf
    by (metis reordering_distinct reordering_set sorted_list_of_set_sort_remdups distinct_remdups_id)
  have "cidrs_of ?zero f = []" for f
    by (auto simp: cidrs_of_def dest: map_of_SomeD split: option.splits)
  then have "cidrs_of byf f = map fst (filter (\<lambda>e. entry_fp pstr ord e = f) es)" for f
    by (simp add: byf cidrs_of_append filter_map comp_def)
  then have "new_rule st byf f = grouped_rule pstr ord es f" for f
    unfolding new_rule_def Let_def cidrs_of_def [symmetric]
    by (simp add: grouped_rule_def st_def foldl_group_slices sort_Strings_eq cidr_peer_def fun_eq_iff
        split: option.splits)
  then have "new_rule st byf = grouped_rule pstr ord es" by (rule ext)
  moreover have "dedup_rules pstr ord rules = map (new_rule st byf) (sort_Strings (do_fingerprints ord (map fst byf)))"
    by (simp add: dedup_rules_def Let_def byf_def st_def es group_cidrs_def collapsed_map_def)
  ultimately show ?thesis using sorted by simp
qed

subsection \<open>Every CIDR exactly once\<close>

lemma mset_partition:
  assumes "distinct fs" and "g ` set es \<subseteq> set fs"
  shows "mset (concat (map (\<lambda>f. filter (\<lambda>e. g e = f) es) fs)) = mset es"
proof (rule multiset_eqI)
  fix e
  have "count (mset (concat (map (\<lambda>f. filter (\<lambda>e. g e = f) es) gs))) e =
    sum_list (map (\<lambda>f. if g e = f then count (mset es) e else 0) gs)" for gs
    by (induction gs) auto
  moreover have "sum_list (map (\<lambda>f. if g e = f then count (mset es) e else 0) fs) =
    (if g e \<in> set fs then count (mset es) e else 0)"
    using assms(1) by (simp add: sum_list_distinct_conv_sum_set)
  ultimately show "count (mset (concat (map (\<lambda>f. filter (\<lambda>e. g e = f) es) fs))) e = count (mset es) e"
    using assms(2) by (auto simp: count_eq_zero_iff)
qed

definition all_cidrs :: "MnetEgressRule list \<Rightarrow> string list" where
  "all_cidrs rules = concat (map (\<lambda>r. peer_cidrs (mer_To r)) rules)"

lemma all_cidrs_dedup:
  assumes "dedup_order_ok ord"
  shows "mset (all_cidrs (dedup_rules pstr ord rules)) = mset (map fst (collapsed_map pstr rules))"
proof -
  define es where "es = do_cidrs ord (collapsed_map pstr rules)"
  define fs where "fs = sorted_list_of_set (entry_fp pstr ord ` set es)"
  have cong: "(\<And>f. mset (g f) = mset (h f)) \<Longrightarrow> mset (concat (map g gs)) = mset (concat (map h gs))" for g h gs
    by (induction gs) auto
  have "mset (all_cidrs (dedup_rules pstr ord rules)) =
    mset (concat (map (\<lambda>f. map fst (filter (\<lambda>e. entry_fp pstr ord e = f) es)) fs))"
    unfolding dedup_rules_eq [OF assms es_def] all_cidrs_def fs_def [symmetric] map_map
    by (rule cong) (simp add: grouped_rule_def)
  also have "\<dots> = mset (map fst (concat (map (\<lambda>f. filter (\<lambda>e. entry_fp pstr ord e = f) es) fs)))"
    by (simp add: map_concat comp_def)
  also have "\<dots> = mset (map fst es)"
    unfolding mset_map by (subst mset_partition) (simp_all add: fs_def)
  also have "\<dots> = mset (map fst (collapsed_map pstr rules))"
    using assms by (simp add: es_def dedup_order_ok_def reorder_simps)
  finally show ?thesis .
qed

lemma collapsed_map_distinct: "distinct (map fst (collapsed_map pstr rules))"
proof -
  have "gm_wf (add_peer pstr ports m p)" if "gm_wf m" for ports m p
    using that by (auto simp: add_peer_def Let_def split: option.splits)
  then have "gm_wf m \<Longrightarrow> gm_wf (foldl (add_peer pstr ports) m ps)" for ports m ps
    by (induction ps arbitrary: m) simp_all
  then have "gm_wf m \<Longrightarrow> gm_wf (add_rules pstr m rules)" for m
    by (induction rules arbitrary: m) simp_all
  then show ?thesis unfolding collapsed_map_keys gm_wf_def [symmetric] by simp
qed

lemma dedup_cidr_set:
  assumes "dedup_order_ok ord" and "list_all rule_wf rules"
  shows "set (all_cidrs (dedup_rules pstr ord rules)) = set (all_cidrs rules)"
  using mset_eq_setD [OF all_cidrs_dedup [OF assms(1), of pstr rules]] add_rules_keys [OF assms(2), of pstr "[]"]
  unfolding collapsed_map_keys by (simp add: all_cidrs_def)

lemma dedup_cidrs_distinct:
  "dedup_order_ok ord \<Longrightarrow> distinct (all_cidrs (dedup_rules pstr ord rules))"
  using collapsed_map_distinct mset_eq_imp_distinct_iff [OF all_cidrs_dedup] by blast

lemma dedup_rules_Nil: "dedup_order_ok ord \<Longrightarrow> dedup_rules pstr ord [] = []"
  by (simp add: dedup_rules_eq collapsed_map_def dedup_order_ok_def reordering_Nil)

lemma RemoveDuplicateCIDRs_Some:
  "dedup_order_ok ord \<Longrightarrow> RemoveDuplicateCIDRsInMultiNetworkPolicy pstr ord (Some m) =
     Some (m\<lparr>mn_Spec := (mn_Spec m)\<lparr>ms_Egress := dedup_rules pstr ord (ms_Egress (mn_Spec m))\<rparr>\<rparr>)"
  by (cases "ms_Egress (mn_Spec m)")
    (simp_all add: RemoveDuplicateCIDRsInMultiNetworkPolicy_def dedup_rules_Nil)

subsection \<open>Ports without an end port\<close>

definition plain_port :: "MnetPort \<Rightarrow> bool" where
  "plain_port p \<longleftrightarrow> mp_Protocol p \<in> {Some ''TCP'', Some ''UDP'', Some ''SCTP''} \<and> mp_EndPort p = None \<and>
     (case mp_Port p of Some (FromString _) \<Rightarrow> False | _ \<Rightarrow> True)"

definition port_text :: "(IntOrString \<Rightarrow> string) \<Rightarrow> MnetPort \<Rightarrow> string" where
  "port_text pstr p = (case mp_Port p of None \<Rightarrow> ''Any'' | Some x \<Rightarrow> pstr x)"

lemma plain_key:
  "plain_port p \<Longrightarrow> \<exists>q \<in> {''TCP'', ''UDP'', ''SCTP''}. mp_Protocol p = Some q \<and>
     getSinglePortKey pstr p = q @ CHR '':'' # port_text pstr p"
  by (auto simp: plain_port_def getSinglePortKey_def port_text_def)

lemma proto_split:
  "c \<notin> set a \<Longrightarrow> c \<notin> set b \<Longrightarrow> a @ c # x = b @ c # y \<longleftrightarrow> a = b \<and> x = y"
proof (induction a arbitrary: b)
  case (Cons d a)
  then show ?case by (cases b) auto
qed (auto simp: Cons_eq_append_conv)

lemma Itoa_not_Any [simp]: "Itoa n \<noteq> ''Any''" "''Any'' \<noteq> Itoa n"
proof -
  have "CHR ''A'' \<notin> set (Itoa n)" using Itoa_chars [of "CHR ''A''" n] by (auto simp: is_digit_iff)
  then show "Itoa n \<noteq> ''Any''" "''Any'' \<noteq> Itoa n" by (metis list.set_intros(1))+
qed

lemma port_text_inject:
  assumes "IntOrString_String_doc pstr" and "plain_port p" and "plain_port q"
  shows "port_text pstr p = port_text pstr q \<longleftrightarrow> mp_Port p = mp_Port q"
  using assms by (auto simp: port_text_def plain_port_def IntOrString_String_doc_def
      split: option.splits IntOrString.splits)

lemma plain_key_inject:
  assumes "IntOrString_String_doc pstr" and "plain_port p" and "plain_port q"
    and eq: "getSinglePortKey pstr p = getSinglePortKey pstr q"
  shows "p = q"
proof -
  obtain a where a: "a \<in> {''TCP'', ''UDP'', ''SCTP''}" "mp_Protocol p = Some a"
    "getSinglePortKey pstr p = a @ CHR '':'' # port_text pstr p"
    using plain_key [OF assms(2)] by blast
  obtain b where b: "b \<in> {''TCP'', ''UDP'', ''SCTP''}" "mp_Protocol q = Some b"
    "getSinglePortKey pstr q = b @ CHR '':'' # port_text pstr q"
    using plain_key [OF assms(3)] by blast
  have "CHR '':'' \<notin> set a" "CHR '':'' \<notin> set b" using a(1) b(1) by auto
  then have "a = b \<and> port_text pstr p = port_text pstr q"
    using eq a(3) b(3) proto_split by metis
  then have "mp_Protocol p = mp_Protocol q" "mp_Port p = mp_Port q"
    using a(2) b(2) port_text_inject [OF assms(1-3)] by simp_all
  moreover have "mp_EndPort p = mp_EndPort q" using assms(2,3) by (simp add: plain_port_def)
  ultimately show ?thesis by simp
qed

lemma plain_key_chars:
  assumes "IntOrString_String_doc pstr" and "plain_port p"
  shows "CHR '','' \<notin> set (getSinglePortKey pstr p)" and "CHR '':'' \<in> set (getSinglePortKey pstr p)"
proof -
  have "CHR '','' \<notin> set (Itoa n)" for n using Itoa_chars [of "CHR '',''" n] by (auto simp: is_digit_iff)
  then show "CHR '','' \<notin> set (getSinglePortKey pstr p)" and "CHR '':'' \<in> set (getSinglePortKey pstr p)"
    using assms by (auto simp: plain_port_def getSinglePortKey_def IntOrString_String_doc_def
      split: option.splits IntOrString.splits)
qed

text \<open>Port maps that hold plain ports only: the keys identify the ports.\<close>

definition plain_ports :: "(string, MnetPort) gomap \<Rightarrow> bool" where
  "plain_ports m \<longleftrightarrow> list_all (\<lambda>(k, p). plain_port p) m"

definition pset_ports :: "portSet \<Rightarrow> MnetPort set" where
  "pset_ports ps = snd ` set (ps_ports ps)"

definition pset_permits :: "portSet \<Rightarrow> Protocol \<Rightarrow> int \<Rightarrow> bool" where
  "pset_permits ps proto n \<longleftrightarrow> ps_allowAll ps \<or> (\<exists>p \<in> pset_ports ps. port_permits p proto n)"

lemma gm_update_range:
  assumes "gm_wf m" and "\<And>w. (k, w) \<in> set m \<Longrightarrow> w = v"
  shows "set (gm_update k v m) = insert (k, v) (set m)"
  using assms by (induction m) (auto simp: gm_wf_def)

lemma ports_wf_key: "ports_wf pstr m \<Longrightarrow> (k, p) \<in> set m \<Longrightarrow> getSinglePortKey pstr p = k"
  by (auto simp: ports_wf_def list_all_iff)

lemma plain_ports_mem: "plain_ports m \<Longrightarrow> (k, p) \<in> set m \<Longrightarrow> plain_port p"
  by (auto simp: plain_ports_def list_all_iff)

lemma add_ports_set:
  "IntOrString_String_doc pstr \<Longrightarrow> ports_wf pstr m \<Longrightarrow> plain_ports m \<Longrightarrow> list_all plain_port ps \<Longrightarrow>
    snd ` set (add_ports pstr m ps) = snd ` set m \<union> set ps \<and> plain_ports (add_ports pstr m ps)"
proof (induction pstr m ps rule: add_ports.induct)
  case (2 pstr m p ps)
  let ?m = "gm_update (getSinglePortKey pstr p) p m"
  have "w = p" if "(getSinglePortKey pstr p, w) \<in> set m" for w
    using plain_key_inject [OF "2.prems"(1) plain_ports_mem [OF "2.prems"(3) that], of p]
      ports_wf_key [OF "2.prems"(2) that] "2.prems"(4) by simp
  then have m: "set ?m = insert (getSinglePortKey pstr p, p) (set m)"
    using "2.prems" by (intro gm_update_range) (auto simp: ports_wf_def)
  then have "plain_ports ?m" using "2.prems" by (auto simp: plain_ports_def list_all_iff)
  with "2.IH" [OF "2.prems"(1) ports_wf_update [OF "2.prems"(2)]] "2.prems" m show ?case by auto
qed simp

lemma merged_permits:
  assumes "IntOrString_String_doc pstr" and "list_all plain_port ports"
    and "\<And>ps. old = Some ps \<Longrightarrow> pset_wf pstr ps \<and> plain_ports (ps_ports ps)"
  shows "pset_permits (merged pstr ports old) proto n \<longleftrightarrow>
      (case old of None \<Rightarrow> False | Some ps \<Rightarrow> pset_permits ps proto n) \<or> ports_permit ports proto n"
    and "plain_ports (ps_ports (merged pstr ports old))"
proof -
  have nil: "plain_ports []" by (simp add: plain_ports_def)
  show "plain_ports (ps_ports (merged pstr ports old))"
    using assms add_ports_set [OF assms(1) _ _ assms(2)] nil
    by (auto simp: merged_def Let_def pset_wf_def split: option.splits)
  show "pset_permits (merged pstr ports old) proto n \<longleftrightarrow>
      (case old of None \<Rightarrow> False | Some ps \<Rightarrow> pset_permits ps proto n) \<or> ports_permit ports proto n"
  proof (cases old)
    case None
    then show ?thesis using add_ports_set [OF assms(1) ports_wf_Nil nil assms(2)]
      by (auto simp: merged_def Let_def pset_permits_def pset_ports_def ports_permit_def simp del: bex_simps(7))
  next
    case (Some ps)
    then have "ports_wf pstr (ps_ports ps)" "plain_ports (ps_ports ps)"
      using assms(3) by (auto simp: pset_wf_def)
    from add_ports_set [OF assms(1) this assms(2)] Some show ?thesis
      by (auto simp: merged_def Let_def pset_permits_def pset_ports_def ports_permit_def simp del: bex_simps(7))
  qed
qed

subsection \<open>Traffic permitted by the map of CIDRs\<close>

definition cmap_permits :: "(string, portSet) gomap \<Rightarrow> string \<Rightarrow> Protocol \<Rightarrow> int \<Rightarrow> bool" where
  "cmap_permits m c proto n \<longleftrightarrow> (case gm_lookup m c of None \<Rightarrow> False | Some ps \<Rightarrow> pset_permits ps proto n)"

definition cmap_plain :: "(IntOrString \<Rightarrow> string) \<Rightarrow> (string, portSet) gomap \<Rightarrow> bool" where
  "cmap_plain pstr m \<longleftrightarrow> cmap_wf pstr m \<and> list_all (\<lambda>(c, ps). plain_ports (ps_ports ps)) m"

lemma cmap_plain_mem:
  "cmap_plain pstr m \<Longrightarrow> (c, ps) \<in> set m \<Longrightarrow> pset_wf pstr ps \<and> plain_ports (ps_ports ps)"
  by (auto simp: cmap_plain_def cmap_wf_def list_all_iff)

lemma cmap_plain_update:
  "cmap_plain pstr m \<Longrightarrow> c \<noteq> [] \<Longrightarrow> pset_wf pstr ps \<Longrightarrow> plain_ports (ps_ports ps) \<Longrightarrow>
     cmap_plain pstr (gm_update c ps m)"
  using gm_update_set [of c ps m] by (auto simp: cmap_plain_def cmap_wf_update list_all_iff)

lemma add_peer_permits:
  assumes "IntOrString_String_doc pstr" and "list_all plain_port ports" and "cmap_plain pstr m" and "c \<noteq> []"
  shows "cmap_plain pstr (add_peer pstr ports m (cidr_peer c))"
    and "cmap_permits (add_peer pstr ports m (cidr_peer c)) d proto n \<longleftrightarrow>
      cmap_permits m d proto n \<or> (d = c \<and> ports_permit ports proto n)"
proof -
  have old: "gm_lookup m c = Some ps \<Longrightarrow> pset_wf pstr ps \<and> plain_ports (ps_ports ps)" for ps
    using assms(3) cmap_plain_mem map_of_SomeD by metis
  note permits = merged_permits [OF assms(1,2) old, where old = "gm_lookup m c"]
  show "cmap_plain pstr (add_peer pstr ports m (cidr_peer c))"
    unfolding add_peer_cidr [OF assms(4)] using old permits(2)
    by (intro cmap_plain_update assms pset_wf_merged) auto
  show "cmap_permits (add_peer pstr ports m (cidr_peer c)) d proto n \<longleftrightarrow>
      cmap_permits m d proto n \<or> (d = c \<and> ports_permit ports proto n)"
    unfolding add_peer_cidr [OF assms(4)] using permits(1)
    by (auto simp: cmap_permits_def gm_lookup_update split: option.splits)
qed

lemma add_peers_permits:
  assumes "IntOrString_String_doc pstr" and "list_all plain_port ports"
  shows "cmap_plain pstr m \<Longrightarrow> \<forall>c \<in> set cs. c \<noteq> [] \<Longrightarrow>
    cmap_plain pstr (foldl (add_peer pstr ports) m (map cidr_peer cs)) \<and>
    (cmap_permits (foldl (add_peer pstr ports) m (map cidr_peer cs)) d proto n \<longleftrightarrow>
      cmap_permits m d proto n \<or> (d \<in> set cs \<and> ports_permit ports proto n))"
proof (induction cs arbitrary: m)
  case (Cons c cs)
  then have "c \<noteq> []" by simp
  from add_peer_permits [OF assms \<open>cmap_plain pstr m\<close> this] Cons show ?case by auto
qed simp

definition plain_rule :: "MnetEgressRule \<Rightarrow> bool" where
  "plain_rule r \<longleftrightarrow> rule_wf r \<and> list_all plain_port (mer_Ports r)"

lemma add_rule_permits:
  assumes "IntOrString_String_doc pstr" and "plain_rule r" and "cmap_plain pstr m"
  shows "cmap_plain pstr (add_rule pstr m r)"
    and "cmap_permits (add_rule pstr m r) d proto n \<longleftrightarrow> cmap_permits m d proto n \<or> rule_permits r d proto n"
proof -
  have "rule_wf r" and ports: "list_all plain_port (mer_Ports r)" using assms(2) by (simp_all add: plain_rule_def)
  from this(1) obtain cs where cs: "mer_To r = map cidr_peer cs" "[] \<notin> set cs" by (rule rule_wf_obtain)
  moreover from this have "\<forall>c \<in> set cs. c \<noteq> []" by auto
  moreover have "cs \<noteq> []" using \<open>rule_wf r\<close> cs by (simp add: rule_wf_def)
  ultimately show "cmap_plain pstr (add_rule pstr m r)"
    and "cmap_permits (add_rule pstr m r) d proto n \<longleftrightarrow> cmap_permits m d proto n \<or> rule_permits r d proto n"
    using add_peers_permits [OF assms(1) ports assms(3)] by (simp_all add: add_rule_def rule_permits_def)
qed

lemma add_rules_permits:
  assumes "IntOrString_String_doc pstr"
  shows "list_all plain_rule rules \<Longrightarrow> cmap_plain pstr m \<Longrightarrow>
    cmap_plain pstr (add_rules pstr m rules) \<and>
    (cmap_permits (add_rules pstr m rules) d proto n \<longleftrightarrow> cmap_permits m d proto n \<or> egress_permits rules d proto n)"
  unfolding add_rules_foldl
proof (induction rules arbitrary: m)
  case (Cons r rules)
  then have "plain_rule r" by simp
  from add_rule_permits [OF assms this \<open>cmap_plain pstr m\<close>] Cons show ?case by auto
qed simp

subsection \<open>Collapsing keeps the permitted traffic\<close>

lemma any_key_port:
  assumes "IntOrString_String_doc pstr" and "plain_port p"
    and "getSinglePortKey pstr p = proto @ '':Any''" and "CHR '':'' \<notin> set proto"
  shows "mp_Protocol p = Some proto \<and> mp_Port p = None"
proof -
  obtain q where q: "q \<in> {''TCP'', ''UDP'', ''SCTP''}" "mp_Protocol p = Some q"
    "getSinglePortKey pstr p = q @ CHR '':'' # port_text pstr p"
    using plain_key [OF assms(2)] by blast
  have colon: "CHR '':'' \<notin> set q" using q(1) by auto
  have "q @ CHR '':'' # port_text pstr p = proto @ CHR '':'' # ''Any''"
    using assms(3) q(3) by simp
  then have "q = proto" and "port_text pstr p = ''Any''"
    by (simp_all only: proto_split [OF colon assms(4)])
  with q(2) assms(1,2) show ?thesis
    by (auto simp: port_text_def plain_port_def IntOrString_String_doc_def split: option.splits IntOrString.splits)
qed

lemma collapse_proto_permits:
  assumes doc: "IntOrString_String_doc pstr" and wf: "ports_wf pstr m" and plain: "plain_ports m"
    and proto: "CHR '':'' \<notin> set proto"
  shows "(\<exists>p \<in> snd ` set (collapse_proto m proto). port_permits p q n) \<longleftrightarrow> (\<exists>p \<in> snd ` set m. port_permits p q n)"
    (is "?L \<longleftrightarrow> ?R")
proof
  have "set (collapse_proto m proto) \<subseteq> set m" by (auto simp: collapse_proto_def Let_def)
  then show "?L \<Longrightarrow> ?R" by blast
next
  assume ?R
  then obtain k p where kp: "(k, p) \<in> set m" "port_permits p q n" by auto
  show ?L
  proof (cases "(k, p) \<in> set (collapse_proto m proto)")
    case True
    then show ?thesis using kp by force
  next
    case False
    then obtain a where a: "(proto @ '':Any'', a) \<in> set m" and k: "strings_HasPrefix k (proto @ '':'')"
      using kp(1) by (auto simp: collapse_proto_def Let_def split: if_splits dest: map_of_SomeD)
    have any: "mp_Protocol a = Some proto" "mp_Port a = None"
      using any_key_port [OF doc plain_ports_mem [OF plain a] ports_wf_key [OF wf a] proto] by simp_all
    obtain r where r: "r \<in> {''TCP'', ''UDP'', ''SCTP''}" "mp_Protocol p = Some r" "k = r @ CHR '':'' # port_text pstr p"
      using plain_key [OF plain_ports_mem [OF plain kp(1)]] ports_wf_key [OF wf kp(1)] by metis
    obtain t where t: "k = proto @ CHR '':'' # t" using k by (auto simp: strings_HasPrefix_iff)
    have "CHR '':'' \<notin> set r" using r(1) by auto
    then have "r = proto" using r(3) t proto proto_split by metis
    then have "port_permits a q n" using kp(2) r(2) any by (simp add: port_permits_def)
    moreover have "(proto @ '':Any'', a) \<in> set (collapse_proto m proto)"
      using a by (auto simp: collapse_proto_def Let_def)
    ultimately show ?thesis by force
  qed
qed

lemma collapse_proto_plain: "plain_ports m \<Longrightarrow> plain_ports (collapse_proto m proto)"
  by (auto simp: collapse_proto_def Let_def plain_ports_def list_all_iff)

lemma collapse_permits:
  assumes "IntOrString_String_doc pstr" and "pset_wf pstr ps" and "plain_ports (ps_ports ps)"
  shows "pset_permits (collapse ps) proto n \<longleftrightarrow> pset_permits ps proto n"
    and "plain_ports (ps_ports (collapse ps))"
proof -
  let ?m = "ps_ports ps"
  let ?m1 = "collapse_proto ?m ''TCP''"
  let ?m2 = "collapse_proto ?m1 ''UDP''"
  have wf: "ports_wf pstr ?m" using assms(2) by (simp add: pset_wf_def)
  have "(\<exists>p \<in> snd ` set (collapse_proto ?m2 ''SCTP''). port_permits p proto n) \<longleftrightarrow>
    (\<exists>p \<in> snd ` set ?m. port_permits p proto n)"
    using collapse_proto_permits [OF assms(1)] wf assms(3) collapse_proto_plain collapse_proto_wf by simp
  then show "pset_permits (collapse ps) proto n \<longleftrightarrow> pset_permits ps proto n"
    unfolding pset_permits_def pset_ports_def by (simp add: collapse_def)
  show "plain_ports (ps_ports (collapse ps))"
    using assms(3) by (simp add: collapse_def collapse_proto_plain)
qed

lemma collapsed_map_permits:
  assumes "IntOrString_String_doc pstr" and "list_all plain_rule rules"
  shows "cmap_plain pstr (collapsed_map pstr rules)"
    and "cmap_permits (collapsed_map pstr rules) c proto n \<longleftrightarrow> egress_permits rules c proto n"
proof -
  have "cmap_plain pstr []" "\<not> cmap_permits [] c proto n"
    by (simp_all add: cmap_plain_def cmap_wf_def cmap_permits_def)
  with add_rules_permits [OF assms, of "[]" c proto n]
  have m: "cmap_plain pstr (add_rules pstr [] rules)"
    and p: "cmap_permits (add_rules pstr [] rules) c proto n \<longleftrightarrow> egress_permits rules c proto n"
    by simp_all
  have "list_all rule_wf rules" using assms(2) by (simp add: plain_rule_def list_all_iff)
  then have "cmap_wf pstr (collapsed_map pstr rules)" by (rule collapsed_map_wf)
  then show "cmap_plain pstr (collapsed_map pstr rules)"
    using cmap_plain_mem [OF m] collapse_permits(2) [OF assms(1)]
    by (fastforce simp: cmap_plain_def collapsed_map_def list_all_iff)
  show "cmap_permits (collapsed_map pstr rules) c proto n \<longleftrightarrow> egress_permits rules c proto n"
    using p collapse_permits(1) [OF assms(1)] cmap_plain_mem [OF m]
    by (auto simp: cmap_permits_def collapsed_map_lookup dest: map_of_SomeD split: option.splits)
qed

subsection \<open>Slices and fingerprints\<close>

interpretation port_order: key_order "port_less pstr" "getSinglePortKey pstr" for pstr
  by unfold_locales (simp add: port_less_def)

lemma port_slice_set:
  assumes "dedup_order_ok ord" and "pset_wf pstr ps"
  shows "set (port_slice pstr ord c ps) = pset_ports ps" and "port_slice pstr ord c ps = [] \<longleftrightarrow> ps_allowAll ps"
proof -
  have r: "reordering (do_ports ord c)" using assms(1) by (simp add: dedup_order_ok_def)
  show set_eq: "set (port_slice pstr ord c ps) = pset_ports ps"
    using assms(2) reordering_set [OF r] unfolding port_slice_def pset_ports_def pset_wf_def
    by (auto simp: port_order.stable_set)
  show "port_slice pstr ord c ps = [] \<longleftrightarrow> ps_allowAll ps"
    using set_eq assms(2) unfolding pset_ports_def pset_wf_def by (metis image_is_empty set_empty)
qed

lemma port_slice_order:
  assumes "dedup_order_ok ord" and "dedup_order_ok ord'" and "pset_wf pstr ps"
  shows "port_slice pstr ord c ps = port_slice pstr ord' c ps"
proof -
  have r: "reordering (do_ports ord c)" "reordering (do_ports ord' c)"
    using assms by (simp_all add: dedup_order_ok_def)
  have "inj_on (getSinglePortKey pstr) (snd ` set (ps_ports ps))"
    using ports_wf_inj [of pstr "ps_ports ps"] assms(3) by (simp add: pset_wf_def)
  then have "sort_SliceStable (port_less pstr) (map snd (do_ports ord c (ps_ports ps))) =
    sort_SliceStable (port_less pstr) (map snd (do_ports ord' c (ps_ports ps)))"
    using r by (intro port_order.stable_unique) (simp_all add: reorder_simps)
  then show ?thesis by (simp add: port_slice_def)
qed

lemma port_slice_sorted: "sorted (map (getSinglePortKey pstr) (port_slice pstr ord c ps))"
  by (simp add: port_slice_def port_order.stable_sorted)

lemma fingerprint_inject:
  assumes "IntOrString_String_doc pstr" and "\<forall>p \<in> set ps \<union> set qs. plain_port p"
    and sorted: "sorted (map (getSinglePortKey pstr) ps)" "sorted (map (getSinglePortKey pstr) qs)"
    and eq: "getPortsFingerprint pstr ps = getPortsFingerprint pstr qs"
  shows "ps = qs"
proof -
  let ?k = "getSinglePortKey pstr"
  have fp: "getPortsFingerprint pstr xs = (if xs = [] then ''All ports'' else strings_Join (map ?k xs) '','')"
    if "sorted (map ?k xs)" for xs
    using that by (simp add: getPortsFingerprint_def sort_Strings_eq sorted_sort_id)
  have colon: "strings_Join (map ?k xs) '','' \<noteq> ''All ports''" if ne: "xs \<noteq> []" and plain: "\<forall>p \<in> set xs. plain_port p" for xs
  proof -
    obtain y ys where "xs = y # ys" using ne by (cases xs) auto
    then have "CHR '':'' \<in> set (strings_Join (map ?k xs) '','')"
      using plain_key_chars(2) [OF assms(1), of y] plain by (cases ys) auto
    then show ?thesis by auto
  qed
  have "map ?k ps = map ?k qs"
  proof (cases "ps = [] \<or> qs = []")
    case True
    then show ?thesis using eq colon [of ps] colon [of qs] assms(2) by (auto simp: fp sorted split: if_splits)
  next
    case False
    then show ?thesis
      using eq plain_key_chars(1) [OF assms(1)] assms(2)
      by (simp add: fp sorted) (subst (asm) strings_Join_inject, auto)
  qed
  moreover have "inj_on ?k (set ps \<union> set qs)"
    using plain_key_inject [OF assms(1)] assms(2) by (auto intro!: inj_onI)
  ultimately show ?thesis by (metis inj_on_map_eq_map)
qed

subsection \<open>The result\<close>

lemma entry_slice_inject:
  assumes "IntOrString_String_doc pstr" and "dedup_order_ok ord" and "cmap_plain pstr m"
    and "e \<in> set m" and "e' \<in> set m" and "entry_fp pstr ord e = entry_fp pstr ord e'"
  shows "entry_slice pstr ord e = entry_slice pstr ord e'"
proof -
  have plain: "p \<in> set (entry_slice pstr ord x) \<Longrightarrow> plain_port p" if x: "x \<in> set m" for x p
  proof -
    have "pset_wf pstr (snd x)" "plain_ports (ps_ports (snd x))"
      using cmap_plain_mem [OF assms(3), of "fst x" "snd x"] x by simp_all
    then show "p \<in> set (entry_slice pstr ord x) \<Longrightarrow> plain_port p"
      using port_slice_set(1) [OF assms(2)] plain_ports_mem
      by (fastforce simp: entry_slice_def pset_ports_def)
  qed
  show ?thesis
    using assms(1) plain [OF assms(4)] plain [OF assms(5)] assms(6)
    by (intro fingerprint_inject) (auto simp: entry_slice_def port_slice_sorted entry_fp_def)
qed

lemma grouped_rule_ports:
  assumes "IntOrString_String_doc pstr" and "dedup_order_ok ord" and "cmap_plain pstr m"
    and "set es = set m" and "e \<in> set m"
  shows "mer_Ports (grouped_rule pstr ord es (entry_fp pstr ord e)) = entry_slice pstr ord e"
proof -
  have "find (\<lambda>x. entry_fp pstr ord x = entry_fp pstr ord e) es \<noteq> None"
    unfolding find_None_iff using assms(4,5) by blast
  then obtain e' where e': "find (\<lambda>x. entry_fp pstr ord x = entry_fp pstr ord e) es = Some e'"
    by blast
  then have "e' \<in> set m" "entry_fp pstr ord e' = entry_fp pstr ord e"
    using assms(4) by (auto simp: find_Some_iff)
  then show ?thesis
    using entry_slice_inject [OF assms(1-3) _ assms(5)] e' by (simp add: grouped_rule_def)
qed

lemma grouped_rule_peers:
  "set (peer_cidrs (mer_To (grouped_rule pstr ord es f))) = fst ` {e \<in> set es. entry_fp pstr ord e = f}"
  "mer_To (grouped_rule pstr ord es f) = [] \<longleftrightarrow> (\<forall>e \<in> set es. entry_fp pstr ord e \<noteq> f)"
proof -
  have "sort xs = [] \<longleftrightarrow> xs = []" for xs :: "string list" by (metis length_0_conv length_sort)
  then show "mer_To (grouped_rule pstr ord es f) = [] \<longleftrightarrow> (\<forall>e \<in> set es. entry_fp pstr ord e \<noteq> f)"
    by (simp add: grouped_rule_def filter_empty_conv)
qed (simp add: grouped_rule_def)

lemma dedup_rule_peers:
  assumes "dedup_order_ok ord" and "x \<in> set (dedup_rules pstr ord rules)"
  shows "mer_To x \<noteq> []"
proof -
  let ?es = "do_cidrs ord (collapsed_map pstr rules)"
  obtain e where "e \<in> set ?es" "x = grouped_rule pstr ord ?es (entry_fp pstr ord e)"
    using assms(2) unfolding dedup_rules_eq [OF assms(1) refl] by auto
  then show ?thesis using grouped_rule_peers(2) by blast
qed

lemma dedup_permits_cidr:
  assumes "dedup_order_ok ord" and "egress_permits (dedup_rules pstr ord rules) c proto n"
  shows "c \<in> set (all_cidrs (dedup_rules pstr ord rules))"
  using assms(2) dedup_rule_peers [OF assms(1)]
  by (auto simp: egress_permits_def rule_permits_def all_cidrs_def)

lemma dedup_rules_permits:
  assumes doc: "IntOrString_String_doc pstr" and ord: "dedup_order_ok ord" and rules: "list_all plain_rule rules"
  shows "egress_permits (dedup_rules pstr ord rules) c proto n \<longleftrightarrow> egress_permits rules c proto n"
proof -
  let ?m = "collapsed_map pstr rules"
  define es where "es = do_cidrs ord ?m"
  have plain: "cmap_plain pstr ?m" by (rule collapsed_map_permits(1)) fact+
  have es: "set es = set ?m" using ord by (simp add: es_def dedup_order_ok_def reorder_simps)
  have slice: "ports_permit (entry_slice pstr ord (d, ps)) proto n \<longleftrightarrow> pset_permits ps proto n"
    if "(d, ps) \<in> set ?m" for d ps
    using port_slice_set [OF ord] cmap_plain_mem [OF plain that]
    by (simp add: entry_slice_def ports_permit_def pset_permits_def)
  have "rule_permits (grouped_rule pstr ord es (entry_fp pstr ord e)) c proto n \<longleftrightarrow>
      (\<exists>ps. (c, ps) \<in> set ?m \<and> entry_fp pstr ord (c, ps) = entry_fp pstr ord e) \<and>
      ports_permit (entry_slice pstr ord e) proto n" if "e \<in> set ?m" for e
    unfolding rule_permits_def grouped_rule_ports [OF doc ord plain es that] grouped_rule_peers es
    using that by force
  then have "egress_permits (dedup_rules pstr ord rules) c proto n \<longleftrightarrow>
    (\<exists>e \<in> set ?m. (\<exists>ps. (c, ps) \<in> set ?m \<and> entry_fp pstr ord (c, ps) = entry_fp pstr ord e) \<and>
      ports_permit (entry_slice pstr ord e) proto n)"
    by (simp add: dedup_rules_eq [OF ord es_def] egress_permits_def es)
  also have "\<dots> \<longleftrightarrow> (\<exists>ps. (c, ps) \<in> set ?m \<and> ports_permit (entry_slice pstr ord (c, ps)) proto n)"
    using entry_slice_inject [OF doc ord plain] by metis
  also have "\<dots> \<longleftrightarrow> cmap_permits ?m c proto n"
    using slice collapsed_map_distinct [of pstr rules]
    by (auto simp: cmap_permits_def split: option.splits dest: map_of_SomeD eq_key_imp_eq_value)
  also have "\<dots> \<longleftrightarrow> egress_permits rules c proto n" by (rule collapsed_map_permits(2)) fact+
  finally show ?thesis .
qed

lemma dedup_rules_order:
  assumes doc: "IntOrString_String_doc pstr" and ord: "dedup_order_ok ord" "dedup_order_ok ord'"
    and rules: "list_all plain_rule rules"
  shows "dedup_rules pstr ord rules = dedup_rules pstr ord' rules"
proof -
  let ?m = "collapsed_map pstr rules"
  have plain: "cmap_plain pstr ?m" by (rule collapsed_map_permits(1)) fact+
  define es where "es = do_cidrs ord ?m"
  define es' where "es' = do_cidrs ord' ?m"
  have mset: "mset es = mset ?m" "mset es' = mset ?m"
    using ord by (simp_all add: es_def es'_def dedup_order_ok_def reorder_simps)
  then have sets: "set es = set ?m" "set es' = set ?m" by (metis set_mset_mset)+
  have slice: "entry_slice pstr ord e = entry_slice pstr ord' e" if "e \<in> set ?m" for e
    unfolding entry_slice_def using that cmap_plain_mem [OF plain, of "fst e" "snd e"]
    by (intro port_slice_order ord) simp
  then have fp: "entry_fp pstr ord e = entry_fp pstr ord' e" if "e \<in> set ?m" for e
    using that by (simp add: entry_fp_def)
  have "grouped_rule pstr ord es f = grouped_rule pstr ord' es' f" if f: "f \<in> entry_fp pstr ord ` set ?m" for f
  proof -
    obtain e where e: "e \<in> set ?m" "f = entry_fp pstr ord e" using f by auto
    have "mset (filter (\<lambda>e. entry_fp pstr ord e = f) es) = mset (filter (\<lambda>e. entry_fp pstr ord' e = f) es')"
      unfolding mset_filter mset using fp by (intro filter_mset_cong0) auto
    then have m: "mset (map fst (filter (\<lambda>e. entry_fp pstr ord e = f) es)) =
      mset (map fst (filter (\<lambda>e. entry_fp pstr ord' e = f) es'))" by (simp only: mset_map)
    have "mer_To (grouped_rule pstr ord es f) = mer_To (grouped_rule pstr ord' es' f)"
      using sort_Strings_mset_cong [OF m] by (simp add: grouped_rule_def flip: sort_Strings_eq)
    moreover have "mer_Ports (grouped_rule pstr ord es f) = mer_Ports (grouped_rule pstr ord' es' f)"
      using grouped_rule_ports [OF doc ord(1) plain sets(1) e(1)] grouped_rule_ports [OF doc ord(2) plain sets(2) e(1)]
      by (simp add: e(2) slice [OF e(1)] fp [OF e(1)])
    ultimately show ?thesis by simp
  qed
  moreover have "entry_fp pstr ord ` set ?m = entry_fp pstr ord' ` set ?m" using fp by (auto intro!: image_cong)
  ultimately show ?thesis
    unfolding dedup_rules_eq [OF ord(1) es_def] dedup_rules_eq [OF ord(2) es'_def] sets by auto
qed

subsection \<open>Properties\<close>

definition mnp_egress :: "MultiNetworkPolicy \<Rightarrow> MnetEgressRule list" where
  "mnp_egress m = ms_Egress (mn_Spec m)"

definition sample_port :: "Protocol \<Rightarrow> int option \<Rightarrow> int32 option \<Rightarrow> MnetPort" where
  "sample_port q n e = \<lparr>mp_Port = map_option FromInt n, mp_Protocol = Some q, mp_EndPort = e\<rparr>"

definition sample_mnp_of :: "MnetEgressRule list \<Rightarrow> MultiNetworkPolicy" where
  "sample_mnp_of rules =
     \<lparr>mn_Name = ''np'', mn_Namespace = ''ns'', mn_Labels = [], mn_Annotations = [], mn_Owner = [],
      mn_Spec = \<lparr>ms_PodSelector = \<lparr>ls_MatchLabels = [], ls_MatchExpressions = []\<rparr>, ms_Ingress = [],
        ms_Egress = rules, ms_PolicyTypes = [''Egress'']\<rparr>\<rparr>"

text \<open>Three rules in which two blocks occur twice and one protocol is open on every port.\<close>

definition sample_egress :: "MnetEgressRule list" where
  "sample_egress =
     [\<lparr>mer_Ports = [sample_port ''TCP'' (Some 80) None], mer_To = map cidr_peer [''2.2.2.2/32'', ''1.1.1.1/32'']\<rparr>,
      \<lparr>mer_Ports = [sample_port ''UDP'' (Some 53) None, sample_port ''UDP'' None None], mer_To = map cidr_peer [''1.1.1.1/32'']\<rparr>,
      \<lparr>mer_Ports = [], mer_To = map cidr_peer [''3.3.3.3/32'', ''3.3.3.3/32'']\<rparr>]"

lemma sample_egress_plain: "list_all plain_rule sample_egress"
  by (simp add: sample_egress_def plain_rule_def rule_wf_cidr_peers plain_port_def sample_port_def
      rule_wf_def cidr_peer_def)

lemma sample_egress_wf: "list_all rule_wf sample_egress"
  using sample_egress_plain by (simp add: list_all_iff plain_rule_def)

lemma mnp_egress_sample [simp]: "mnp_egress (sample_mnp_of rules) = rules"
  by (simp add: mnp_egress_def sample_mnp_of_def)

lemma RemoveDuplicateCIDRs_result:
  assumes "dedup_order_ok ord" and "RemoveDuplicateCIDRsInMultiNetworkPolicy pstr ord (Some m) = Some m'"
  shows "mnp_egress m' = dedup_rules pstr ord (mnp_egress m)"
    and "m' = m\<lparr>mn_Spec := (mn_Spec m)\<lparr>ms_Egress := mnp_egress m'\<rparr>\<rparr>"
  using assms by (auto simp: RemoveDuplicateCIDRs_Some mnp_egress_def)

lemma RemoveDuplicateCIDRs_obtain:
  assumes "dedup_order_ok ord"
  obtains m' where "RemoveDuplicateCIDRsInMultiNetworkPolicy pstr ord (Some m) = Some m'"
  using assms by (simp add: RemoveDuplicateCIDRs_Some)

text \<open>
  (C9) Whatever the order in which Go iterates the maps, after the deduplication every CIDR block
  occurs in exactly one peer of exactly one rule, and the blocks that occur are those that occurred
  before: none is lost and none appears. Only the egress rules of the policy change.
\<close>

theorem dedup_distinct:
  assumes "dedup_order_ok ord" and "list_all rule_wf (mnp_egress m)"
    and "RemoveDuplicateCIDRsInMultiNetworkPolicy pstr ord (Some m) = Some m'"
  shows "distinct (all_cidrs (mnp_egress m')) \<and> set (all_cidrs (mnp_egress m')) = set (all_cidrs (mnp_egress m)) \<and>
    m' = m\<lparr>mn_Spec := (mn_Spec m)\<lparr>ms_Egress := mnp_egress m'\<rparr>\<rparr>"
  using dedup_cidrs_distinct [OF assms(1)] dedup_cidr_set [OF assms(1,2)]
    RemoveDuplicateCIDRs_result [OF assms(1,3)] by simp

theorem dedup_distinct_witness:
  "\<exists>m'. RemoveDuplicateCIDRsInMultiNetworkPolicy sample_pstr reverse_order (Some (sample_mnp_of sample_egress)) = Some m' \<and>
     distinct (all_cidrs (mnp_egress m')) \<and> set (all_cidrs (mnp_egress m')) = {''1.1.1.1/32'', ''2.2.2.2/32'', ''3.3.3.3/32''}"
proof -
  obtain m' where "RemoveDuplicateCIDRsInMultiNetworkPolicy sample_pstr reverse_order (Some (sample_mnp_of sample_egress)) = Some m'"
    by (rule RemoveDuplicateCIDRs_obtain [OF sample_orders_ok(2)])
  moreover from dedup_distinct [OF sample_orders_ok(2) _ this] sample_egress_wf
  have "distinct (all_cidrs (mnp_egress m'))" "set (all_cidrs (mnp_egress m')) = set (all_cidrs sample_egress)"
    by simp_all
  moreover have "set (all_cidrs sample_egress) = {''1.1.1.1/32'', ''2.2.2.2/32'', ''3.3.3.3/32''}"
    by (auto simp: all_cidrs_def sample_egress_def)
  ultimately show ?thesis by blast
qed

text \<open>
  (C4) When no port has an end port, the deduplication changes no decision of the policy: a CIDR
  block, protocol and port number are permitted after it exactly when they were permitted before,
  although rules are merged, split and reordered and ports that a whole-protocol entry covers are
  dropped.
\<close>

theorem dedup_permits:
  assumes "IntOrString_String_doc pstr" and "dedup_order_ok ord" and "list_all plain_rule (mnp_egress m)"
    and "RemoveDuplicateCIDRsInMultiNetworkPolicy pstr ord (Some m) = Some m'"
  shows "egress_permits (mnp_egress m') c proto n \<longleftrightarrow> egress_permits (mnp_egress m) c proto n"
  using dedup_rules_permits [OF assms(1-3)] RemoveDuplicateCIDRs_result [OF assms(2,4)] by simp

theorem dedup_permits_witness:
  "\<exists>m'. RemoveDuplicateCIDRsInMultiNetworkPolicy sample_pstr plain_order (Some (sample_mnp_of sample_egress)) = Some m' \<and>
     egress_permits (mnp_egress m') ''1.1.1.1/32'' ''UDP'' 500 \<and> \<not> egress_permits (mnp_egress m') ''2.2.2.2/32'' ''UDP'' 53"
proof -
  obtain m' where m': "RemoveDuplicateCIDRsInMultiNetworkPolicy sample_pstr plain_order (Some (sample_mnp_of sample_egress)) = Some m'"
    by (rule RemoveDuplicateCIDRs_obtain [OF sample_orders_ok(1)])
  have "egress_permits (mnp_egress m') c proto n \<longleftrightarrow> egress_permits sample_egress c proto n" for c proto n
    using dedup_permits [OF sample_pstr_doc sample_orders_ok(1) _ m'] sample_egress_plain by simp
  moreover have "egress_permits sample_egress ''1.1.1.1/32'' ''UDP'' 500" "\<not> egress_permits sample_egress ''2.2.2.2/32'' ''UDP'' 53"
    by (simp_all add: sample_egress_def rule_permits_def ports_permit_def port_permits_def sample_port_def)
  ultimately show ?thesis using m' by blast
qed

text \<open>
  (C27) When no port has an end port, the deduplication is deterministic: two runs on the same
  policy give the same policy, whatever the orders in which Go iterates the maps. The controller
  compares policies before it writes, so without this it would rewrite them for nothing.
\<close>

theorem dedup_order_irrelevant:
  assumes "IntOrString_String_doc pstr" and "dedup_order_ok ord" and "dedup_order_ok ord'"
    and "list_all plain_rule (mnp_egress m)"
  shows "RemoveDuplicateCIDRsInMultiNetworkPolicy pstr ord (Some m) =
    RemoveDuplicateCIDRsInMultiNetworkPolicy pstr ord' (Some m)"
  using dedup_rules_order [OF assms] assms(2,3) by (simp add: RemoveDuplicateCIDRs_Some mnp_egress_def)

theorem dedup_order_irrelevant_witness:
  "RemoveDuplicateCIDRsInMultiNetworkPolicy sample_pstr plain_order (Some (sample_mnp_of sample_egress)) =
   RemoveDuplicateCIDRsInMultiNetworkPolicy sample_pstr reverse_order (Some (sample_mnp_of sample_egress))"
  using sample_egress_plain
  by (intro dedup_order_irrelevant sample_pstr_doc sample_orders_ok) simp

lemma count_to_eq: "count_to n rules = n + int (sum_list (map (\<lambda>r. length (mer_To r)) rules))"
  by (induction n rules rule: count_to.induct) auto

text \<open>
  (C29) The number of addresses the controller reports after the deduplication is the number of
  distinct CIDR blocks of the policy it started from.
\<close>

theorem CountUniqueAddresses_dedup:
  assumes "dedup_order_ok ord" and "list_all rule_wf (mnp_egress m)"
  shows "CountUniqueAddresses (RemoveDuplicateCIDRsInMultiNetworkPolicy pstr ord (Some m)) =
    int (card (set (all_cidrs (mnp_egress m))))"
proof -
  let ?rs = "dedup_rules pstr ord (mnp_egress m)"
  have "sum_list (map (\<lambda>r. length (mer_To r)) ?rs) = length (all_cidrs ?rs)"
    unfolding dedup_rules_eq [OF assms(1) refl]
    by (simp add: all_cidrs_def length_concat grouped_rule_def comp_def)
  also have "\<dots> = card (set (all_cidrs (mnp_egress m)))"
    using distinct_card [OF dedup_cidrs_distinct [OF assms(1)]] dedup_cidr_set [OF assms] by metis
  finally show ?thesis
    using assms(1) by (simp add: RemoveDuplicateCIDRs_Some CountUniqueAddresses_def count_to_eq mnp_egress_def)
qed

theorem CountUniqueAddresses_dedup_witness:
  "CountUniqueAddresses (RemoveDuplicateCIDRsInMultiNetworkPolicy sample_pstr plain_order (Some (sample_mnp_of sample_egress))) = 3"
proof -
  have "set (all_cidrs sample_egress) = {''1.1.1.1/32'', ''2.2.2.2/32'', ''3.3.3.3/32''}"
    by (auto simp: all_cidrs_def sample_egress_def)
  then show ?thesis
    using CountUniqueAddresses_dedup [OF sample_orders_ok(1), of "sample_mnp_of sample_egress" sample_pstr] sample_egress_wf
    by simp
qed

text \<open>Two rules that differ in the end port only: port 80 for one block, 80 to 90 for the other.\<close>

definition endport_egress :: "MnetEgressRule list" where
  "endport_egress =
     [\<lparr>mer_Ports = [sample_port ''TCP'' (Some 80) None], mer_To = [cidr_peer ''1.1.1.1/32'']\<rparr>,
      \<lparr>mer_Ports = [sample_port ''TCP'' (Some 80) (Some 90)], mer_To = [cidr_peer ''3.3.3.3/32'']\<rparr>]"

text \<open>
  (C28) Because the key of a port leaves its end port out, the deduplication can open ports: from a
  policy that permits 1.1.1.1/32 on port 80 only, one iteration order yields a policy that permits
  it on port 85, while another closes port 85 of 3.3.3.3/32, which the policy permitted.
\<close>

theorem dedup_endport_merged:
  "\<not> egress_permits endport_egress ''1.1.1.1/32'' ''TCP'' 85 \<and>
   egress_permits (dedup_rules sample_pstr reverse_order endport_egress) ''1.1.1.1/32'' ''TCP'' 85 \<and>
   egress_permits endport_egress ''3.3.3.3/32'' ''TCP'' 85 \<and>
   \<not> egress_permits (dedup_rules sample_pstr plain_order endport_egress) ''3.3.3.3/32'' ''TCP'' 85"
proof -
  have r: "dedup_rules sample_pstr reverse_order endport_egress =
     [\<lparr>mer_Ports = [sample_port ''TCP'' (Some 80) (Some 90)], mer_To = map cidr_peer [''1.1.1.1/32'', ''3.3.3.3/32'']\<rparr>]"
    and p: "dedup_rules sample_pstr plain_order endport_egress =
     [\<lparr>mer_Ports = [sample_port ''TCP'' (Some 80) None], mer_To = map cidr_peer [''1.1.1.1/32'', ''3.3.3.3/32'']\<rparr>]"
    by code_simp+
  show ?thesis unfolding r p
    by (simp add: endport_egress_def rule_permits_def ports_permit_def port_permits_def sample_port_def)
qed

end
