(* ===== verification/Operations.thy ===== *)
theory Operations
  imports Prelude
begin

text \<open>
  \<open>pkg/utils/map.go\<close> and \<open>pkg/utils/operation.go\<close>: the inclusion test on string maps and the reasons
  and messages of the events the controller records.

  \<open>reflect.TypeOf\<close> gives the dynamic type of an object, \<open>None\<close> for the nil interface; of a type the
  code reads only whether it is a pointer, its element type and its name, which is empty for an
  unnamed type. \<open>OperationResult\<close> is the string type of the controller runtime with its five
  constants; \<open>OperationResultOther\<close> stands for every other string.

  Shown: \<open>MapContains\<close> decides inclusion whatever the iteration order, and the event of an operation
  identifies it (\<open>OperationReason_identifies\<close>).
\<close>

subsection \<open>Map inclusion\<close>

fun contains_loop :: "('k, 'v) gomap \<Rightarrow> ('k \<times> 'v) list \<Rightarrow> bool" where
  "contains_loop superMap [] = True"
| "contains_loop superMap ((k, v) # rest) =
     (case gm_lookup superMap k of
        None \<Rightarrow> False
      | Some actual \<Rightarrow> if actual \<noteq> v then False else contains_loop superMap rest)"

definition MapContains ::
  "((string \<times> string) list \<Rightarrow> (string \<times> string) list) \<Rightarrow> (string, string) gomap \<Rightarrow> (string, string) gomap \<Rightarrow> bool" where
  "MapContains order superMap subMap =
     (if length superMap < length subMap then False else contains_loop superMap (order subMap))"

lemma contains_loop_iff: "contains_loop superMap xs \<longleftrightarrow> (\<forall>(k, v) \<in> set xs. gm_lookup superMap k = Some v)"
  by (induction superMap xs rule: contains_loop.induct) (auto split: option.splits)

lemma map_le_iff: "gm_wf m \<Longrightarrow> gm_lookup m \<subseteq>\<^sub>m f \<longleftrightarrow> (\<forall>(k, v) \<in> set m. f k = Some v)"
  unfolding map_le_def gm_wf_def by (force simp: dom_map_of_conv_image_fst)

lemma map_le_length:
  assumes "gm_wf m" and "gm_wf n" and "gm_lookup m \<subseteq>\<^sub>m gm_lookup n"
  shows "length m \<le> length n"
proof -
  have "set (map fst m) \<subseteq> set (map fst n)"
    using map_le_implies_dom_le [OF assms(3)] by (simp add: dom_map_of_conv_image_fst)
  then have "card (set (map fst m)) \<le> card (set (map fst n))" by (intro card_mono) simp_all
  with assms(1,2) show ?thesis unfolding gm_wf_def by (simp only: distinct_card length_map)
qed

text \<open>
  \<open>MapContains\<close> decides whether every entry of the second map is an entry of the first, for every
  iteration order; the early exit on the sizes never changes the answer.
\<close>

lemma MapContains_iff:
  assumes "gm_wf superMap" and "gm_wf subMap" and "reordering order"
  shows "MapContains order superMap subMap \<longleftrightarrow> gm_lookup subMap \<subseteq>\<^sub>m gm_lookup superMap"
proof -
  have "contains_loop superMap (order subMap) \<longleftrightarrow> gm_lookup subMap \<subseteq>\<^sub>m gm_lookup superMap"
    using assms by (simp add: contains_loop_iff map_le_iff reorder_simps)
  then show ?thesis using map_le_length [OF assms(2,1)] by (auto simp: MapContains_def)
qed

subsection \<open>Event reasons and messages\<close>

datatype go_type = Named string | Pointer go_type | Unnamed

fun type_Name :: "go_type \<Rightarrow> string" where
  "type_Name (Named n) = n"
| "type_Name (Pointer t) = ''''"
| "type_Name Unnamed = ''''"

definition typeName :: "go_type option \<Rightarrow> string" where
  "typeName obj =
     (case obj of
        None \<Rightarrow> ''Unknown''
      | Some t \<Rightarrow> type_Name (case t of Pointer e \<Rightarrow> e | _ \<Rightarrow> t))"

datatype OperationResult =
  OperationResultNone | OperationResultCreated | OperationResultUpdated
  | OperationResultUpdatedStatus | OperationResultUpdatedStatusOnly | OperationResultOther string

definition OperationErrorReason :: "go_type option \<Rightarrow> string" where
  "OperationErrorReason object = typeName object @ ''Error''"

definition OperationReason :: "go_type option \<Rightarrow> OperationResult \<Rightarrow> string" where
  "OperationReason object op =
     (let reason = (case op of
          OperationResultCreated \<Rightarrow> ''Created''
        | OperationResultUpdated \<Rightarrow> ''Updated''
        | OperationResultUpdatedStatus \<Rightarrow> ''StatusUpdated''
        | OperationResultUpdatedStatusOnly \<Rightarrow> ''StatusUpdated''
        | OperationResultNone \<Rightarrow> ''Unchanged''
        | OperationResultOther _ \<Rightarrow> '''')
      in typeName object @ reason)"

definition OperationMessage :: "go_type option \<Rightarrow> OperationResult \<Rightarrow> string" where
  "OperationMessage object op =
     (let message = (case op of
          OperationResultCreated \<Rightarrow> ''was created''
        | OperationResultUpdated \<Rightarrow> ''was updated''
        | OperationResultUpdatedStatus \<Rightarrow> ''had its status updated''
        | OperationResultUpdatedStatusOnly \<Rightarrow> ''had its status updated''
        | OperationResultNone \<Rightarrow> ''is unchanged''
        | OperationResultOther _ \<Rightarrow> '''')
      in typeName object @ '' '' @ message)"

definition DeletionReason :: "go_type option \<Rightarrow> string" where
  "DeletionReason object = typeName object @ ''Deleted''"

definition DeletionMessage :: "go_type option \<Rightarrow> string" where
  "DeletionMessage object = typeName object @ '' was removed''"

text \<open>The dynamic type of the objects the controller passes.\<close>

definition mnp_type :: "go_type option" where
  "mnp_type = Some (Pointer (Named ''MultiNetworkPolicy''))"

definition is_status_update :: "OperationResult \<Rightarrow> bool" where
  "is_status_update op \<longleftrightarrow> op = OperationResultUpdatedStatus \<or> op = OperationResultUpdatedStatusOnly"

definition is_other :: "OperationResult \<Rightarrow> bool" where
  "is_other op = (case op of OperationResultOther _ \<Rightarrow> True | _ \<Rightarrow> False)"

text \<open>
  The reason of an event identifies what happened to the object: two operations have the same
  reason exactly when they are equal, both are status updates or both are unknown, and no operation
  has the reason of an error or of a deletion.
\<close>

lemma OperationReason_identifies:
  "(OperationReason obj op = OperationReason obj op' \<longleftrightarrow>
      op = op' \<or> (is_status_update op \<and> is_status_update op') \<or> (is_other op \<and> is_other op')) \<and>
   OperationReason obj op \<noteq> OperationErrorReason obj \<and> OperationReason obj op \<noteq> DeletionReason obj \<and>
   OperationErrorReason obj \<noteq> DeletionReason obj"
  by (cases op; cases op')
    (simp_all add: OperationReason_def OperationErrorReason_def DeletionReason_def is_status_update_def is_other_def)

end
