(* ===== verification/Controller.thy ===== *)
theory Controller
  imports Retention Conditions Dedup_Correct Operations
begin

text \<open>
  \<open>internal/controller\<close>: the reconciler. \<open>Reconcile\<close> reads a NetworkPolicy, resolves its names, updates
  the statuses, applies the generated MultiNetworkPolicy and writes the status back.

  The state of the cluster is a type variable \<open>'w\<close>: every call of the Kubernetes client is a function
  of the record \<open>client\<close> from a cluster to a result and the next cluster, so other writers may act
  at every call. The record also holds the other functions of the Kubernetes libraries the code
  calls: \<open>SetControllerReference\<close>, \<open>meta.SetStatusCondition\<close>, \<open>equality.Semantic.DeepEqual\<close> at the two
  types it is used at, and \<open>IntOrString.String\<close>. Errors of the API machinery are known by their kind
  and message. The record \<open>choices\<close> holds what the runtime decides: the clock readings, the orders in
  which maps are iterated, and what the unstable \<open>sort.Slice\<close> does with ties.

  Events are returned in the order in which they are recorded. \<open>Reconcile\<close> returns \<open>None\<close> for the nil
  dereference in the aggregate message. Log calls are left out.
\<close>

subsection \<open>Kubernetes\<close>

datatype k8s_error = NotFoundError string | ConflictError string | OtherError string

fun k8s_Error :: "k8s_error \<Rightarrow> string" where
  "k8s_Error (NotFoundError m) = m"
| "k8s_Error (ConflictError m) = m"
| "k8s_Error (OtherError m) = m"

fun IsNotFound :: "k8s_error \<Rightarrow> bool" where
  "IsNotFound (NotFoundError _) = True"
| "IsNotFound _ = False"

fun IsConflict :: "k8s_error \<Rightarrow> bool" where
  "IsConflict (ConflictError _) = True"
| "IsConflict _ = False"

definition IgnoreNotFound :: "k8s_error \<Rightarrow> k8s_error option" where
  "IgnoreNotFound err = (if IsNotFound err then None else Some err)"

type_synonym ObjectKey = "string \<times> string"

type_synonym mutate_fn = "MultiNetworkPolicy \<Rightarrow> k8s_error + MultiNetworkPolicy"

record 'w client =
  cl_Get_np :: "ObjectKey \<Rightarrow> 'w \<Rightarrow> (k8s_error + NetworkPolicy) \<times> 'w"
  cl_Get_mnp :: "ObjectKey \<Rightarrow> 'w \<Rightarrow> (k8s_error + MultiNetworkPolicy) \<times> 'w"
  cl_Delete :: "MultiNetworkPolicy \<Rightarrow> 'w \<Rightarrow> k8s_error option \<times> 'w"
  cl_StatusUpdate :: "NetworkPolicy \<Rightarrow> 'w \<Rightarrow> k8s_error option \<times> 'w"
  cl_CreateOrUpdate :: "MultiNetworkPolicy \<Rightarrow> mutate_fn \<Rightarrow> 'w \<Rightarrow> (k8s_error + OperationResult) \<times> 'w"
  cl_SetControllerReference :: "NetworkPolicy \<Rightarrow> mutate_fn"
  cl_SetStatusCondition :: set_condition
  cl_SpecEqual :: "MultiNetworkPolicySpec \<Rightarrow> MultiNetworkPolicySpec \<Rightarrow> bool"
  cl_StatusEqual :: "NetworkPolicyStatus \<Rightarrow> NetworkPolicyStatus \<Rightarrow> bool"
  cl_IntOrString_String :: "IntOrString \<Rightarrow> string"

record 'w NetworkPolicyReconciler =
  rc_Client :: "'w client"
  rc_DNSResolver :: "Duration \<Rightarrow> int \<Rightarrow> NetworkType \<Rightarrow> FQDN list \<Rightarrow> DNSResolverResultList"
  rc_MaxConcurrentResolves :: int

record choices =
  ch_clock :: "nat \<Rightarrow> Time"
  ch_fqdns :: "FQDN list \<Rightarrow> FQDN list"
  ch_retain :: "FQDN \<Rightarrow> (string \<times> Time option) list \<Rightarrow> (string \<times> Time option) list"
  ch_dedup :: dedup_order
  ch_sort_np :: "FQDNStatus list \<Rightarrow> FQDNStatus list"
  ch_sort_prev :: "FQDNStatus list \<Rightarrow> FQDNStatus list"
  ch_addr_np :: "AddressEntry list \<Rightarrow> AddressEntry list"
  ch_addr_prev :: "AddressEntry list \<Rightarrow> AddressEntry list"

definition choices_ok :: "choices \<Rightarrow> bool" where
  "choices_ok ch \<longleftrightarrow> reordering (ch_fqdns ch) \<and> (\<forall>f. reordering (ch_retain ch f)) \<and> dedup_order_ok (ch_dedup ch) \<and>
     reordering (ch_sort_np ch) \<and> reordering (ch_sort_prev ch) \<and>
     reordering (ch_addr_np ch) \<and> reordering (ch_addr_prev ch)"

record Result =
  RequeueAfter :: Duration

definition no_requeue :: Result where
  "no_requeue = \<lparr>RequeueAfter = 0\<rparr>"

subsection \<open>Applying the policy\<close>

text \<open>
  The two loops that bring a label or annotation map in line: delete what is not wanted, set what is.
  Each loop touches every key on its own, so its order is immaterial.
\<close>

definition merge_map :: "(string, string) gomap \<Rightarrow> (string, string) gomap \<Rightarrow> (string, string) gomap" where
  "merge_map current wanted =
     foldl (\<lambda>m (k, v). gm_update k v m) (filter (\<lambda>(k, v). gm_lookup wanted k \<noteq> None) current) wanted"

definition creation_mutate :: "'w client \<Rightarrow> NetworkPolicy \<Rightarrow> MultiNetworkPolicy \<Rightarrow> mutate_fn" where
  "creation_mutate c np mnp current =
     (let c1 = current\<lparr>mn_Labels := merge_map (mn_Labels current) (mn_Labels mnp)\<rparr>;
          c2 = c1\<lparr>mn_Annotations := merge_map (mn_Annotations c1) (mn_Annotations mnp)\<rparr>;
          c3 = (if \<not> cl_SpecEqual c (mn_Spec c2) (mn_Spec mnp) then c2\<lparr>mn_Spec := mn_Spec mnp\<rparr> else c2)
      in cl_SetControllerReference c np c3)"

definition blank_mnp :: "string \<Rightarrow> string \<Rightarrow> MultiNetworkPolicy" where
  "blank_mnp name namespace =
     \<lparr>mn_Name = name, mn_Namespace = namespace, mn_Labels = [], mn_Annotations = [], mn_Owner = [],
      mn_Spec = \<lparr>ms_PodSelector = \<lparr>ls_MatchLabels = [], ls_MatchExpressions = []\<rparr>, ms_Ingress = [],
        ms_Egress = [], ms_PolicyTypes = []\<rparr>\<rparr>"

definition reconcileNetworkPolicyCreation ::
  "'w client \<Rightarrow> NetworkPolicy \<Rightarrow> MultiNetworkPolicy \<Rightarrow> 'w \<Rightarrow> k8s_error option \<times> Event list \<times> 'w" where
  "reconcileNetworkPolicyCreation c np mnp w =
     (let current = blank_mnp (np_Name np) (np_Namespace np)
      in case cl_CreateOrUpdate c current (creation_mutate c np mnp) w of
           (Inl err, w') \<Rightarrow>
             (Some err,
              [\<lparr>ev_Type = EventTypeWarning, ev_Reason = OperationErrorReason mnp_type, ev_Message = k8s_Error err\<rparr>], w')
         | (Inr op, w') \<Rightarrow>
             (None,
              if op \<noteq> OperationResultNone
              then [\<lparr>ev_Type = EventTypeNormal, ev_Reason = OperationReason mnp_type op,
                     ev_Message = OperationMessage mnp_type op\<rparr>]
              else [], w'))"

definition reconcileNetworkPolicyDeletion ::
  "'w client \<Rightarrow> NetworkPolicy \<Rightarrow> 'w \<Rightarrow> k8s_error option \<times> Event list \<times> 'w" where
  "reconcileNetworkPolicyDeletion c np w =
     (case cl_Get_mnp c (np_Namespace np, np_Name np) w of
        (Inl err, w1) \<Rightarrow> if IsNotFound err then (None, [], w1) else (Some err, [], w1)
      | (Inr mnp, w1) \<Rightarrow>
          (case cl_Delete c mnp w1 of
             (Some err, w2) \<Rightarrow> (IgnoreNotFound err, [], w2)
           | (None, w2) \<Rightarrow>
               (None, [\<lparr>ev_Type = EventTypeNormal, ev_Reason = DeletionReason mnp_type,
                        ev_Message = DeletionMessage mnp_type\<rparr>], w2)))"

subsection \<open>Writing the status\<close>

fun count_fqdns :: "int32 \<Rightarrow> int32 \<Rightarrow> FQDNStatus list \<Rightarrow> int32 \<times> int32" where
  "count_fqdns active failing [] = (active, failing)"
| "count_fqdns active failing (st # sts) =
     (if 0 < length (fs_Addresses st) then count_fqdns (active + 1) failing sts
      else count_fqdns active (failing + 1) sts)"

definition fqdn_less :: "FQDNStatus \<Rightarrow> FQDNStatus \<Rightarrow> bool" where
  "fqdn_less a b \<longleftrightarrow> fs_FQDN a < fs_FQDN b"

definition address_less :: "AddressEntry \<Rightarrow> AddressEntry \<Rightarrow> bool" where
  "address_less a b \<longleftrightarrow> ae_Address a < ae_Address b"

definition sortStatus ::
  "(FQDNStatus list \<Rightarrow> FQDNStatus list) \<Rightarrow> (AddressEntry list \<Rightarrow> AddressEntry list) \<Rightarrow>
   NetworkPolicyStatus \<Rightarrow> NetworkPolicyStatus" where
  "sortStatus r_fqdns r_addrs status =
     status\<lparr>st_FQDNs := map (\<lambda>st. st\<lparr>fs_Addresses := sort_Slice r_addrs address_less (fs_Addresses st)\<rparr>)
       (sort_Slice r_fqdns fqdn_less (st_FQDNs status))\<rparr>"

definition updateStatusIfNeeded ::
  "'w client \<Rightarrow> choices \<Rightarrow> NetworkPolicy \<Rightarrow> NetworkPolicy \<Rightarrow> 'w \<Rightarrow> k8s_error option \<times> NetworkPolicy \<times> 'w" where
  "updateStatusIfNeeded c ch np previous w =
     (let s1 = (np_Status np)\<lparr>st_ObservedGeneration := np_Generation np\<rparr>;
          (activeCount, failingCount) = count_fqdns 0 0 (st_FQDNs s1);
          s2 = s1\<lparr>st_ActiveFQDNCount := activeCount, st_FailingFQDNCount := failingCount\<rparr>;
          np' = np\<lparr>np_Status := sortStatus (ch_sort_np ch) (ch_addr_np ch) s2\<rparr>;
          previousStatus = sortStatus (ch_sort_prev ch) (ch_addr_prev ch) (np_Status previous)
      in if cl_StatusEqual c previousStatus (np_Status np') then (None, np', w)
         else (case cl_StatusUpdate c np' w of
             (Some err, w') \<Rightarrow> if IsConflict err then (None, np', w') else (Some err, np', w')
           | (None, w') \<Rightarrow> (None, np', w')))"

subsection \<open>Reconcile\<close>

text \<open>The policy to apply, and the two address counts of the status.\<close>

definition generate_policy ::
  "'w client \<Rightarrow> choices \<Rightarrow> int32 \<Rightarrow> NetworkPolicy \<Rightarrow> NetworkPolicy \<times> MultiNetworkPolicy option" where
  "generate_policy c ch rawResolvedCount np =
     (let mnp = RemoveDuplicateCIDRsInMultiNetworkPolicy (cl_IntOrString_String c) (ch_dedup ch)
            (ToMultiNetworkPolicy np (st_FQDNs (np_Status np)))
      in (np\<lparr>np_Status := (np_Status np)\<lparr>st_TotalAddressCount := rawResolvedCount,
            st_AppliedAddressCount := word_of_int (CountUniqueAddresses mnp)\<rparr>\<rparr>, mnp))"

text \<open>From the read policy to the policy with its new status and the policy to apply.\<close>

definition compute_policy ::
  "'w NetworkPolicyReconciler \<Rightarrow> choices \<Rightarrow> NetworkPolicy \<Rightarrow>
   (NetworkPolicy \<times> MultiNetworkPolicy option \<times> Event list) option" where
  "compute_policy r ch np =
     (let c = rc_Client r;
          previous = np;
          resolutionTimeout = duration_seconds (sint (sp_ResolutionTimeoutSeconds (np_Spec np)));
          results = rc_DNSResolver r resolutionTimeout (rc_MaxConcurrentResolves r)
            (sp_EnabledNetworkType (np_Spec np)) (FQDNs (ch_fqdns ch) np);
          rawResolvedCount = (of_nat (length (ResultList_CIDRs results)) :: int32);
          (statuses, events) = updateFQDNStatuses (ch_clock ch) (st_FQDNs (np_Status np)) results
            (sint (sp_RetryTimeoutSeconds (np_Spec np)));
          fqdns = retain_addresses (ch_retain ch) (ch_clock ch (2 * length results))
            (retentionDuration (np_Annotations np)) (st_FQDNs (np_Status previous)) results statuses;
          np1 = np\<lparr>np_Status := (np_Status np)\<lparr>st_FQDNs := fqdns\<rparr>\<rparr>;
          (np2, mnp) = generate_policy c ch rawResolvedCount np1
      in case AggregatedResolutionMessage results of
           None \<Rightarrow> None
         | Some message \<Rightarrow>
             Some (SetResolvedCondition (cl_SetStatusCondition c) (AggregatedResolutionStatus results) message np2,
                   mnp, events))"

definition finish ::
  "'w NetworkPolicyReconciler \<Rightarrow> choices \<Rightarrow> NetworkPolicy \<Rightarrow> NetworkPolicy \<Rightarrow> Result \<Rightarrow> 'w \<Rightarrow>
   (Result \<times> k8s_error option) \<times> 'w" where
  "finish r ch np previous result w =
     (case updateStatusIfNeeded (rc_Client r) ch np previous w of
        (Some err, _, w') \<Rightarrow> ((no_requeue, Some err), w')
      | (None, _, w') \<Rightarrow> ((result, None), w'))"

definition reconcile_no_egress ::
  "'w NetworkPolicyReconciler \<Rightarrow> choices \<Rightarrow> NetworkPolicy \<Rightarrow> NetworkPolicy \<Rightarrow> 'w \<Rightarrow>
   (Result \<times> k8s_error option) \<times> Event list \<times> 'w" where
  "reconcile_no_egress r ch np previous w =
     (if st_ObservedGeneration (np_Status np) = np_Generation np then ((no_requeue, None), [], w)
      else
        let np' = SetReadyConditionFalse (cl_SetStatusCondition (rc_Client r)) NetworkPolicyReadyFailure
              ''Network policy has no egress rules specified.'' np
        in case updateStatusIfNeeded (rc_Client r) ch np' previous w of
             (Some err, _, w') \<Rightarrow> ((no_requeue, Some err), [], w')
           | (None, np'', w') \<Rightarrow>
               (case reconcileNetworkPolicyDeletion (rc_Client r) np'' w' of
                  (Some err, evs, w'') \<Rightarrow> ((no_requeue, Some err), evs, w'')
                | (None, evs, w'') \<Rightarrow> ((no_requeue, None), evs, w'')))"

definition reconcile_apply ::
  "'w NetworkPolicyReconciler \<Rightarrow> choices \<Rightarrow> NetworkPolicy \<Rightarrow> NetworkPolicy \<Rightarrow> MultiNetworkPolicy \<Rightarrow> 'w \<Rightarrow>
   (Result \<times> k8s_error option) \<times> Event list \<times> 'w" where
  "reconcile_apply r ch np previous mnp w =
     (let setc = cl_SetStatusCondition (rc_Client r);
          ttl = \<lparr>RequeueAfter = duration_seconds (sint (sp_TTLSeconds (np_Spec np)))\<rparr>
      in case reconcileNetworkPolicyCreation (rc_Client r) np mnp w of
           (Some err, evs, w1) \<Rightarrow>
             let np' = SetReadyConditionFalse setc NetworkPolicyReadyFailure
                   (''Network policy failed to apply: '' @ k8s_Error err @ ''.'') np;
                 (res, w2) = finish r ch np' previous \<lparr>RequeueAfter = duration_seconds 60\<rparr> w1
             in (res, evs, w2)
         | (None, evs, w1) \<Rightarrow>
             let np' = (if IsEmpty (Some mnp)
                   then SetReadyConditionTrue setc NetworkPolicyReadyEmptyRules
                     ''Network policy has no FQDNs resolved to valid IP addresses, the default egress deny-all is in effect.'' np
                   else SetReadyConditionTrue setc NetworkPolicyReadySuccess ''Network policy was successfully applied.'' np);
                 (res, w2) = finish r ch np' previous ttl w1
             in (res, evs, w2))"

definition Reconcile ::
  "'w NetworkPolicyReconciler \<Rightarrow> choices \<Rightarrow> ObjectKey \<Rightarrow> 'w \<Rightarrow>
   ((Result \<times> k8s_error option) \<times> Event list \<times> 'w) option" where
  "Reconcile r ch key w =
     (case cl_Get_np (rc_Client r) key w of
        (Inl err, w1) \<Rightarrow>
          if IsNotFound err then Some ((no_requeue, None), [], w1)
          else Some ((no_requeue, IgnoreNotFound err), [], w1)
      | (Inr np, w1) \<Rightarrow>
          (case compute_policy r ch np of
             None \<Rightarrow> None
           | Some (np', mnp, events) \<Rightarrow>
               let (res, evs, w2) =
                 (case mnp of
                    None \<Rightarrow> reconcile_no_egress r ch np' np w1
                  | Some m \<Rightarrow> reconcile_apply r ch np' np m w1)
               in Some (res, events @ evs, w2)))"

end
