(* ===== verification/Resolve_Concurrency.thy ===== *)
theory Resolve_Concurrency
  imports Resolver
begin

text \<open>
  The goroutines of \<open>DNSResolver.Resolve\<close> as a step relation. The state holds the names still to
  be spawned, the phase of every goroutine, the number of tokens in the semaphore channel, the
  buffered result channel, the wait group, whether the channel is closed, whether the context is
  done, and the results collected so far. Every step is one action of one goroutine; the scheduler
  and the moment the context ends are not determined.

  \<open>L i\<close> is the behaviour of the DNS resolver as the \<open>i\<close>-th goroutine sees it, timeouts and
  cancellation of its child context included: each goroutine makes exactly one lookup.

  Shown: the invariant \<open>resolve_inv\<close> (the semaphore counts the lookups in flight and never exceeds
  its capacity; every goroutine sends exactly once; a send never blocks), progress, a measure that
  every step decreases, and that every run ends with one well-formed result per name.
\<close>

datatype phase = Waiting | Holding | Releasing | Returning | Finished

record resolve_state =
  rs_todo :: "FQDN list"
  rs_tasks :: "(FQDN \<times> phase) list"
  rs_sem :: nat
  rs_chan :: DNSResolverResultList
  rs_wg :: nat
  rs_closed :: bool
  rs_done :: bool
  rs_final :: DNSResolverResultList

definition resolve_init :: "bool \<Rightarrow> FQDN list \<Rightarrow> resolve_state" where
  "resolve_init ctx_done fqdns =
     \<lparr>rs_todo = fqdns, rs_tasks = [], rs_sem = 0, rs_chan = [], rs_wg = 0, rs_closed = False,
      rs_done = ctx_done, rs_final = []\<rparr>"

definition task_at :: "resolve_state \<Rightarrow> nat \<Rightarrow> FQDN \<Rightarrow> phase \<Rightarrow> bool" where
  "task_at s i f p \<longleftrightarrow> i < length (rs_tasks s) \<and> rs_tasks s ! i = (f, p)"

text \<open>\<open>cap\<close> is \<open>maxConcurrent\<close>, \<open>buf\<close> the capacity of the result channel.\<close>

inductive resolve_step ::
  "nat \<Rightarrow> nat \<Rightarrow> (nat \<Rightarrow> LookupIP) \<Rightarrow> NetworkType \<Rightarrow> resolve_state \<Rightarrow> resolve_state \<Rightarrow> bool"
  for cap buf L nt where
  spawn: "rs_todo s = f # fs \<Longrightarrow>
    resolve_step cap buf L nt s
      (s\<lparr>rs_todo := fs, rs_wg := rs_wg s + 1, rs_tasks := rs_tasks s @ [(f, Waiting)]\<rparr>)"
| acquire: "task_at s i f Waiting \<Longrightarrow> rs_sem s < cap \<Longrightarrow>
    resolve_step cap buf L nt s
      (s\<lparr>rs_sem := rs_sem s + 1, rs_tasks := (rs_tasks s)[i := (f, Holding)]\<rparr>)"
| canceled: "task_at s i f Waiting \<Longrightarrow> rs_done s \<Longrightarrow> length (rs_chan s) < buf \<Longrightarrow>
    resolve_step cap buf L nt s
      (s\<lparr>rs_chan := rs_chan s @ [canceled_result f], rs_tasks := (rs_tasks s)[i := (f, Returning)]\<rparr>)"
| lookup: "task_at s i f Holding \<Longrightarrow> length (rs_chan s) < buf \<Longrightarrow>
    resolve_step cap buf L nt s
      (s\<lparr>rs_chan := rs_chan s @ [lookup_result (L i) nt f], rs_tasks := (rs_tasks s)[i := (f, Releasing)]\<rparr>)"
| release: "task_at s i f Releasing \<Longrightarrow>
    resolve_step cap buf L nt s
      (s\<lparr>rs_sem := rs_sem s - 1, rs_tasks := (rs_tasks s)[i := (f, Returning)]\<rparr>)"
| wg_done: "task_at s i f Returning \<Longrightarrow>
    resolve_step cap buf L nt s
      (s\<lparr>rs_wg := rs_wg s - 1, rs_tasks := (rs_tasks s)[i := (f, Finished)]\<rparr>)"
| close: "rs_todo s = [] \<Longrightarrow> rs_wg s = 0 \<Longrightarrow> \<not> rs_closed s \<Longrightarrow>
    resolve_step cap buf L nt s (s\<lparr>rs_closed := True\<rparr>)"
| receive: "rs_todo s = [] \<Longrightarrow> rs_chan s = r # rest \<Longrightarrow>
    resolve_step cap buf L nt s (s\<lparr>rs_chan := rest, rs_final := rs_final s @ [r]\<rparr>)"
| ctx_done: "\<not> rs_done s \<Longrightarrow> resolve_step cap buf L nt s (s\<lparr>rs_done := True\<rparr>)"

text \<open>The range loop of the caller ends when the channel is closed and empty.\<close>

definition resolve_terminal :: "resolve_state \<Rightarrow> bool" where
  "resolve_terminal s \<longleftrightarrow> rs_todo s = [] \<and> rs_closed s \<and> rs_chan s = []"

text \<open>\<open>Resolve\<close> as a relation between its arguments and the list it returns.\<close>

inductive Resolve ::
  "nat \<Rightarrow> (nat \<Rightarrow> LookupIP) \<Rightarrow> NetworkType \<Rightarrow> FQDN list \<Rightarrow> DNSResolverResultList \<Rightarrow> bool"
  for cap L nt fqdns where
  none: "length fqdns = 0 \<Longrightarrow> Resolve cap L nt fqdns []"
| run: "length fqdns \<noteq> 0 \<Longrightarrow>
    (resolve_step cap (length fqdns) L nt)\<^sup>*\<^sup>* (resolve_init ctx_done fqdns) s \<Longrightarrow>
    resolve_terminal s \<Longrightarrow> Resolve cap L nt fqdns (rs_final s)"

subsection \<open>Counting\<close>

definition count_if :: "('a \<Rightarrow> bool) \<Rightarrow> 'a list \<Rightarrow> nat" where
  "count_if P xs = length (filter P xs)"

lemma count_if_simps [simp]:
  "count_if P [] = 0" "count_if P (xs @ ys) = count_if P xs + count_if P ys"
  "count_if P (x # xs) = (if P x then 1 else 0) + count_if P xs"
  by (simp_all add: count_if_def)

lemma count_if_update:
  "i < length xs \<Longrightarrow>
     count_if P (xs[i := y]) + (if P (xs ! i) then 1 else 0) = count_if P xs + (if P y then 1 else 0)"
proof (induction xs arbitrary: i)
  case (Cons x xs)
  then show ?case by (cases i) auto
qed simp

lemma count_if_pos: "i < length xs \<Longrightarrow> P (xs ! i) \<Longrightarrow> 0 < count_if P xs"
  by (auto simp: count_if_def filter_empty_conv)

lemma mset_filter_update:
  assumes "i < length xs" and "P y"
  shows "\<not> P (xs ! i) \<Longrightarrow> mset (map g (filter P (xs[i := y]))) = add_mset (g y) (mset (map g (filter P xs)))"
    and "P (xs ! i) \<Longrightarrow> g (xs ! i) = g y \<Longrightarrow> mset (map g (filter P (xs[i := y]))) = mset (map g (filter P xs))"
  using assms
proof (induction xs arbitrary: i)
  case (Cons x xs)
  { case 1 then show ?case using Cons.IH(1) by (cases i) auto }
  { case 2 then show ?case using Cons.IH(2) by (cases i) auto }
qed simp_all

lemma map_fst_update: "i < length xs \<Longrightarrow> fst (xs ! i) = f \<Longrightarrow> map fst (xs[i := (f, p)]) = map fst xs"
  by (simp add: map_update) (metis list_update_id nth_map)

subsection \<open>The invariant\<close>

definition in_flight :: "FQDN \<times> phase \<Rightarrow> bool" where
  "in_flight t \<longleftrightarrow> snd t = Holding \<or> snd t = Releasing"

definition has_sent :: "FQDN \<times> phase \<Rightarrow> bool" where
  "has_sent t \<longleftrightarrow> snd t \<in> {Releasing, Returning, Finished}"

definition unfinished :: "FQDN \<times> phase \<Rightarrow> bool" where
  "unfinished t \<longleftrightarrow> snd t \<noteq> Finished"

lemma phase_simps [simp]:
  "in_flight (f, p) \<longleftrightarrow> p = Holding \<or> p = Releasing"
  "has_sent (f, p) \<longleftrightarrow> p \<in> {Releasing, Returning, Finished}"
  "unfinished (f, p) \<longleftrightarrow> p \<noteq> Finished"
  by (simp_all add: in_flight_def has_sent_def unfinished_def)

definition resolve_inv :: "nat \<Rightarrow> FQDN list \<Rightarrow> resolve_state \<Rightarrow> bool" where
  "resolve_inv cap fqdns s \<longleftrightarrow>
     map fst (rs_tasks s) @ rs_todo s = fqdns \<and>
     rs_sem s = count_if in_flight (rs_tasks s) \<and> rs_sem s \<le> cap \<and>
     rs_wg s = count_if unfinished (rs_tasks s) \<and>
     mset (map rr_FQDN (rs_final s @ rs_chan s)) = mset (map fst (filter has_sent (rs_tasks s))) \<and>
     (rs_closed s \<longrightarrow> rs_todo s = [] \<and> rs_wg s = 0) \<and>
     list_all result_wf (rs_final s @ rs_chan s)"

lemma resolve_inv_init: "resolve_inv cap fqdns (resolve_init d fqdns)"
  by (simp add: resolve_inv_def resolve_init_def)

text \<open>A step that moves one goroutine from one phase to another.\<close>

lemma move_task:
  assumes "task_at s i f p"
  shows "map fst ((rs_tasks s)[i := (f, q)]) = map fst (rs_tasks s)"
    and "count_if P ((rs_tasks s)[i := (f, q)]) + (if P (f, p) then 1 else 0) =
      count_if P (rs_tasks s) + (if P (f, q) then 1 else 0)"
    and "P (f, q) \<Longrightarrow> \<not> P (f, p) \<Longrightarrow> mset (map fst (filter P ((rs_tasks s)[i := (f, q)]))) =
      add_mset f (mset (map fst (filter P (rs_tasks s))))"
    and "P (f, q) \<Longrightarrow> P (f, p) \<Longrightarrow> mset (map fst (filter P ((rs_tasks s)[i := (f, q)]))) =
      mset (map fst (filter P (rs_tasks s)))"
    and "\<not> P (f, q) \<Longrightarrow> \<not> P (f, p) \<Longrightarrow> filter P ((rs_tasks s)[i := (f, q)]) = filter P (rs_tasks s)"
proof -
  let ?ts = "rs_tasks s"
  have i: "i < length ?ts" "?ts ! i = (f, p)" using assms by (simp_all add: task_at_def)
  show "map fst (?ts[i := (f, q)]) = map fst ?ts" using i by (simp add: map_fst_update)
  show "count_if P (?ts[i := (f, q)]) + (if P (f, p) then 1 else 0) = count_if P ?ts + (if P (f, q) then 1 else 0)"
    using count_if_update [OF i(1), of P "(f, q)"] i by simp
  show "P (f, q) \<Longrightarrow> \<not> P (f, p) \<Longrightarrow> mset (map fst (filter P (?ts[i := (f, q)]))) =
      add_mset f (mset (map fst (filter P ?ts)))"
    using mset_filter_update(1) [OF i(1), of P "(f, q)" fst] i by simp
  show "P (f, q) \<Longrightarrow> P (f, p) \<Longrightarrow> mset (map fst (filter P (?ts[i := (f, q)]))) = mset (map fst (filter P ?ts))"
    using mset_filter_update(2) [OF i(1), of P "(f, q)" fst] i by simp
  have "\<not> P y \<Longrightarrow> \<not> P (xs ! j) \<Longrightarrow> j < length xs \<Longrightarrow> filter P (xs[j := y]) = filter P xs"
    for y j and xs :: "(FQDN \<times> phase) list"
  proof (induction xs arbitrary: j)
    case (Cons x xs)
    then show ?case by (cases j) auto
  qed simp
  then show "\<not> P (f, q) \<Longrightarrow> \<not> P (f, p) \<Longrightarrow> filter P (?ts[i := (f, q)]) = filter P ?ts" using i by simp
qed

lemma task_at_count: "task_at s i f p \<Longrightarrow> P (f, p) \<Longrightarrow> 0 < count_if P (rs_tasks s)"
  by (auto simp: task_at_def intro: count_if_pos)

lemma resolve_step_inv:
  assumes "resolve_step cap buf L nt s t" and "resolve_inv cap fqdns s" and "\<forall>i. foreign_lookup (L i)"
  shows "resolve_inv cap fqdns t"
  using assms(1)
proof cases
  case (spawn f fs)
  with assms(2) show ?thesis by (auto simp: resolve_inv_def simp del: mset_map mset_filter)
next
  case (acquire i f)
  note move = move_task [OF acquire(2), where q = Holding]
  show ?thesis
    using assms(2) acquire(1,3) move(1) move(2) [of in_flight] move(2) [of unfinished]
      move(5) [of has_sent] by (auto simp: resolve_inv_def simp del: mset_map mset_filter)
next
  case (canceled i f)
  note move = move_task [OF canceled(2), where q = Returning]
  show ?thesis
    using assms(2) canceled(1) move(1) move(2) [of in_flight] move(2) [of unfinished]
      move(3) [of has_sent] result_wf_canceled [of f] by (auto simp: resolve_inv_def simp del: mset_map mset_filter)
next
  case (lookup i f)
  note move = move_task [OF lookup(2), where q = Releasing]
  show ?thesis
    using assms(2) lookup(1) move(1) move(2) [of in_flight] move(2) [of unfinished]
      move(3) [of has_sent] result_wf_lookup [of "L i" nt f] assms(3)
    by (auto simp: resolve_inv_def simp del: mset_map mset_filter)
next
  case (release i f)
  note move = move_task [OF release(2), where q = Returning]
  show ?thesis
    using assms(2) release(1) move(1) move(2) [of in_flight] task_at_count [OF release(2), of in_flight] move(2) [of unfinished]
      move(4) [of has_sent] by (auto simp: resolve_inv_def simp del: mset_map mset_filter)
next
  case (wg_done i f)
  note move = move_task [OF wg_done(2), where q = Finished]
  show ?thesis
    using assms(2) wg_done(1) move(1) move(2) [of in_flight] move(2) [of unfinished] task_at_count [OF wg_done(2), of unfinished]
      move(4) [of has_sent] by (auto simp: resolve_inv_def simp del: mset_map mset_filter)
next
  case close
  with assms(2) show ?thesis by (auto simp: resolve_inv_def simp del: mset_map mset_filter)
next
  case (receive r rest)
  with assms(2) show ?thesis by (auto simp: resolve_inv_def simp del: mset_map mset_filter)
next
  case ctx_done
  with assms(2) show ?thesis by (auto simp: resolve_inv_def simp del: mset_map mset_filter)
qed

lemma resolve_run_inv:
  assumes "(resolve_step cap buf L nt)\<^sup>*\<^sup>* (resolve_init d fqdns) s" and "\<forall>i. foreign_lookup (L i)"
  shows "resolve_inv cap fqdns s"
  using assms(1)
proof (induction rule: rtranclp_induct)
  case base
  show ?case by (rule resolve_inv_init)
next
  case (step s t)
  then show ?case using resolve_step_inv assms(2) by blast
qed

text \<open>
  (C17) At every moment of every run, at most \<open>maxConcurrent\<close> lookups are in flight, and the
  semaphore channel holds exactly one token for each.
\<close>

theorem lookups_bounded:
  assumes "(resolve_step cap buf L nt)\<^sup>*\<^sup>* (resolve_init d fqdns) s" and "\<forall>i. foreign_lookup (L i)"
  shows "count_if in_flight (rs_tasks s) \<le> cap \<and> rs_sem s = count_if in_flight (rs_tasks s)"
  using resolve_run_inv [OF assms] by (simp add: resolve_inv_def)

subsection \<open>Termination\<close>

fun phase_weight :: "phase \<Rightarrow> nat" where
  "phase_weight Waiting = 6"
| "phase_weight Holding = 5"
| "phase_weight Releasing = 3"
| "phase_weight Returning = 2"
| "phase_weight Finished = 1"

definition resolve_measure :: "resolve_state \<Rightarrow> nat" where
  "resolve_measure s =
     7 * length (rs_todo s) + sum_list (map (\<lambda>t. phase_weight (snd t)) (rs_tasks s)) + length (rs_chan s) +
     (if rs_closed s then 0 else 1) + (if rs_done s then 0 else 1)"

lemma sum_list_update_less:
  assumes "i < length xs" and "g y + d \<le> (g (xs ! i) :: nat)"
  shows "sum_list (map g (xs[i := y])) + d \<le> sum_list (map g xs)"
  using assms
proof (induction xs arbitrary: i)
  case (Cons x xs)
  then show ?case by (cases i) fastforce+
qed simp

lemma move_weight:
  assumes "task_at s i f p" and "phase_weight q + d \<le> phase_weight p"
  shows "sum_list (map (\<lambda>t. phase_weight (snd t)) ((rs_tasks s)[i := (f, q)])) + d \<le>
    sum_list (map (\<lambda>t. phase_weight (snd t)) (rs_tasks s))"
  using assms sum_list_update_less [of i "rs_tasks s" "\<lambda>t. phase_weight (snd t)" "(f, q)" d]
  by (simp add: task_at_def)

lemma resolve_step_measure:
  assumes "resolve_step cap buf L nt s t"
  shows "resolve_measure t < resolve_measure s"
  using assms
proof cases
  case (acquire i f)
  with move_weight [OF acquire(2), of Holding 1] show ?thesis by (simp add: resolve_measure_def)
next
  case (canceled i f)
  with move_weight [OF canceled(2), of Returning 2] show ?thesis by (simp add: resolve_measure_def)
next
  case (lookup i f)
  with move_weight [OF lookup(2), of Releasing 2] show ?thesis by (simp add: resolve_measure_def)
next
  case (release i f)
  with move_weight [OF release(2), of Returning 1] show ?thesis by (simp add: resolve_measure_def)
next
  case (wg_done i f)
  with move_weight [OF wg_done(2), of Finished 1] show ?thesis by (simp add: resolve_measure_def)
qed (simp_all add: resolve_measure_def)

lemma resolve_run_length:
  assumes "((resolve_step cap buf L nt) ^^ k) s0 s"
  shows "resolve_measure s + k \<le> resolve_measure s0"
  using assms
proof (induction k arbitrary: s)
  case (Suc k)
  then obtain u where "(resolve_step cap buf L nt ^^ k) s0 u" "resolve_step cap buf L nt u s" by auto
  then show ?case using Suc.IH resolve_step_measure by fastforce
qed simp

subsection \<open>Progress and completeness\<close>

lemma task_at_mem: "task_at s i f p \<Longrightarrow> (f, p) \<in> set (rs_tasks s)"
  by (metis nth_mem task_at_def)

lemma count_if_task:
  assumes "0 < count_if P (rs_tasks s)"
  obtains i f p where "task_at s i f p" and "P (f, p)"
proof -
  obtain t where "t \<in> set (rs_tasks s)" "P t"
    using assms by (auto simp: count_if_def filter_empty_conv)
  then show ?thesis using that by (metis in_set_conv_nth surj_pair task_at_def)
qed

lemma sent_bound:
  assumes "resolve_inv cap fqdns s" and "task_at s i f p" and "\<not> has_sent (f, p)"
  shows "length (rs_chan s) < length fqdns"
proof -
  have "length (rs_final s @ rs_chan s) = length (filter has_sent (rs_tasks s))"
    using assms(1) by (metis resolve_inv_def length_map size_mset)
  moreover have "length (filter has_sent (rs_tasks s)) < length (rs_tasks s)"
    using task_at_mem [OF assms(2)] assms(3) by (intro length_filter_less)
  moreover have "length (rs_tasks s) \<le> length fqdns"
    using assms(1) by (auto simp: resolve_inv_def)
  ultimately show ?thesis by simp
qed

text \<open>Progress does not need the context to end.\<close>

lemma own_stepI:
  "resolve_step cap buf L nt s t \<Longrightarrow> rs_done t = rs_done s \<Longrightarrow> \<exists>t. resolve_step cap buf L nt s t \<and> rs_done t = rs_done s"
  by blast

lemma task_step:
  assumes inv: "resolve_inv cap fqdns s" and t: "task_at s i f p" and "p \<noteq> Finished"
    and cap: "0 < cap \<or> rs_done s"
  shows "\<exists>t. resolve_step cap (length fqdns) L nt s t \<and> rs_done t = rs_done s"
proof (cases p)
  case Waiting
  show ?thesis
  proof (cases "rs_sem s < cap")
    case True
    with t Waiting show ?thesis by (auto intro!: own_stepI [OF resolve_step.acquire])
  next
    case False
    show ?thesis
    proof (cases "rs_done s")
      case True
      with t Waiting sent_bound [OF inv t] show ?thesis
        by (intro own_stepI [OF resolve_step.canceled [of s i f]]) simp_all
    next
      case notdone: False
      then have "0 < count_if in_flight (rs_tasks s)" using cap inv False by (simp add: resolve_inv_def)
      then obtain j g q where j: "task_at s j g q" "q = Holding \<or> q = Releasing"
        using count_if_task [of in_flight s] by auto
      from j(2) show ?thesis
      proof
        assume "q = Holding"
        with j(1) sent_bound [OF inv j(1)] show ?thesis by (auto intro!: own_stepI [OF resolve_step.lookup])
      next
        assume "q = Releasing"
        with j(1) show ?thesis by (auto intro!: own_stepI [OF resolve_step.release])
      qed
    qed
  qed
next
  case Holding
  with t sent_bound [OF inv t] show ?thesis by (auto intro!: own_stepI [OF resolve_step.lookup])
next
  case Releasing
  with t show ?thesis by (auto intro!: own_stepI [OF resolve_step.release])
next
  case Returning
  with t show ?thesis by (auto intro!: own_stepI [OF resolve_step.wg_done])
qed (use assms(3) in simp)

lemma resolve_progress:
  assumes inv: "resolve_inv cap fqdns s" and "\<not> resolve_terminal s" and cap: "0 < cap \<or> rs_done s"
  shows "\<exists>t. resolve_step cap (length fqdns) L nt s t \<and> rs_done t = rs_done s"
proof (cases "rs_todo s")
  case (Cons f fs)
  then show ?thesis by (auto intro!: own_stepI [OF resolve_step.spawn])
next
  case todo: Nil
  consider r rest where "rs_chan s = r # rest"
    | i f p where "task_at s i f p" "p \<noteq> Finished"
    | "rs_chan s = []" "count_if unfinished (rs_tasks s) = 0"
  proof (cases "count_if unfinished (rs_tasks s) = 0")
    case True
    then show ?thesis using that by (cases "rs_chan s") blast+
  next
    case False
    then show ?thesis using that(2) count_if_task [of unfinished s] by auto
  qed
  then show ?thesis
  proof cases
    case 1
    with todo show ?thesis by (auto intro!: own_stepI [OF resolve_step.receive])
  next
    case 2
    with task_step [OF inv _ _ cap] show ?thesis by blast
  next
    case 3
    then have "\<not> rs_closed s" "rs_wg s = 0" using assms(2) todo inv
      by (auto simp: resolve_terminal_def resolve_inv_def)
    with todo show ?thesis by (auto intro!: own_stepI [OF resolve_step.close])
  qed
qed

lemma resolve_reaches_terminal:
  assumes "resolve_inv cap fqdns s" and "\<forall>i. foreign_lookup (L i)" and "0 < cap"
  shows "\<exists>t. (resolve_step cap (length fqdns) L nt)\<^sup>*\<^sup>* s t \<and> resolve_terminal t"
  using assms(1)
proof (induction "resolve_measure s" arbitrary: s rule: less_induct)
  case less
  show ?case
  proof (cases "resolve_terminal s")
    case False
    then obtain u where u: "resolve_step cap (length fqdns) L nt s u"
      using resolve_progress [OF less.prems False] assms(3) by blast
    then have "resolve_measure u < resolve_measure s" "resolve_inv cap fqdns u"
      using resolve_step_measure resolve_step_inv [OF u less.prems assms(2)] by blast+
    then obtain t where "(resolve_step cap (length fqdns) L nt)\<^sup>*\<^sup>* u t" "resolve_terminal t"
      using less.hyps by blast
    with u show ?thesis by (meson converse_rtranclp_into_rtranclp)
  qed auto
qed

text \<open>
  (C16) No deadlock: with at least one slot, a run of \<open>Resolve\<close> that has not returned can always take a
  step, and from every state it reaches it can come to its end; together with the decreasing measure,
  every run ends.
\<close>

theorem Resolve_no_deadlock:
  assumes "(resolve_step cap (length fqdns) L nt)\<^sup>*\<^sup>* (resolve_init d fqdns) s"
    and "\<forall>i. foreign_lookup (L i)" and "0 < cap"
  shows "(resolve_terminal s \<or> (\<exists>t. resolve_step cap (length fqdns) L nt s t)) \<and>
    (\<exists>t. (resolve_step cap (length fqdns) L nt)\<^sup>*\<^sup>* s t \<and> resolve_terminal t)"
  using resolve_progress resolve_reaches_terminal resolve_run_inv [OF assms(1,2)] assms(2,3) by blast

lemma terminal_results:
  assumes "resolve_inv cap fqdns s" and "resolve_terminal s"
  shows "mset (map rr_FQDN (rs_final s)) = mset fqdns \<and> list_all result_wf (rs_final s)"
proof -
  have "count_if unfinished (rs_tasks s) = 0" and todo: "rs_todo s = []" and chan: "rs_chan s = []"
    using assms by (auto simp: resolve_inv_def resolve_terminal_def)
  then have "\<forall>t \<in> set (rs_tasks s). has_sent t"
    by (auto simp: count_if_def filter_empty_conv)
  then have "filter has_sent (rs_tasks s) = rs_tasks s" by (simp add: filter_id_conv)
  with assms(1) todo chan show ?thesis by (auto simp: resolve_inv_def)
qed

lemma terminal_idle:
  assumes "resolve_inv cap fqdns s" and "resolve_terminal s"
  shows "map fst (rs_tasks s) = fqdns \<and> list_all (\<lambda>t. snd t = Finished) (rs_tasks s) \<and> rs_sem s = 0 \<and> rs_wg s = 0"
proof -
  have wg: "rs_wg s = 0" "count_if unfinished (rs_tasks s) = 0" and todo: "rs_todo s = []"
    using assms by (auto simp: resolve_inv_def resolve_terminal_def)
  then have fin: "\<forall>t \<in> set (rs_tasks s). snd t = Finished"
    by (auto simp: count_if_def filter_empty_conv unfinished_def)
  then have "count_if in_flight (rs_tasks s) = 0" by (auto simp: count_if_def filter_empty_conv in_flight_def)
  with assms(1) fin wg(1) todo show ?thesis by (simp add: resolve_inv_def list_all_iff)
qed

lemma Resolve_results:
  assumes "Resolve cap L nt fqdns rl" and "\<forall>i. foreign_lookup (L i)"
  shows "mset (map rr_FQDN rl) = mset fqdns \<and> list_all result_wf rl"
  using assms(1)
proof cases
  case (run d s)
  then show ?thesis
    using terminal_results [OF resolve_run_inv [OF run(3) assms(2)] run(4)] by simp
qed simp

text \<open>
  (C18) Total correctness of \<open>Resolve\<close>: with at least one slot no run for \<open>n\<close> names is longer than
  \<open>7 n + 2\<close> steps; and a run that cannot go on of itself, be the context done or not, has returned, with
  one well-formed result for every name, every goroutine finished, every slot given back and the wait
  group at zero.
\<close>

theorem Resolve_terminates:
  assumes "((resolve_step cap (length fqdns) L nt) ^^ k) (resolve_init d fqdns) s"
    and "\<forall>i. foreign_lookup (L i)" and "0 < cap"
  shows "k \<le> 7 * length fqdns + 2 \<and>
    ((\<nexists>t. resolve_step cap (length fqdns) L nt s t \<and> rs_done t = rs_done s) \<longrightarrow>
       resolve_terminal s \<and> mset (map rr_FQDN (rs_final s)) = mset fqdns \<and> list_all result_wf (rs_final s) \<and>
       map fst (rs_tasks s) = fqdns \<and> list_all (\<lambda>t. snd t = Finished) (rs_tasks s) \<and> rs_sem s = 0 \<and> rs_wg s = 0)"
proof -
  have "k \<le> 7 * length fqdns + 2"
    using resolve_run_length [OF assms(1)] by (simp add: resolve_init_def resolve_measure_def split: if_splits)
  moreover have inv: "resolve_inv cap fqdns s"
    using assms(1,2) resolve_run_inv by (meson relpowp_imp_rtranclp)
  moreover have "resolve_terminal s" if "\<nexists>t. resolve_step cap (length fqdns) L nt s t \<and> rs_done t = rs_done s"
    using resolve_progress [OF inv] assms(3) that by blast
  ultimately show ?thesis using terminal_results terminal_idle by blast
qed

text \<open>
  (C8) Whatever the scheduling, the context and the DNS answers do, the list \<open>Resolve\<close> returns holds
  exactly one result for every requested name, and every result is well formed: an error if and only
  if the status is not \<open>Success\<close>, and no addresses with an error.
\<close>

theorem Resolve_complete:
  assumes "Resolve cap L nt fqdns rl" and "\<forall>i. foreign_lookup (L i)"
  shows "mset (map rr_FQDN rl) = mset fqdns \<and> list_all result_wf rl"
  using assms by (rule Resolve_results)

subsection \<open>A sample run\<close>

definition sample_state ::
  "FQDN list \<Rightarrow> phase list \<Rightarrow> nat \<Rightarrow> DNSResolverResultList \<Rightarrow> nat \<Rightarrow> bool \<Rightarrow> DNSResolverResultList \<Rightarrow> resolve_state" where
  "sample_state todo ps sem chan wg closed final =
     \<lparr>rs_todo = todo, rs_tasks = map (Pair ''a.io'') ps, rs_sem = sem, rs_chan = chan, rs_wg = wg,
      rs_closed = closed, rs_done = False, rs_final = final\<rparr>"

abbreviation sample_step :: "resolve_state \<Rightarrow> resolve_state \<Rightarrow> bool" where
  "sample_step \<equiv> resolve_step 1 1 (\<lambda>i. sample_lookup) IPv4"

lemma sample_init: "resolve_init False [''a.io''] = sample_state [''a.io''] [] 0 [] 0 False []"
  by (simp add: resolve_init_def sample_state_def)

lemma sample_first_steps:
  "sample_step\<^sup>*\<^sup>* (resolve_init False [''a.io'']) (sample_state [] [Holding] 1 [] 1 False [])"
proof -
  have 1: "sample_step (sample_state [''a.io''] [] 0 [] 0 False []) (sample_state [] [Waiting] 0 [] 1 False [])"
    using resolve_step.spawn [of "sample_state [''a.io''] [] 0 [] 0 False []"] by (simp add: sample_state_def)
  have 2: "sample_step (sample_state [] [Waiting] 0 [] 1 False []) (sample_state [] [Holding] 1 [] 1 False [])"
    using resolve_step.acquire [of "sample_state [] [Waiting] 0 [] 1 False []" 0 "''a.io''"]
    by (simp add: sample_state_def task_at_def)
  show ?thesis unfolding sample_init
    by (rule rtranclp.rtrancl_into_rtrancl [OF r_into_rtranclp [where r = sample_step, OF 1] 2])
qed

lemma sample_last_steps:
  "sample_step\<^sup>*\<^sup>* (sample_state [] [Holding] 1 [] 1 False [])
     (sample_state [] [Finished] 0 [] 0 True [lookup_result sample_lookup IPv4 ''a.io''])"
proof -
  let ?r = "lookup_result sample_lookup IPv4 ''a.io''"
  have 1: "sample_step (sample_state [] [Holding] 1 [] 1 False []) (sample_state [] [Releasing] 1 [?r] 1 False [])"
    using resolve_step.lookup [of "sample_state [] [Holding] 1 [] 1 False []" 0 "''a.io''" 1 1 "\<lambda>i. sample_lookup" IPv4]
    by (simp add: sample_state_def task_at_def)
  have 2: "sample_step \<dots> (sample_state [] [Returning] 0 [?r] 1 False [])"
    using resolve_step.release [of "sample_state [] [Releasing] 1 [?r] 1 False []" 0 "''a.io''"]
    by (simp add: sample_state_def task_at_def)
  have 3: "sample_step \<dots> (sample_state [] [Finished] 0 [?r] 0 False [])"
    using resolve_step.wg_done [of "sample_state [] [Returning] 0 [?r] 1 False []" 0 "''a.io''"]
    by (simp add: sample_state_def task_at_def)
  have 4: "sample_step \<dots> (sample_state [] [Finished] 0 [?r] 0 True [])"
    using resolve_step.close [of "sample_state [] [Finished] 0 [?r] 0 False []"] by (simp add: sample_state_def)
  have 5: "sample_step \<dots> (sample_state [] [Finished] 0 [] 0 True [?r])"
    using resolve_step.receive [of "sample_state [] [Finished] 0 [?r] 0 True []"] by (simp add: sample_state_def)
  show ?thesis
    by (rule converse_rtranclp_into_rtranclp [where r = sample_step], rule 1,
        rule converse_rtranclp_into_rtranclp [where r = sample_step], rule 2,
        rule converse_rtranclp_into_rtranclp [where r = sample_step], rule 3,
        rule converse_rtranclp_into_rtranclp [where r = sample_step], rule 4,
        rule r_into_rtranclp [where r = sample_step], rule 5)
qed

lemma sample_Resolve:
  "Resolve 1 (\<lambda>i. sample_lookup) IPv4 [''a.io''] [lookup_result sample_lookup IPv4 ''a.io'']"
  using Resolve.run [of "[''a.io'']" 1 "\<lambda>i. sample_lookup" IPv4 False
      "sample_state [] [Finished] 0 [] 0 True [lookup_result sample_lookup IPv4 ''a.io'']"]
    rtranclp_trans [OF sample_first_steps sample_last_steps]
  by (simp add: resolve_terminal_def sample_state_def)

theorem lookups_bounded_witness:
  "count_if in_flight (rs_tasks (sample_state [] [Holding] 1 [] 1 False [])) \<le> 1 \<and>
   rs_sem (sample_state [] [Holding] 1 [] 1 False []) = 1"
  using lookups_bounded [OF sample_first_steps] sample_lookup_foreign by (simp add: sample_state_def)

lemma sample_end:
  "sample_step (sample_state [] [Finished] 0 [] 0 True final) t \<Longrightarrow> rs_done t"
  by (erule resolve_step.cases) (auto simp: sample_state_def task_at_def)

theorem Resolve_terminates_witness:
  "\<exists>k. (sample_step ^^ k) (resolve_init False [''a.io''])
       (sample_state [] [Finished] 0 [] 0 True [lookup_result sample_lookup IPv4 ''a.io'']) \<and> k \<le> 9 \<and>
     resolve_terminal (sample_state [] [Finished] 0 [] 0 True [lookup_result sample_lookup IPv4 ''a.io'']) \<and>
     rs_sem (sample_state [] [Finished] 0 [] 0 True [lookup_result sample_lookup IPv4 ''a.io'']) = 0"
proof -
  let ?s = "sample_state [] [Finished] 0 [] 0 True [lookup_result sample_lookup IPv4 ''a.io'']"
  obtain k where k: "(sample_step ^^ k) (resolve_init False [''a.io'']) ?s"
    using rtranclp_imp_relpowp [OF rtranclp_trans [OF sample_first_steps sample_last_steps]] by blast
  have "\<not> rs_done ?s" by (simp add: sample_state_def)
  then have "\<nexists>t. sample_step ?s t \<and> rs_done t = rs_done ?s" using sample_end by blast
  with Resolve_terminates [of k 1 "[''a.io'']" "\<lambda>i. sample_lookup" IPv4 False ?s] k sample_lookup_foreign
  have "k \<le> 9" "resolve_terminal ?s" "rs_sem ?s = 0" by simp_all
  with k show ?thesis by blast
qed

theorem Resolve_no_deadlock_witness:
  "\<exists>t. sample_step\<^sup>*\<^sup>* (sample_state [] [Holding] 1 [] 1 False []) t \<and> resolve_terminal t"
  using Resolve_no_deadlock [of 1 "[''a.io'']" "\<lambda>i. sample_lookup" IPv4 False
      "sample_state [] [Holding] 1 [] 1 False []"]
    sample_first_steps sample_lookup_foreign by simp

theorem Resolve_complete_witness:
  "Resolve 1 (\<lambda>i. sample_lookup) IPv4 [''a.io''] [lookup_result sample_lookup IPv4 ''a.io''] \<and>
   list_all result_wf [lookup_result sample_lookup IPv4 ''a.io'']"
  using sample_Resolve Resolve_complete [OF sample_Resolve] sample_lookup_foreign by simp

end
