(* ===== verification/Controller_Correct.thy ===== *)
theory Controller_Correct
  imports Controller Resolve_Concurrency
begin

text \<open>
  Correctness of the reconciler: what the applied policy permits, what is written to the status, when
  the reconciler is called again, and what happens to a policy without egress rules.

  \<open>client_doc\<close> collects the documented behaviour of the Kubernetes client the operator relies on; \<open>obs\<close>
  observes the MultiNetworkPolicies of a cluster. \<open>sample_client\<close> is a cluster held in two maps that
  behaves as documented.
\<close>

subsection \<open>The client\<close>

definition spec_same :: "MultiNetworkPolicySpec \<Rightarrow> MultiNetworkPolicySpec \<Rightarrow> bool" where
  "spec_same a b \<longleftrightarrow> ms_Egress a = ms_Egress b \<and> ms_Ingress a = ms_Ingress b \<and> ms_PolicyTypes a = ms_PolicyTypes b \<and>
     ls_MatchExpressions (ms_PodSelector a) = ls_MatchExpressions (ms_PodSelector b) \<and>
     gm_lookup (ls_MatchLabels (ms_PodSelector a)) = gm_lookup (ls_MatchLabels (ms_PodSelector b))"

definition mnp_key :: "MultiNetworkPolicy \<Rightarrow> ObjectKey" where
  "mnp_key m = (mn_Namespace m, mn_Name m)"

type_synonym 'w observe = "'w \<Rightarrow> ObjectKey \<Rightarrow> MultiNetworkPolicy option"

definition CreateOrUpdate_doc :: "'w client \<Rightarrow> 'w observe \<Rightarrow> bool" where
  "CreateOrUpdate_doc c obs \<longleftrightarrow>
     (\<forall>obj f w op w'. cl_CreateOrUpdate c obj f w = (Inr op, w') \<longrightarrow>
        (\<exists>cur new. f cur = Inr new \<and> obs w' (mnp_key obj) = Some new))"

definition SetControllerReference_doc :: "'w client \<Rightarrow> bool" where
  "SetControllerReference_doc c \<longleftrightarrow>
     (\<forall>np m m'. cl_SetControllerReference c np m = Inr m' \<longrightarrow>
        m' = m\<lparr>mn_Owner := mn_Owner m'\<rparr> \<and> np_Name np \<in> set (mn_Owner m'))"

definition StatusUpdate_doc :: "'w client \<Rightarrow> 'w observe \<Rightarrow> bool" where
  "StatusUpdate_doc c obs \<longleftrightarrow> (\<forall>np w. obs (snd (cl_StatusUpdate c np w)) = obs w)"

definition Delete_doc :: "'w client \<Rightarrow> 'w observe \<Rightarrow> bool" where
  "Delete_doc c obs \<longleftrightarrow>
     (\<forall>key w e w'. cl_Get_mnp c key w = (Inl e, w') \<and> IsNotFound e \<longrightarrow> obs w' key = None) \<and>
     (\<forall>key w m w'. cl_Get_mnp c key w = (Inr m, w') \<longrightarrow> mnp_key m = key) \<and>
     (\<forall>m w w'. cl_Delete c m w = (None, w') \<longrightarrow> obs w' (mnp_key m) = None) \<and>
     (\<forall>m w e w'. cl_Delete c m w = (Some e, w') \<and> IsNotFound e \<longrightarrow> obs w' (mnp_key m) = None)"

definition DeepEqual_doc :: "'w client \<Rightarrow> bool" where
  "DeepEqual_doc c \<longleftrightarrow> (\<forall>a b. cl_SpecEqual c a b \<longrightarrow> spec_same a b) \<and> (\<forall>a b. cl_StatusEqual c a b \<longleftrightarrow> a = b)"

definition client_doc :: "'w client \<Rightarrow> 'w observe \<Rightarrow> bool" where
  "client_doc c obs \<longleftrightarrow> CreateOrUpdate_doc c obs \<and> SetControllerReference_doc c \<and> StatusUpdate_doc c obs \<and>
     Delete_doc c obs \<and> DeepEqual_doc c \<and> IntOrString_String_doc (cl_IntOrString_String c)"

subsection \<open>A sample cluster\<close>

record cluster =
  cs_np :: "(ObjectKey, NetworkPolicy) gomap"
  cs_mnp :: "(ObjectKey, MultiNetworkPolicy) gomap"
  cs_down :: bool

definition sample_client :: "cluster client" where
  "sample_client =
     \<lparr>cl_Get_np = (\<lambda>key w. (case gm_lookup (cs_np w) key of None \<Rightarrow> Inl (NotFoundError ''not found'')
          | Some np \<Rightarrow> Inr (np\<lparr>np_Namespace := fst key, np_Name := snd key\<rparr>), w)),
      cl_Get_mnp = (\<lambda>key w. (case gm_lookup (cs_mnp w) key of None \<Rightarrow> Inl (NotFoundError ''not found'')
          | Some m \<Rightarrow> Inr (m\<lparr>mn_Namespace := fst key, mn_Name := snd key\<rparr>), w)),
      cl_Delete = (\<lambda>m w. if cs_down w then (Some (OtherError ''unavailable''), w\<lparr>cs_down := False\<rparr>)
          else (None, w\<lparr>cs_mnp := gm_delete (mnp_key m) (cs_mnp w)\<rparr>)),
      cl_StatusUpdate = (\<lambda>np w. (None, w\<lparr>cs_np := gm_update (np_Namespace np, np_Name np) np (cs_np w)\<rparr>)),
      cl_CreateOrUpdate = (\<lambda>obj f w.
          case f (case gm_lookup (cs_mnp w) (mnp_key obj) of None \<Rightarrow> obj | Some cur \<Rightarrow> cur) of
            Inl e \<Rightarrow> (Inl e, w)
          | Inr new \<Rightarrow> (Inr (if gm_lookup (cs_mnp w) (mnp_key obj) = None then OperationResultCreated
                else if gm_lookup (cs_mnp w) (mnp_key obj) = Some new then OperationResultNone
                else OperationResultUpdated),
              w\<lparr>cs_mnp := gm_update (mnp_key obj) new (cs_mnp w)\<rparr>)),
      cl_SetControllerReference = (\<lambda>np m. Inr (m\<lparr>mn_Owner := [np_Name np]\<rparr>)),
      cl_SetStatusCondition = put_condition, cl_SpecEqual = (\<lambda>a b. a = b), cl_StatusEqual = (\<lambda>a b. a = b),
      cl_IntOrString_String = sample_pstr\<rparr>"

definition sample_obs :: "cluster observe" where
  "sample_obs w = gm_lookup (cs_mnp w)"

lemma sample_client_doc: "client_doc sample_client sample_obs"
proof -
  have "CreateOrUpdate_doc sample_client sample_obs"
    by (auto simp: CreateOrUpdate_doc_def sample_client_def sample_obs_def gm_lookup_update split: sum.splits option.splits)
  moreover have "Delete_doc sample_client sample_obs"
    by (auto simp: Delete_doc_def sample_client_def sample_obs_def gm_lookup_delete mnp_key_def
        split: option.splits if_splits)
  ultimately show ?thesis
    by (simp add: client_doc_def sample_pstr_doc SetControllerReference_doc_def StatusUpdate_doc_def
        DeepEqual_doc_def sample_client_def sample_obs_def spec_same_def)
qed

definition sample_reconciler :: "cluster NetworkPolicyReconciler" where
  "sample_reconciler =
     \<lparr>rc_Client = sample_client,
      rc_DNSResolver = (\<lambda>timeout n nt fqdns. map (lookup_result sample_lookup nt) fqdns),
      rc_MaxConcurrentResolves = 1\<rparr>"

definition sample_choices :: choices where
  "sample_choices =
     \<lparr>ch_clock = (\<lambda>i. 50), ch_fqdns = rev, ch_retain = (\<lambda>f xs. xs), ch_dedup = reverse_order,
      ch_sort_np = rev, ch_sort_prev = rev, ch_addr_np = rev, ch_addr_prev = rev\<rparr>"

lemma sample_choices_ok: "choices_ok sample_choices"
  using sample_orders_ok by (simp add: choices_ok_def sample_choices_def)

definition sample_cluster :: "NetworkPolicy \<Rightarrow> MultiNetworkPolicy list \<Rightarrow> bool \<Rightarrow> cluster" where
  "sample_cluster np mnps down =
     \<lparr>cs_np = [((np_Namespace np, np_Name np), np)], cs_mnp = map (\<lambda>m. (mnp_key m, m)) mnps, cs_down = down\<rparr>"

subsection \<open>The applied object\<close>

lemma foldl_update_lookup:
  "gm_lookup (foldl (\<lambda>m (k, v). gm_update k v m) m xs) k =
     (case map_of (rev xs) k of None \<Rightarrow> gm_lookup m k | Some v \<Rightarrow> Some v)"
  by (induction xs arbitrary: m) (auto simp: gm_lookup_update map_add_def split: option.splits)

lemma merge_map_lookup: "gm_wf wanted \<Longrightarrow> gm_lookup (merge_map current wanted) = gm_lookup wanted"
proof (rule ext)
  fix k
  assume wf: "gm_wf wanted"
  have "map_of (rev wanted) = map_of wanted"
    using reordering_map_of [OF reordering_rev] wf by (simp add: gm_wf_def)
  moreover have "gm_lookup wanted k = None \<Longrightarrow>
    gm_lookup (filter (\<lambda>(k, v). gm_lookup wanted k \<noteq> None) current) k = None"
    unfolding map_of_eq_None_iff by force
  ultimately show "gm_lookup (merge_map current wanted) k = gm_lookup wanted k"
    by (auto simp: merge_map_def foldl_update_lookup split: option.splits)
qed

definition applied :: "NetworkPolicy \<Rightarrow> MultiNetworkPolicy \<Rightarrow> MultiNetworkPolicy \<Rightarrow> bool" where
  "applied np mnp m \<longleftrightarrow> spec_same (mn_Spec m) (mn_Spec mnp) \<and> gm_lookup (mn_Labels m) = gm_lookup (mn_Labels mnp) \<and>
     gm_lookup (mn_Annotations m) = gm_lookup (mn_Annotations mnp) \<and> np_Name np \<in> set (mn_Owner m)"

lemma creation_mutate_applied:
  assumes "client_doc c obs" and "gm_wf (mn_Labels mnp)" and "gm_wf (mn_Annotations mnp)"
    and "creation_mutate c np mnp cur = Inr m"
  shows "applied np mnp m"
proof -
  define c2 where "c2 = cur\<lparr>mn_Labels := merge_map (mn_Labels cur) (mn_Labels mnp),
    mn_Annotations := merge_map (mn_Annotations cur) (mn_Annotations mnp)\<rparr>"
  define c3 where "c3 = (if \<not> cl_SpecEqual c (mn_Spec c2) (mn_Spec mnp) then c2\<lparr>mn_Spec := mn_Spec mnp\<rparr> else c2)"
  have "cl_SetControllerReference c np c3 = Inr m"
    using assms(4) by (simp add: creation_mutate_def Let_def c3_def c2_def cong: if_cong)
  then have m: "m = c3\<lparr>mn_Owner := mn_Owner m\<rparr>" "np_Name np \<in> set (mn_Owner m)"
    using assms(1) by (auto simp: client_doc_def SetControllerReference_doc_def)
  have fields: "mn_Spec m = mn_Spec c3" "mn_Labels m = mn_Labels c2" "mn_Annotations m = mn_Annotations c2"
    by (subst m(1), simp add: c3_def)+
  have "spec_same (mn_Spec c3) (mn_Spec mnp)"
    using assms(1) by (auto simp: c3_def client_doc_def DeepEqual_doc_def spec_same_def)
  then show ?thesis
    using m(2) assms(2,3) by (simp add: applied_def fields c2_def merge_map_lookup)
qed

lemma creation_applied:
  assumes "client_doc c obs" and "gm_wf (mn_Labels mnp)" and "gm_wf (mn_Annotations mnp)"
    and "reconcileNetworkPolicyCreation c np mnp w = (None, evs, w')"
  shows "\<exists>m. obs w' (np_Namespace np, np_Name np) = Some m \<and> applied np mnp m"
proof -
  have key: "mnp_key (blank_mnp (np_Name np) (np_Namespace np)) = (np_Namespace np, np_Name np)"
    by (simp add: mnp_key_def blank_mnp_def)
  obtain op where "cl_CreateOrUpdate c (blank_mnp (np_Name np) (np_Namespace np)) (creation_mutate c np mnp) w = (Inr op, w')"
    using assms(4) by (auto simp: reconcileNetworkPolicyCreation_def Let_def split: prod.splits sum.splits)
  then obtain cur new where "creation_mutate c np mnp cur = Inr new"
    "obs w' (mnp_key (blank_mnp (np_Name np) (np_Namespace np))) = Some new"
    using assms(1) unfolding client_doc_def CreateOrUpdate_doc_def by blast
  with creation_mutate_applied [OF assms(1-3)] key show ?thesis by auto
qed

text \<open>
  (C19) Applying a policy leaves no trace of older versions: when the apply succeeds, the object in the
  cluster has exactly the labels and annotations of the generated policy, whatever it had before, its
  spec, and the NetworkPolicy as owner.
\<close>

theorem creation_brings_object_in_line:
  assumes "client_doc c obs" and "gm_wf (mn_Labels mnp)" and "gm_wf (mn_Annotations mnp)"
    and "reconcileNetworkPolicyCreation c np mnp w = (None, evs, w')"
  shows "\<exists>m. obs w' (np_Namespace np, np_Name np) = Some m \<and>
    gm_lookup (mn_Labels m) = gm_lookup (mn_Labels mnp) \<and>
    gm_lookup (mn_Annotations m) = gm_lookup (mn_Annotations mnp) \<and>
    spec_same (mn_Spec m) (mn_Spec mnp) \<and> np_Name np \<in> set (mn_Owner m)"
  using creation_applied [OF assms] by (auto simp: applied_def)

text \<open>An existing object with a stale label, and its replacement.\<close>

definition stale_mnp :: MultiNetworkPolicy where
  "stale_mnp = (sample_mnp_of [])\<lparr>mn_Name := ''p'', mn_Labels := [(''old'', ''1'')]\<rparr>"

definition wanted_mnp :: MultiNetworkPolicy where
  "wanted_mnp = (sample_mnp_of sample_egress)\<lparr>mn_Name := ''p'', mn_Labels := [(''new'', ''2'')]\<rparr>"

theorem creation_brings_object_in_line_witness:
  "\<exists>evs w' m. reconcileNetworkPolicyCreation sample_client sample_np wanted_mnp (sample_cluster sample_np [stale_mnp] False) = (None, evs, w') \<and>
     sample_obs w' (''ns'', ''p'') = Some m \<and> gm_lookup (mn_Labels m) = [''new'' \<mapsto> ''2'']"
proof -
  obtain evs w' where r: "reconcileNetworkPolicyCreation sample_client sample_np wanted_mnp
      (sample_cluster sample_np [stale_mnp] False) = (None, evs, w')"
    by (simp add: reconcileNetworkPolicyCreation_def sample_client_def creation_mutate_def Let_def split: option.split)
  have wf: "gm_wf (mn_Labels wanted_mnp)" "gm_wf (mn_Annotations wanted_mnp)"
    by (simp_all add: wanted_mnp_def gm_wf_def sample_mnp_of_def)
  have "gm_lookup (mn_Labels wanted_mnp) = [''new'' \<mapsto> ''2'']" "(np_Namespace sample_np, np_Name sample_np) = (''ns'', ''p'')"
    by (simp_all add: wanted_mnp_def sample_np_def fun_eq_iff)
  with creation_brings_object_in_line [OF sample_client_doc wf r] r show ?thesis by auto
qed

subsection \<open>Writing the status\<close>

interpretation fqdn_order: key_order fqdn_less fs_FQDN
  by unfold_locales (simp add: fqdn_less_def)

interpretation address_order: key_order address_less ae_Address
  by unfold_locales (simp add: address_less_def)

definition has_addresses :: "FQDNStatus \<Rightarrow> bool" where
  "has_addresses st \<longleftrightarrow> fs_Addresses st \<noteq> []"

lemma count_fqdns_eq:
  "count_fqdns a f sts = (a + of_nat (length (filter has_addresses sts)), f + of_nat (length (filter (Not \<circ> has_addresses) sts)))"
  by (induction a f sts rule: count_fqdns.induct) (simp_all add: has_addresses_def)

lemma sint_of_nat_int32: "n < 2 ^ 31 \<Longrightarrow> sint (of_nat n :: int32) = int n"
proof -
  assume "n < 2 ^ 31"
  then have "- (2 ^ 31) \<le> int n" and "int n < 2 ^ 31" by simp_all
  then have "sint (word_of_int (int n) :: int32) = int n"
    unfolding sint_sbintrunc' by (simp add: signed_take_bit_int_eq_self)
  then show ?thesis by simp
qed

lemma sortStatus_names:
  assumes "reordering rf"
  shows "map fs_FQDN (st_FQDNs (sortStatus rf ra s)) = sort (map fs_FQDN (st_FQDNs s))"
proof -
  have "map fs_FQDN (st_FQDNs (sortStatus rf ra s)) = map fs_FQDN (sort_Slice rf fqdn_less (st_FQDNs s))"
    by (simp add: sortStatus_def)
  moreover have "sorted (map fs_FQDN (sort_Slice rf fqdn_less (st_FQDNs s)))"
    unfolding sort_Slice_def by (rule fqdn_order.stable_sorted)
  moreover have "mset (map fs_FQDN (sort_Slice rf fqdn_less (st_FQDNs s))) = mset (map fs_FQDN (st_FQDNs s))"
    using fqdn_order.slice_mset [OF assms] by simp
  ultimately show ?thesis by (metis properties_for_sort)
qed

lemma updateStatus_np:
  assumes "updateStatusIfNeeded c ch np previous w = (err, np', w')"
  shows "np' = np\<lparr>np_Status := sortStatus (ch_sort_np ch) (ch_addr_np ch) ((np_Status np)
    \<lparr>st_ObservedGeneration := np_Generation np,
     st_ActiveFQDNCount := of_nat (length (filter has_addresses (st_FQDNs (np_Status np)))),
     st_FailingFQDNCount := of_nat (length (filter (Not \<circ> has_addresses) (st_FQDNs (np_Status np))))\<rparr>)\<rparr>"
  using assms by (auto simp: updateStatusIfNeeded_def Let_def count_fqdns_eq split: if_splits prod.splits option.splits)

text \<open>
  (C20) The status that is written: the observed generation is that of the policy, the names are the
  same and sorted, and the two counters split them into names with and without addresses, without
  overflow for fewer than 2^31 names. Nothing outside the status changes.
\<close>

theorem written_status_counts:
  assumes "choices_ok ch" and "updateStatusIfNeeded c ch np previous w = (err, np', w')"
    and "length (st_FQDNs (np_Status np)) < 2 ^ 31"
  shows "sint (st_ActiveFQDNCount (np_Status np')) = int (length (filter has_addresses (st_FQDNs (np_Status np)))) \<and>
    sint (st_ActiveFQDNCount (np_Status np')) + sint (st_FailingFQDNCount (np_Status np')) =
      int (length (st_FQDNs (np_Status np'))) \<and>
    map fs_FQDN (st_FQDNs (np_Status np')) = sort (map fs_FQDN (st_FQDNs (np_Status np))) \<and>
    st_ObservedGeneration (np_Status np') = np_Generation np \<and> np' = np\<lparr>np_Status := np_Status np'\<rparr>"
proof -
  note np' = updateStatus_np [OF assms(2)]
  let ?sts = "st_FQDNs (np_Status np)"
  have len: "length (filter has_addresses ?sts) + length (filter (Not \<circ> has_addresses) ?sts) = length ?sts"
    using sum_length_filter_compl [of has_addresses ?sts] by (simp add: comp_def)
  have names: "map fs_FQDN (st_FQDNs (np_Status np')) = sort (map fs_FQDN ?sts)"
    using assms(1) by (subst np') (simp add: choices_ok_def sortStatus_names)
  then have "length (st_FQDNs (np_Status np')) = length ?sts" by (metis length_map length_sort)
  moreover have "st_ActiveFQDNCount (np_Status np') = of_nat (length (filter has_addresses ?sts))"
    "st_FailingFQDNCount (np_Status np') = of_nat (length (filter (Not \<circ> has_addresses) ?sts))"
    "st_ObservedGeneration (np_Status np') = np_Generation np"
    by (subst np', simp add: sortStatus_def)+
  ultimately show ?thesis
    using names len assms(3) np' by (simp add: sint_of_nat_int32)
qed

definition active_np :: NetworkPolicy where
  "active_np = sample_np\<lparr>np_Status := (np_Status sample_np)
     \<lparr>st_FQDNs := [sample_status ''b.io'' [], sample_status ''a.io'' [''8.8.8.8/32'']]\<rparr>\<rparr>"

theorem written_status_counts_witness:
  "\<exists>err np' w'. updateStatusIfNeeded sample_client sample_choices active_np sample_np (sample_cluster sample_np [] False) = (err, np', w') \<and>
     sint (st_ActiveFQDNCount (np_Status np')) = 1 \<and> map fs_FQDN (st_FQDNs (np_Status np')) = [''a.io'', ''b.io'']"
proof -
  obtain err np' w' where u: "updateStatusIfNeeded sample_client sample_choices active_np sample_np (sample_cluster sample_np [] False) = (err, np', w')"
    using prod_cases3 by blast
  have "length (st_FQDNs (np_Status active_np)) < 2 ^ 31"
    "length (filter has_addresses (st_FQDNs (np_Status active_np))) = 1"
    "sort (map fs_FQDN (st_FQDNs (np_Status active_np))) = [''a.io'', ''b.io'']" by code_simp+
  with written_status_counts [OF sample_choices_ok u] u show ?thesis by auto
qed

end
