(* ===== verification/Reconcile_Correct.thy ===== *)
theory Reconcile_Correct
  imports Controller_Correct
begin

text \<open>
  \<open>Reconcile\<close> as a whole: the composition of resolution, status update, retention, generation,
  deduplication, application and status write.

  Shown: what a successful reconciliation leaves in the cluster permits exactly what the spec
  declares over the refreshed addresses, when its ports carry no end port (\<open>reconcile_applies_policy\<close>);
  a reconciliation never panics and asks to be called again (\<open>reconcile_keeps_polling\<close>); which failed calls
  make it return an error (\<open>reconcile_error_sources\<close>); a policy without egress rules has its object removed (\<open>no_egress_removes_policy\<close>),
  except that a failed removal is not retried (\<open>failed_removal_not_retried\<close>).
\<close>

subsection \<open>The pure part\<close>

definition resolve_results :: "'w NetworkPolicyReconciler \<Rightarrow> choices \<Rightarrow> NetworkPolicy \<Rightarrow> DNSResolverResultList" where
  "resolve_results r ch np =
     rc_DNSResolver r (duration_seconds (sint (sp_ResolutionTimeoutSeconds (np_Spec np)))) (rc_MaxConcurrentResolves r)
       (sp_EnabledNetworkType (np_Spec np)) (FQDNs (ch_fqdns ch) np)"

definition new_statuses :: "'w NetworkPolicyReconciler \<Rightarrow> choices \<Rightarrow> NetworkPolicy \<Rightarrow> FQDNStatus list" where
  "new_statuses r ch np =
     refresh (ch_clock ch) (ch_retain ch) (sint (sp_RetryTimeoutSeconds (np_Spec np)))
       (retentionDuration (np_Annotations np)) (st_FQDNs (np_Status np)) (resolve_results r ch np)"

definition with_statuses :: "NetworkPolicy \<Rightarrow> FQDNStatus list \<Rightarrow> NetworkPolicy" where
  "with_statuses np sts = np\<lparr>np_Status := (np_Status np)\<lparr>st_FQDNs := sts\<rparr>\<rparr>"

lemma compute_policy_None:
  "compute_policy r ch np = None \<longleftrightarrow> AggregatedResolutionMessage (resolve_results r ch np) = None"
  by (auto simp: compute_policy_def generate_policy_def Let_def resolve_results_def split: option.splits prod.splits)

lemma compute_policy_Some:
  assumes "compute_policy r ch np = Some (np', mnp, evs)"
  shows "np_Spec np' = np_Spec np" "np_Name np' = np_Name np" "np_Namespace np' = np_Namespace np"
    "np_Generation np' = np_Generation np" "st_FQDNs (np_Status np') = new_statuses r ch np"
    "st_ObservedGeneration (np_Status np') = st_ObservedGeneration (np_Status np)"
    "mnp = RemoveDuplicateCIDRsInMultiNetworkPolicy (cl_IntOrString_String (rc_Client r)) (ch_dedup ch)
       (ToMultiNetworkPolicy (with_statuses np (new_statuses r ch np)) (new_statuses r ch np))"
    "evs = snd (updateFQDNStatuses (ch_clock ch) (st_FQDNs (np_Status np)) (resolve_results r ch np)
       (sint (sp_RetryTimeoutSeconds (np_Spec np))))"
  using assms
  by (auto simp: compute_policy_def generate_policy_def Let_def resolve_results_def new_statuses_def refresh_def with_statuses_def
      condition_setter_defs split: option.splits prod.splits)

lemma with_statuses_simps [simp]:
  "np_Spec (with_statuses np sts) = np_Spec np" "np_Name (with_statuses np sts) = np_Name np"
  "np_Namespace (with_statuses np sts) = np_Namespace np" "np_Labels (with_statuses np sts) = np_Labels np"
  by (simp_all add: with_statuses_def)

lemma ToMultiNetworkPolicy_None: "ToMultiNetworkPolicy np sts = None \<longleftrightarrow> sp_Egress (np_Spec np) = []"
  by (simp add: ToMultiNetworkPolicy_def Let_def)

lemma compute_policy_mnp_None:
  "compute_policy r ch np = Some (np', mnp, evs) \<Longrightarrow> choices_ok ch \<Longrightarrow> mnp = None \<longleftrightarrow> sp_Egress (np_Spec np) = []"
  using compute_policy_Some(7) [of r ch np np' mnp evs]
    ToMultiNetworkPolicy_None [of "with_statuses np (new_statuses r ch np)" "new_statuses r ch np"]
  by (cases "ToMultiNetworkPolicy (with_statuses np (new_statuses r ch np)) (new_statuses r ch np)")
    (auto simp: RemoveDuplicateCIDRs_Some choices_ok_def RemoveDuplicateCIDRsInMultiNetworkPolicy_def)

subsection \<open>The policy to apply\<close>

definition no_end_ports :: "NetworkPolicySpec \<Rightarrow> bool" where
  "no_end_ports sp = list_all (\<lambda>r. list_all (\<lambda>p. p_EndPort p = None) (er_Ports r)) (sp_Egress sp)"

lemma generated_plain:
  assumes "crd_Spec (np_Spec np)" and "no_end_ports (np_Spec np)" and "ToMultiNetworkPolicy np sts = Some m"
  shows "list_all plain_rule (mnp_egress m)"
proof -
  have "plain_rule rule" if "r \<in> set (sp_Egress (np_Spec np))"
    "toMultiNetworkPolicyEgressRule r ips g = Some rule" for r rule ips g
  proof -
    have "list_all crd_Port (er_Ports r)" "list_all (\<lambda>p. p_EndPort p = None) (er_Ports r)"
      using assms(1,2) that(1) by (simp_all add: crd_Spec_def crd_EgressRule_def no_end_ports_def list_all_iff)
    then have "list_all plain_port (map toMnetPort (er_Ports r))"
      by (auto simp: list_all_iff crd_Port_def plain_port_def toMnetPort_def split: option.splits)
    then show ?thesis using toEgressRule_Some [OF that(2)] by (simp add: plain_rule_def)
  qed
  then show ?thesis
    using ToMultiNetworkPolicy_egress [OF assms(3)] by (auto simp: list_all_iff mnp_egress_def egress_loop_set)
qed

lemma computed_policy_permits:
  assumes "compute_policy r ch np = Some (np', Some m, evs)" and "choices_ok ch"
    and "IntOrString_String_doc (cl_IntOrString_String (rc_Client r))"
    and "crd_Spec (np_Spec np)" and "no_end_ports (np_Spec np)"
  shows "egress_permits (mnp_egress m) c proto n \<longleftrightarrow> spec_permits (np_Spec np) (new_statuses r ch np) c proto n"
proof -
  let ?np = "with_statuses np (new_statuses r ch np)"
  have ord: "dedup_order_ok (ch_dedup ch)" using assms(2) by (simp add: choices_ok_def)
  obtain m0 where m0: "ToMultiNetworkPolicy ?np (new_statuses r ch np) = Some m0"
    using compute_policy_Some(7) [OF assms(1)]
    by (cases "ToMultiNetworkPolicy ?np (new_statuses r ch np)") (auto simp: RemoveDuplicateCIDRsInMultiNetworkPolicy_def)
  then have "RemoveDuplicateCIDRsInMultiNetworkPolicy (cl_IntOrString_String (rc_Client r)) (ch_dedup ch) (Some m0) = Some m"
    using compute_policy_Some(7) [OF assms(1)] by simp
  from RemoveDuplicateCIDRs_result(1) [OF ord this]
  have "mnp_egress m = dedup_rules (cl_IntOrString_String (rc_Client r)) (ch_dedup ch) (mnp_egress m0)" .
  moreover have "list_all plain_rule (mnp_egress m0)"
    using generated_plain [OF _ _ m0] assms(4,5) by simp
  ultimately have "egress_permits (mnp_egress m) c proto n \<longleftrightarrow> egress_permits (mnp_egress m0) c proto n"
    using dedup_rules_permits [OF assms(3) ord] by simp
  also have "\<dots> \<longleftrightarrow> spec_permits (np_Spec np) (new_statuses r ch np) c proto n"
    using generated_permits [OF m0] by (simp add: mnp_egress_def)
  finally show ?thesis .
qed

lemma computed_policy_meta:
  assumes "compute_policy r ch np = Some (np', Some m, evs)" and "choices_ok ch"
  shows "mn_Labels m = np_Labels np"
    and "mn_Annotations m = [(''k8s.v1.cni.cncf.io/policy-for'', np_Namespace np @ ''/'' @ sp_TargetNetwork (np_Spec np))]"
    and "ms_PolicyTypes (mn_Spec m) = [''Egress'']" and "ms_Ingress (mn_Spec m) = []"
proof -
  have "dedup_order_ok (ch_dedup ch)" using assms(2) by (simp add: choices_ok_def)
  with compute_policy_Some(7) [OF assms(1)]
  show "mn_Labels m = np_Labels np"
    "mn_Annotations m = [(''k8s.v1.cni.cncf.io/policy-for'', np_Namespace np @ ''/'' @ sp_TargetNetwork (np_Spec np))]"
    "ms_PolicyTypes (mn_Spec m) = [''Egress'']" "ms_Ingress (mn_Spec m) = []"
    by (auto simp: ToMultiNetworkPolicy_def Let_def RemoveDuplicateCIDRs_Some
        RemoveDuplicateCIDRsInMultiNetworkPolicy_def split: if_splits)
qed

subsection \<open>The effects\<close>

lemma updateStatus_obs:
  assumes "StatusUpdate_doc c obs" and "updateStatusIfNeeded c ch np previous w = (err, np', w')"
  shows "obs w' = obs w"
proof -
  have frame: "obs (snd (cl_StatusUpdate c x w)) = obs w" for x
    using assms(1) by (simp add: StatusUpdate_doc_def)
  have "cl_StatusUpdate c x w = (e, w1) \<Longrightarrow> obs w1 = obs w" for x e w1
    using frame [of x] by simp
  with assms(2) show ?thesis
    by (auto simp: updateStatusIfNeeded_def Let_def split: if_splits prod.splits option.splits)
qed

lemma finish_obs:
  assumes "StatusUpdate_doc (rc_Client r) obs" and "finish r ch np previous res w = (out, w')"
  shows "obs w' = obs w"
  using assms(2) updateStatus_obs [OF assms(1)]
  by (auto simp: finish_def split: prod.splits option.splits)

lemma finish_result:
  "finish r ch np previous res w = ((res', None), w') \<Longrightarrow> res' = res"
  by (auto simp: finish_def split: prod.splits option.splits)

lemma creation_error_event:
  "reconcileNetworkPolicyCreation c np m w = (Some err, evs, w') \<Longrightarrow>
     \<exists>e \<in> set evs. ev_Reason e = ''MultiNetworkPolicyError'' \<and> ev_Message e = k8s_Error err"
  by (auto simp: reconcileNetworkPolicyCreation_def Let_def OperationErrorReason_def typeName_def mnp_type_def
      split: prod.splits sum.splits)

lemma reconcile_apply_cases:
  assumes "reconcile_apply r ch np previous m w = ((res, err), evs, w')"
  obtains (failed) e w1 where "reconcileNetworkPolicyCreation (rc_Client r) np m w = (Some e, evs, w1)"
      "err = None \<Longrightarrow> res = \<lparr>RequeueAfter = duration_seconds 60\<rparr>"
    | (applied) w1 np1 where "reconcileNetworkPolicyCreation (rc_Client r) np m w = (None, evs, w1)"
      "finish r ch np1 previous \<lparr>RequeueAfter = duration_seconds (sint (sp_TTLSeconds (np_Spec np)))\<rparr> w1 = ((res, err), w')"
proof -
  obtain e evs' w1 where c: "reconcileNetworkPolicyCreation (rc_Client r) np m w = (e, evs', w1)"
    using prod_cases3 by blast
  show thesis
  proof (cases e)
    case None
    with c assms show ?thesis
      by (auto simp: reconcile_apply_def Let_def split: prod.splits if_splits intro: applied)
  next
    case (Some x)
    with c assms show ?thesis
      by (auto simp: reconcile_apply_def Let_def split: prod.splits intro!: failed dest: finish_result)
  qed
qed

lemma Reconcile_apply:
  assumes "cl_Get_np (rc_Client r) key w = (Inr np, w1)" and "choices_ok ch" and "sp_Egress (np_Spec np) \<noteq> []"
    and "Reconcile r ch key w = Some ((res, err), evs, w')"
  obtains np' m evs1 evs2 where "compute_policy r ch np = Some (np', Some m, evs1)"
    "reconcile_apply r ch np' np m w1 = ((res, err), evs2, w')" "evs = evs1 @ evs2"
proof -
  obtain np' mnp evs1 where c: "compute_policy r ch np = Some (np', mnp, evs1)"
    using assms(1,4) by (cases "compute_policy r ch np") (auto simp: Reconcile_def)
  then obtain m where m: "mnp = Some m"
    using compute_policy_mnp_None [OF c assms(2)] assms(3) by auto
  obtain out evs2 w2 where a: "reconcile_apply r ch np' np m w1 = (out, evs2, w2)" using prod_cases3 by blast
  with c m assms(1,4) have "out = (res, err)" "w2 = w'" "evs = evs1 @ evs2" by (simp_all add: Reconcile_def)
  with a c m that show thesis by blast
qed

lemma Reconcile_applied:
  assumes "client_doc (rc_Client r) obs" and "choices_ok ch"
    and "cl_Get_np (rc_Client r) (np_Namespace np, np_Name np) w = (Inr np, w1)"
    and "sp_Egress (np_Spec np) \<noteq> []" and "gm_wf (np_Labels np)"
    and "Reconcile r ch (np_Namespace np, np_Name np) w = Some ((res, None), evs, w')"
  obtains (failed) e where "e \<in> set evs" "ev_Reason e = ''MultiNetworkPolicyError''"
      "res = \<lparr>RequeueAfter = duration_seconds 60\<rparr>"
    | (applied) np' m evs1 k where "compute_policy r ch np = Some (np', Some m, evs1)"
      "obs w' (np_Namespace np, np_Name np) = Some k" "applied np' m k"
proof -
  obtain np' m evs1 evs2 where c: "compute_policy r ch np = Some (np', Some m, evs1)"
    and a: "reconcile_apply r ch np' np m w1 = ((res, None), evs2, w')" and evs: "evs = evs1 @ evs2"
    by (rule Reconcile_apply [OF assms(3,2,4,6)])
  note np' = compute_policy_Some [OF c]
  note meta = computed_policy_meta [OF c assms(2)]
  from a show thesis
  proof (cases rule: reconcile_apply_cases)
    case (failed e w2)
    then show ?thesis using creation_error_event [OF failed(1)] evs that(1) by auto
  next
    case (applied w2 np2)
    have wf: "gm_wf (mn_Labels m)" "gm_wf (mn_Annotations m)" using meta assms(5) by (simp_all add: gm_wf_def)
    obtain k where k: "obs w2 (np_Namespace np, np_Name np) = Some k" "Controller_Correct.applied np' m k"
      using creation_applied [OF assms(1) wf applied(1)] np' by auto
    have "obs w' = obs w2" using finish_obs [OF _ applied(2)] assms(1) by (simp add: client_doc_def)
    with k c that(2) show ?thesis by simp
  qed
qed

text \<open>
  (C1) The whole reconciliation of a policy that the schema admits and whose ports carry no end port (with
  end ports the deduplication can change what is permitted): when it ends without an error, either
  the object in the cluster now permits exactly what the spec declares over the refreshed addresses,
  restricts egress only, carries the labels of the policy and belongs to its target network, or the
  apply failed, in which case an error event is recorded and the policy is tried again after sixty
  seconds.
\<close>

theorem reconcile_applies_policy:
  assumes "client_doc (rc_Client r) obs" and "choices_ok ch"
    and "cl_Get_np (rc_Client r) (np_Namespace np, np_Name np) w = (Inr np, w1)"
    and "crd_Spec (np_Spec np)" and "no_end_ports (np_Spec np)" and "gm_wf (np_Labels np)"
    and "Reconcile r ch (np_Namespace np, np_Name np) w = Some ((res, None), evs, w')"
  shows "(\<exists>m. obs w' (np_Namespace np, np_Name np) = Some m \<and>
      (\<forall>c proto n. egress_permits (mnp_egress m) c proto n \<longleftrightarrow> spec_permits (np_Spec np) (new_statuses r ch np) c proto n) \<and>
      ms_PolicyTypes (mn_Spec m) = [''Egress''] \<and> gm_lookup (mn_Labels m) = gm_lookup (np_Labels np) \<and>
      gm_lookup (mn_Annotations m) =
        [''k8s.v1.cni.cncf.io/policy-for'' \<mapsto> np_Namespace np @ ''/'' @ sp_TargetNetwork (np_Spec np)]) \<or>
    ((\<exists>e \<in> set evs. ev_Reason e = ''MultiNetworkPolicyError'') \<and> RequeueAfter res = duration_seconds 60)"
proof -
  have ne: "sp_Egress (np_Spec np) \<noteq> []" using assms(4) by (auto simp: crd_Spec_def)
  show ?thesis
  proof (rule Reconcile_applied [OF assms(1-3) ne assms(6,7)], goal_cases)
    case (1 e)
    then show ?case by auto
  next
    case (2 np' m evs1 k)
    note meta = computed_policy_meta [OF 2(1) assms(2)]
    have "mnp_egress k = mnp_egress m" "ms_PolicyTypes (mn_Spec k) = [''Egress'']"
      "gm_lookup (mn_Labels k) = gm_lookup (np_Labels np)"
      "gm_lookup (mn_Annotations k) =
        [''k8s.v1.cni.cncf.io/policy-for'' \<mapsto> np_Namespace np @ ''/'' @ sp_TargetNetwork (np_Spec np)]"
      using 2(3) meta by (simp_all add: applied_def spec_same_def mnp_egress_def)
    moreover have "IntOrString_String_doc (cl_IntOrString_String (rc_Client r))" using assms(1) by (simp add: client_doc_def)
    ultimately show ?case using 2(2) computed_policy_permits [OF 2(1) assms(2) _ assms(4,5)] by auto
  qed
qed

definition sample_world :: cluster where
  "sample_world = sample_cluster sample_np [stale_mnp] False"

definition no_error_event :: "Event list \<Rightarrow> bool" where
  "no_error_event evs = list_all (\<lambda>e. ev_Reason e \<noteq> ''MultiNetworkPolicyError'') evs"

lemma sample_spec_valid: "crd_Spec (np_Spec sample_np)" "no_end_ports (np_Spec sample_np)" "gm_wf (np_Labels sample_np)"
  by code_simp+

lemma sample_get: "cl_Get_np (rc_Client sample_reconciler) (np_Namespace sample_np, np_Name sample_np) sample_world = (Inr sample_np, sample_world)"
  by code_simp

lemma sample_Reconcile:
  "case Reconcile sample_reconciler sample_choices (np_Namespace sample_np, np_Name sample_np) sample_world of
     Some ((res, None), evs, w') \<Rightarrow> no_error_event evs
   | _ \<Rightarrow> False"
  by code_simp

theorem reconcile_applies_policy_witness:
  "\<exists>res evs w' m. Reconcile sample_reconciler sample_choices (np_Namespace sample_np, np_Name sample_np) sample_world =
       Some ((res, None), evs, w') \<and>
     sample_obs w' (np_Namespace sample_np, np_Name sample_np) = Some m \<and>
     egress_permits (mnp_egress m) ''8.8.8.8/32'' ''TCP'' 443 \<and> \<not> egress_permits (mnp_egress m) ''10.0.0.1/32'' ''TCP'' 443"
proof -
  obtain res evs w' where r: "Reconcile sample_reconciler sample_choices (np_Namespace sample_np, np_Name sample_np) sample_world =
       Some ((res, None), evs, w')" and evs: "no_error_event evs"
    using sample_Reconcile by (auto split: option.splits)
  have doc: "client_doc (rc_Client sample_reconciler) sample_obs"
    using sample_client_doc by (simp add: sample_reconciler_def)
  have "\<not> (\<exists>e \<in> set evs. ev_Reason e = ''MultiNetworkPolicyError'')"
    using evs by (auto simp: no_error_event_def list_all_iff)
  then obtain m where "sample_obs w' (np_Namespace sample_np, np_Name sample_np) = Some m"
    "\<forall>c proto n. egress_permits (mnp_egress m) c proto n \<longleftrightarrow>
      spec_permits (np_Spec sample_np) (new_statuses sample_reconciler sample_choices sample_np) c proto n"
    using reconcile_applies_policy [OF doc sample_choices_ok sample_get sample_spec_valid r] by blast
  moreover have "spec_permits (np_Spec sample_np) (new_statuses sample_reconciler sample_choices sample_np) ''8.8.8.8/32'' ''TCP'' 443"
    "\<not> spec_permits (np_Spec sample_np) (new_statuses sample_reconciler sample_choices sample_np) ''10.0.0.1/32'' ''TCP'' 443"
    by code_simp+
  ultimately show ?thesis using r by blast
qed

subsection \<open>Polling and errors\<close>

text \<open>
  (C7) The reconciler keeps polling: for a policy the schema admits, whose names were resolved by the
  concurrent resolver, a reconciliation never panics, and unless it returns an error, which makes the
  controller runtime retry, it asks to be called again after the polling interval or, after a failed
  apply, after sixty seconds; the delay is always at least three seconds.
\<close>

theorem reconcile_keeps_polling:
  assumes "cl_Get_np (rc_Client r) key w = (Inr np, w1)" and "choices_ok ch" and "crd_Spec (np_Spec np)"
    and "Resolve cap L nt (FQDNs (ch_fqdns ch) np) (resolve_results r ch np)" and "\<forall>i. foreign_lookup (L i)"
  shows "\<exists>res err evs w'. Reconcile r ch key w = Some ((res, err), evs, w') \<and>
    (err = None \<longrightarrow>
      sint (RequeueAfter res) \<in> {60 * 1000000000, sint (sp_TTLSeconds (np_Spec np)) * 1000000000} \<and>
      3 * 1000000000 \<le> sint (RequeueAfter res))"
proof -
  have "list_all result_wf (resolve_results r ch np)" using Resolve_results [OF assms(4,5)] by simp
  then have "AggregatedResolutionMessage (resolve_results r ch np) \<noteq> None" using aggregated_message by blast
  then obtain np' mnp evs1 where c: "compute_policy r ch np = Some (np', mnp, evs1)"
    using compute_policy_None [of r ch np] by (cases "compute_policy r ch np") auto
  have ttl: "3 \<le> sint (sp_TTLSeconds (np_Spec np))" and ne: "sp_Egress (np_Spec np) \<noteq> []"
    using assms(3) by (auto simp: crd_Spec_def)
  obtain m where m: "mnp = Some m" using compute_policy_mnp_None [OF c assms(2)] ne by auto
  obtain res err evs2 w' where a: "reconcile_apply r ch np' np m w1 = ((res, err), evs2, w')"
    by (metis prod.exhaust)
  then have rec: "Reconcile r ch key w = Some ((res, err), evs1 @ evs2, w')"
    using assms(1) c m by (simp add: Reconcile_def)
  have s60: "sint (duration_seconds 60) = 60 * 1000000000" by (rule sint_duration_seconds) simp_all
  have "sint (RequeueAfter res) \<in> {60 * 1000000000, sint (sp_TTLSeconds (np_Spec np)) * 1000000000}" if "err = None"
    using a
  proof (cases rule: reconcile_apply_cases)
    case (failed e w2)
    then show ?thesis using that by (simp add: s60)
  next
    case (applied w2 np2)
    then have "res = \<lparr>RequeueAfter = duration_seconds (sint (sp_TTLSeconds (np_Spec np')))\<rparr>"
      using that by (auto dest: finish_result)
    then show ?thesis using compute_policy_Some(1) [OF c] by (simp add: sint_duration_seconds_int32)
  qed
  with rec ttl show ?thesis by force
qed

definition one_name_np :: NetworkPolicy where
  "one_name_np = sample_np\<lparr>np_Spec := sample_spec\<lparr>sp_Egress := [sample_rule\<lparr>er_ToFQDNs := [''a.io'']\<rparr>]\<rparr>\<rparr>"

theorem reconcile_keeps_polling_witness:
  "\<exists>res err evs w'. Reconcile sample_reconciler sample_choices (''ns'', ''p'') (sample_cluster one_name_np [] False) =
     Some ((res, err), evs, w') \<and> (err = None \<longrightarrow> 3 * 1000000000 \<le> sint (RequeueAfter res))"
proof -
  have h: "cl_Get_np (rc_Client sample_reconciler) (''ns'', ''p'') (sample_cluster one_name_np [] False) =
      (Inr one_name_np, sample_cluster one_name_np [] False)"
    "crd_Spec (np_Spec one_name_np)" "FQDNs (ch_fqdns sample_choices) one_name_np = [''a.io'']"
    "resolve_results sample_reconciler sample_choices one_name_np = [lookup_result sample_lookup IPv4 ''a.io'']"
    by code_simp+
  have "Resolve 1 (\<lambda>i. sample_lookup) IPv4 (FQDNs (ch_fqdns sample_choices) one_name_np)
    (resolve_results sample_reconciler sample_choices one_name_np)"
    unfolding h(3,4) by (rule sample_Resolve)
  from reconcile_keeps_polling [OF h(1) sample_choices_ok h(2) this] sample_lookup_foreign show ?thesis by auto
qed

lemma updateStatus_error:
  "updateStatusIfNeeded c ch np previous w = (Some e, np', w') \<Longrightarrow> \<not> IsConflict e \<and> cl_StatusUpdate c np' w = (Some e, w')"
  by (auto simp: updateStatusIfNeeded_def Let_def split: prod.splits option.splits if_splits)

lemma updateStatus_writes:
  assumes "updateStatusIfNeeded c ch np previous w = (None, np', w')"
    and "\<not> cl_StatusEqual c (sortStatus (ch_sort_prev ch) (ch_addr_prev ch) (np_Status previous)) (np_Status np')"
  shows "\<exists>err. cl_StatusUpdate c np' w = (err, w')"
  using assms by (auto simp: updateStatusIfNeeded_def Let_def split: prod.splits option.splits if_splits)

lemma status_frame:
  assumes "np2 = np\<lparr>np_Status := s\<rparr>"
  shows "np_Name np2 = np_Name np" "np_Namespace np2 = np_Namespace np" "np_Spec np2 = np_Spec np"
    "np_Generation np2 = np_Generation np"
  using assms by simp_all

lemma status_frame_trans: "b = a\<lparr>np_Status := s\<rparr> \<Longrightarrow> c = b\<lparr>np_Status := t\<rparr> \<Longrightarrow> c = a\<lparr>np_Status := t\<rparr>"
  by simp

lemma updateStatus_frame:
  "updateStatusIfNeeded c ch np previous w = (err, np', w') \<Longrightarrow> np' = np\<lparr>np_Status := np_Status np'\<rparr>"
  by (drule updateStatus_np) simp

lemma compute_policy_frame:
  "compute_policy r ch np = Some (np', mnp, evs) \<Longrightarrow> np' = np\<lparr>np_Status := np_Status np'\<rparr>"
  by (auto simp: compute_policy_def generate_policy_def Let_def condition_setter_defs split: option.splits prod.splits)

lemma deletion_error:
  assumes "reconcileNetworkPolicyDeletion c np w = (Some e, evs, w')"
  shows "\<not> IsNotFound e \<and> (cl_Get_mnp c (np_Namespace np, np_Name np) w = (Inl e, w') \<or>
    (\<exists>m w1. cl_Get_mnp c (np_Namespace np, np_Name np) w = (Inr m, w1) \<and> cl_Delete c m w1 = (Some e, w')))"
  using assms
  by (auto simp: reconcileNetworkPolicyDeletion_def IgnoreNotFound_def split: prod.splits sum.splits option.splits if_splits)

lemma reconcile_apply_error:
  assumes "reconcile_apply r ch np previous m w = ((res, Some e), evs, w')"
  shows "res = no_requeue \<and> \<not> IsConflict e \<and> (\<exists>np2 w2. cl_StatusUpdate (rc_Client r) np2 w2 = (Some e, w'))"
proof -
  obtain np2 w2 out where "finish r ch np2 previous out w2 = ((res, Some e), w')"
    using assms by (auto simp: reconcile_apply_def Let_def split: prod.splits option.splits)
  then obtain np3 where "updateStatusIfNeeded (rc_Client r) ch np2 previous w2 = (Some e, np3, w')" and "res = no_requeue"
    by (auto simp: finish_def split: prod.splits option.splits)
  with updateStatus_error [OF this(1)] show ?thesis by blast
qed

lemma reconcile_no_egress_error:
  assumes "reconcile_no_egress r ch np previous w = ((res, Some e), evs, w')"
  obtains (written) np2 where "res = no_requeue" "\<not> IsConflict e" "cl_StatusUpdate (rc_Client r) np2 w = (Some e, w')"
    | (removed) np1 np2 w2 where "res = no_requeue" "np2 = np\<lparr>np_Status := np_Status np2\<rparr>"
      "updateStatusIfNeeded (rc_Client r) ch np1 previous w = (None, np2, w2)"
      "reconcileNetworkPolicyDeletion (rc_Client r) np2 w2 = (Some e, evs, w')"
proof -
  let ?np1 = "SetReadyConditionFalse (cl_SetStatusCondition (rc_Client r)) NetworkPolicyReadyFailure
    ''Network policy has no egress rules specified.'' np"
  obtain err np2 w2 where u: "updateStatusIfNeeded (rc_Client r) ch ?np1 previous w = (err, np2, w2)" using prod_cases3 by blast
  show thesis
  proof (cases err)
    case None
    with u assms have "res = no_requeue" "reconcileNetworkPolicyDeletion (rc_Client r) np2 w2 = (Some e, evs, w')"
      by (auto simp: reconcile_no_egress_def Let_def split: if_splits prod.splits option.splits)
    moreover have "?np1 = np\<lparr>np_Status := np_Status ?np1\<rparr>" by (simp add: condition_setter_defs)
    ultimately show ?thesis
      using u None status_frame_trans [OF _ updateStatus_frame [OF u]] by (intro removed [of np2 ?np1]) simp_all
  next
    case (Some x)
    with u assms have "x = e" "w2 = w'" "res = no_requeue" by (auto simp: reconcile_no_egress_def Let_def split: if_splits)
    with updateStatus_error [of "rc_Client r" ch ?np1 previous w e np2 w'] u Some show ?thesis by (intro written [of np2]) simp_all
  qed
qed

lemma Reconcile_no_egress:
  assumes "cl_Get_np (rc_Client r) key w = (Inr np, w1)" and "choices_ok ch" and "sp_Egress (np_Spec np) = []"
    and "Reconcile r ch key w = Some (out, evs, w')"
  obtains np' evs1 evs2 where "compute_policy r ch np = Some (np', None, evs1)"
    "reconcile_no_egress r ch np' np w1 = (out, evs2, w')" "evs = evs1 @ evs2"
proof -
  obtain np' mnp evs1 where c: "compute_policy r ch np = Some (np', mnp, evs1)"
    using assms(1,4) by (cases "compute_policy r ch np") (auto simp: Reconcile_def)
  then have m: "mnp = None" using compute_policy_mnp_None [OF c assms(2)] assms(3) by simp
  obtain out' evs2 w2 where a: "reconcile_no_egress r ch np' np w1 = (out', evs2, w2)" using prod_cases3 by blast
  with c m assms(1,4) have "out' = out" "w2 = w'" "evs = evs1 @ evs2" by (simp_all add: Reconcile_def)
  with a c m that show thesis by blast
qed

text \<open>
  (C22) Where errors come from, for every policy: a reconciliation returns an error only when reading the
  policy failed for another reason than that it is gone, when writing the status failed for another
  reason than a conflict, or when, for a policy without egress rules, reading or deleting its object
  failed for another reason than that it is gone. A failed apply is never returned as an error, and
  no requeue is asked for together with an error.
\<close>

theorem reconcile_error_sources:
  assumes "choices_ok ch" and "Reconcile r ch key w = Some ((res, Some e), evs, w')"
  shows "RequeueAfter res = 0 \<and>
    ((\<not> IsNotFound e \<and> evs = [] \<and> cl_Get_np (rc_Client r) key w = (Inl e, w')) \<or>
     (\<not> IsConflict e \<and> (\<exists>np' w2. cl_StatusUpdate (rc_Client r) np' w2 = (Some e, w'))) \<or>
     (\<not> IsNotFound e \<and> (\<exists>np w1 w2 w3. cl_Get_np (rc_Client r) key w = (Inr np, w1) \<and> sp_Egress (np_Spec np) = [] \<and>
        (cl_Get_mnp (rc_Client r) (np_Namespace np, np_Name np) w2 = (Inl e, w') \<or>
         (\<exists>m. cl_Get_mnp (rc_Client r) (np_Namespace np, np_Name np) w2 = (Inr m, w3) \<and>
            cl_Delete (rc_Client r) m w3 = (Some e, w'))))))"
proof (cases "cl_Get_np (rc_Client r) key w")
  case (Pair g w1)
  show ?thesis
  proof (cases g)
    case (Inl e')
    with Pair assms(2) show ?thesis
      by (auto simp: Reconcile_def IgnoreNotFound_def no_requeue_def split: if_splits)
  next
    case (Inr np)
    with Pair have get: "cl_Get_np (rc_Client r) key w = (Inr np, w1)" by simp
    show ?thesis
    proof (cases "sp_Egress (np_Spec np) = []")
      case False
      obtain np' m evs1 evs2 where "reconcile_apply r ch np' np m w1 = ((res, Some e), evs2, w')"
        by (rule Reconcile_apply [OF get assms(1) False assms(2)])
      from reconcile_apply_error [OF this] show ?thesis by (auto simp: no_requeue_def)
    next
      case True
      obtain np' evs1 evs2 where c: "compute_policy r ch np = Some (np', None, evs1)"
        and a: "reconcile_no_egress r ch np' np w1 = ((res, Some e), evs2, w')"
        by (rule Reconcile_no_egress [OF get assms(1) True assms(2)])
      from a show ?thesis
      proof (cases rule: reconcile_no_egress_error)
        case (written np2)
        then show ?thesis by (auto simp: no_requeue_def)
      next
        case (removed np1 np2 w2)
        note status_frame [OF status_frame_trans [OF compute_policy_frame [OF c] removed(2)]]
        with deletion_error [OF removed(4)] removed(1) get True show ?thesis by (auto simp: no_requeue_def)
      qed
    qed
  qed
qed

definition readonly_reconciler :: "cluster NetworkPolicyReconciler" where
  "readonly_reconciler = sample_reconciler\<lparr>rc_Client :=
     sample_client\<lparr>cl_StatusUpdate := (\<lambda>np w. (Some (OtherError ''read only''), w))\<rparr>\<rparr>"

theorem reconcile_error_sources_witness:
  "\<exists>res evs w' np' w2. Reconcile readonly_reconciler sample_choices (''ns'', ''p'') sample_world =
       Some ((res, Some (OtherError ''read only'')), evs, w') \<and> RequeueAfter res = 0 \<and>
     cl_StatusUpdate (rc_Client readonly_reconciler) np' w2 = (Some (OtherError ''read only''), w')"
proof -
  have "case Reconcile readonly_reconciler sample_choices (''ns'', ''p'') sample_world of
      Some ((res, Some e), evs, w') \<Rightarrow> e = OtherError ''read only'' | _ \<Rightarrow> False"
    by code_simp
  then obtain res evs w' where r: "Reconcile readonly_reconciler sample_choices (''ns'', ''p'') sample_world =
       Some ((res, Some (OtherError ''read only'')), evs, w')" by (auto split: option.splits)
  have g: "cl_Get_np (rc_Client readonly_reconciler) (''ns'', ''p'') sample_world = (Inr sample_np, sample_world)"
    by code_simp
  have "sp_Egress (np_Spec sample_np) \<noteq> []" by code_simp
  with g reconcile_error_sources [OF sample_choices_ok r] r show ?thesis by auto
qed

subsection \<open>Policies without egress rules\<close>

lemma deletion_removes:
  assumes "Delete_doc c obs" and "reconcileNetworkPolicyDeletion c np w = (None, evs, w')"
  shows "obs w' (np_Namespace np, np_Name np) = None"
proof (cases "cl_Get_mnp c (np_Namespace np, np_Name np) w")
  case (Pair g w1)
  note doc = assms(1) [unfolded Delete_doc_def]
  show ?thesis
  proof (cases g)
    case (Inl e)
    with Pair assms(2) doc show ?thesis
      by (auto simp: reconcileNetworkPolicyDeletion_def split: if_splits)
  next
    case (Inr m)
    then have key: "mnp_key m = (np_Namespace np, np_Name np)" using Pair doc by blast
    obtain d w2 where d: "cl_Delete c m w1 = (d, w2)" by fastforce
    then have "w' = w2" "d = None \<or> (\<exists>e. d = Some e \<and> IsNotFound e)"
      using Pair Inr assms(2)
      by (auto simp: reconcileNetworkPolicyDeletion_def IgnoreNotFound_def split: option.splits if_splits)
    with d doc key show ?thesis by metis
  qed
qed

text \<open>
  (C23) A policy without egress rules whose current generation has not been observed: when the
  reconciliation ends without an error, the applied object is gone and no requeue is asked for.
\<close>

theorem no_egress_removes_policy:
  assumes "client_doc (rc_Client r) obs" and "choices_ok ch"
    and "cl_Get_np (rc_Client r) (np_Namespace np, np_Name np) w = (Inr np, w1)"
    and "sp_Egress (np_Spec np) = []" and "st_ObservedGeneration (np_Status np) \<noteq> np_Generation np"
    and "Reconcile r ch (np_Namespace np, np_Name np) w = Some ((res, None), evs, w')"
  shows "obs w' (np_Namespace np, np_Name np) = None \<and> RequeueAfter res = 0"
proof -
  obtain np' evs1 evs2 where c: "compute_policy r ch np = Some (np', None, evs1)"
    and a: "reconcile_no_egress r ch np' np w1 = ((res, None), evs2, w')"
    by (rule Reconcile_no_egress [OF assms(3,2,4,6)])
  note np' = compute_policy_Some [OF c]
  let ?np1 = "SetReadyConditionFalse (cl_SetStatusCondition (rc_Client r)) NetworkPolicyReadyFailure
    ''Network policy has no egress rules specified.'' np'"
  obtain e np2 w2 where u: "updateStatusIfNeeded (rc_Client r) ch ?np1 np w1 = (e, np2, w2)" using prod_cases3 by blast
  then have key: "np_Name np2 = np_Name np" "np_Namespace np2 = np_Namespace np"
    using updateStatus_np [OF u] np' by simp_all
  have d: "reconcileNetworkPolicyDeletion (rc_Client r) np2 w2 = (None, evs2, w')" "res = no_requeue"
    using a u assms(5) np' by (auto simp: reconcile_no_egress_def Let_def split: option.splits prod.splits)
  then show ?thesis
    using deletion_removes [OF _ d(1)] key assms(1) by (simp add: client_doc_def no_requeue_def)
qed

definition no_egress_np :: NetworkPolicy where
  "no_egress_np = sample_np\<lparr>np_Spec := sample_spec\<lparr>sp_Egress := []\<rparr>\<rparr>"

theorem no_egress_removes_policy_witness:
  "\<exists>res evs w'. Reconcile sample_reconciler sample_choices (''ns'', ''p'') (sample_cluster no_egress_np [stale_mnp] False) =
     Some ((res, None), evs, w') \<and> sample_obs w' (''ns'', ''p'') = None"
proof -
  let ?w = "sample_cluster no_egress_np [stale_mnp] False"
  have key: "(''ns'', ''p'') = (np_Namespace no_egress_np, np_Name no_egress_np)"
    by (simp add: no_egress_np_def sample_np_def)
  have "case Reconcile sample_reconciler sample_choices (''ns'', ''p'') ?w of
      Some ((res, None), evs, w') \<Rightarrow> True | _ \<Rightarrow> False" by code_simp
  then obtain res evs w' where r: "Reconcile sample_reconciler sample_choices (''ns'', ''p'') ?w = Some ((res, None), evs, w')"
    by (auto split: option.splits)
  have h: "cl_Get_np (rc_Client sample_reconciler) (''ns'', ''p'') ?w = (Inr no_egress_np, ?w)"
    "sp_Egress (np_Spec no_egress_np) = []" "st_ObservedGeneration (np_Status no_egress_np) \<noteq> np_Generation no_egress_np"
    by code_simp+
  have doc: "client_doc (rc_Client sample_reconciler) sample_obs"
    using sample_client_doc by (simp add: sample_reconciler_def)
  show ?thesis
    using no_egress_removes_policy [OF doc sample_choices_ok h(1) [unfolded key] h(2,3) r [unfolded key]] r key by simp
qed

lemma no_egress_observed:
  assumes "choices_ok ch" and "\<forall>d n nt. rc_DNSResolver r d n nt [] = []"
    and "cl_Get_np (rc_Client r) key w = (Inr np, w1)" and "sp_Egress (np_Spec np) = []"
    and "st_ObservedGeneration (np_Status np) = np_Generation np"
  shows "Reconcile r ch key w = Some ((no_requeue, None), [], w1)"
proof -
  have "length (FQDNs (ch_fqdns ch) np) = 0"
    using assms(1,4) by (simp add: FQDNs_def choices_ok_def string_order.stable_eq reorder_simps)
  then have none: "resolve_results r ch np = []" using assms(2) by (simp add: resolve_results_def)
  then obtain np' mnp evs where c: "compute_policy r ch np = Some (np', mnp, evs)"
    using compute_policy_None [of r ch np] by (cases "compute_policy r ch np") (auto simp: AggregatedResolutionMessage_def)
  moreover have "mnp = None" using compute_policy_mnp_None [OF c assms(1)] assms(4) by simp
  moreover have "evs = []" using compute_policy_Some(8) [OF c] none by (simp add: updateFQDNStatuses_def)
  ultimately show ?thesis
    using assms(3,5) compute_policy_Some(4,6) [OF c] by (simp add: Reconcile_def reconcile_no_egress_def)
qed

text \<open>
  (C24) A failed removal is not retried. When a policy without egress rules, whose generation has not
  been observed, is reconciled, the status can be written and an error is returned, then the removal
  of the object has failed after a status with the observed generation was written; and every later
  reconciliation that reads the policy as written takes the generation as handled: it only reads,
  returns no error and asks for no requeue, so the object stays as it is.
\<close>

theorem failed_removal_not_retried:
  assumes "client_doc (rc_Client r) obs" and "choices_ok ch" and "\<forall>d n nt. rc_DNSResolver r d n nt [] = []"
    and "cl_Get_np (rc_Client r) key w = (Inr np, w1)" and "sp_Egress (np_Spec np) = []"
    and "st_ObservedGeneration (np_Status np) \<noteq> np_Generation np"
    and "\<forall>x. fst (cl_StatusUpdate (rc_Client r) x w1) = None"
    and "Reconcile r ch key w = Some ((res, Some e), evs, w')"
  shows "\<exists>np2 w2 evs2. cl_StatusUpdate (rc_Client r) np2 w1 = (None, w2) \<and>
    np2 = np\<lparr>np_Status := np_Status np2\<rparr> \<and>
    reconcileNetworkPolicyDeletion (rc_Client r) np2 w2 = (Some e, evs2, w') \<and>
    (\<forall>ch' v v1. choices_ok ch' \<and> cl_Get_np (rc_Client r) key v = (Inr np2, v1) \<longrightarrow>
       Reconcile r ch' key v = Some ((no_requeue, None), [], v1))"
proof -
  obtain np' evs1 evs2 where c: "compute_policy r ch np = Some (np', None, evs1)"
    and a: "reconcile_no_egress r ch np' np w1 = ((res, Some e), evs2, w')"
    by (rule Reconcile_no_egress [OF assms(4,2,5,8)])
  from a show ?thesis
  proof (cases rule: reconcile_no_egress_error)
    case (written np2)
    with assms(7) show ?thesis by (metis fst_conv option.distinct(1))
  next
    case (removed np1 np2 w2)
    note same = status_frame_trans [OF compute_policy_frame [OF c] removed(2)]
    have "st_ObservedGeneration (np_Status np2) = np_Generation np2"
      by (subst (1 2) updateStatus_np [OF removed(3)]) (simp add: sortStatus_def)
    then have gen: "st_ObservedGeneration (np_Status np2) = np_Generation np"
      using status_frame [OF same] by simp
    moreover have "st_ObservedGeneration (sortStatus rf ra s) = st_ObservedGeneration s" for rf ra s
      by (simp add: sortStatus_def)
    ultimately have "sortStatus rf ra (np_Status np) \<noteq> np_Status np2" for rf ra
      using assms(6) by metis
    then have "\<not> cl_StatusEqual (rc_Client r) (sortStatus (ch_sort_prev ch) (ch_addr_prev ch) (np_Status np)) (np_Status np2)"
      using assms(1) by (simp add: client_doc_def DeepEqual_doc_def)
    from updateStatus_writes [OF removed(3) this] obtain err where "cl_StatusUpdate (rc_Client r) np2 w1 = (err, w2)" ..
    moreover from this have "err = None" using assms(7) by (metis fst_conv)
    moreover have "Reconcile r ch' key v = Some ((no_requeue, None), [], v1)"
      if "choices_ok ch'" "cl_Get_np (rc_Client r) key v = (Inr np2, v1)" for ch' v v1
      by (rule no_egress_observed [OF that(1) assms(3) that(2)]) (use gen status_frame [OF same] assms(5) in simp_all)
    ultimately show ?thesis using same removed(4) by blast
  qed
qed

theorem failed_removal_not_retried_witness:
  "\<exists>res e evs w'. Reconcile sample_reconciler sample_choices (''ns'', ''p'') (sample_cluster no_egress_np [stale_mnp] True) =
       Some ((res, Some e), evs, w') \<and>
     Reconcile sample_reconciler sample_choices (''ns'', ''p'') w' = Some ((no_requeue, None), [], w') \<and>
     sample_obs w' (''ns'', ''p'') \<noteq> None"
proof -
  let ?w = "sample_cluster no_egress_np [stale_mnp] True" and ?c = "rc_Client sample_reconciler"
  have "case Reconcile sample_reconciler sample_choices (''ns'', ''p'') ?w of
      Some ((res, Some e), evs, w') \<Rightarrow> sample_obs w' (''ns'', ''p'') \<noteq> None | _ \<Rightarrow> False" by code_simp
  then obtain res e evs w' where r: "Reconcile sample_reconciler sample_choices (''ns'', ''p'') ?w = Some ((res, Some e), evs, w')"
    and obj: "sample_obs w' (''ns'', ''p'') \<noteq> None"
    by (auto split: option.splits)
  have h: "cl_Get_np ?c (''ns'', ''p'') ?w = (Inr no_egress_np, ?w)"
    "sp_Egress (np_Spec no_egress_np) = []" "st_ObservedGeneration (np_Status no_egress_np) \<noteq> np_Generation no_egress_np"
    by code_simp+
  have doc: "client_doc ?c sample_obs" and no_names: "\<forall>d n nt. rc_DNSResolver sample_reconciler d n nt [] = []"
    and up: "\<forall>x. fst (cl_StatusUpdate ?c x ?w) = None"
    using sample_client_doc by (simp_all add: sample_reconciler_def sample_client_def)
  obtain np2 w2 evs2 where w2: "cl_StatusUpdate ?c np2 ?w = (None, w2)" and np2: "np2 = no_egress_np\<lparr>np_Status := np_Status np2\<rparr>"
    and del: "reconcileNetworkPolicyDeletion ?c np2 w2 = (Some e, evs2, w')"
    and retry: "\<And>v. cl_Get_np ?c (''ns'', ''p'') v = (Inr np2, v) \<Longrightarrow>
      Reconcile sample_reconciler sample_choices (''ns'', ''p'') v = Some ((no_requeue, None), [], v)"
    using failed_removal_not_retried [OF doc sample_choices_ok no_names h up r] sample_choices_ok by blast
  have key: "np_Namespace np2 = ''ns''" "np_Name np2 = ''p''"
    using status_frame(1,2) [OF np2] by (simp_all add: no_egress_np_def sample_np_def)
  have "cs_np w2 = gm_update (''ns'', ''p'') np2 (cs_np ?w)"
    using w2 key by (auto simp: sample_reconciler_def sample_client_def)
  moreover have "cs_np w' = cs_np w2"
    using del by (auto simp: reconcileNetworkPolicyDeletion_def sample_reconciler_def sample_client_def split: option.splits if_splits)
  ultimately have "cl_Get_np ?c (''ns'', ''p'') w' = (Inr np2, w')"
    using key by (simp add: sample_reconciler_def sample_client_def gm_lookup_update)
  with retry r obj show ?thesis by blast
qed

subsection \<open>Unstable sorting\<close>

lemma sortStatus_cong:
  assumes "reordering rf" and "reordering ra" and "reordering rf'" and "reordering ra'"
    and "distinct (map fs_FQDN (st_FQDNs s))" and "statuses_wf (st_FQDNs s)"
  shows "sortStatus rf ra s = sortStatus rf' ra' s"
proof -
  have inj: "inj_on fs_FQDN (set (st_FQDNs s))" using assms(5) by (simp add: distinct_map)
  have names: "sort_Slice rf fqdn_less (st_FQDNs s) = sort_Slice rf' fqdn_less (st_FQDNs s)"
    using fqdn_order.slice_reordering [OF _ inj] assms(1,3) by metis
  have "sort_Slice ra address_less (fs_Addresses st) = sort_Slice ra' address_less (fs_Addresses st)"
    if "st \<in> set (st_FQDNs s)" for st
  proof -
    have "inj_on ae_Address (set (fs_Addresses st))" using assms(6) that by (simp add: statuses_wf_def list_all_iff)
    then show ?thesis using address_order.slice_reordering assms(2,4) by metis
  qed
  moreover have "set (sort_Slice rf' fqdn_less (st_FQDNs s)) = set (st_FQDNs s)"
    using fqdn_order.slice_mset [OF assms(3)] by (metis set_mset_mset)
  ultimately show ?thesis unfolding sortStatus_def names by simp
qed

text \<open>
  The status that is written does not depend on what the unstable sort does with ties: for
  statuses with distinct names and one entry per address, the comparison with the previous status and
  the written object are the same for every behaviour of the sort, so no write is caused by it.
\<close>

lemma status_write_deterministic:
  assumes "choices_ok ch" and "choices_ok ch'"
    and "distinct (map fs_FQDN (st_FQDNs (np_Status np)))" and "statuses_wf (st_FQDNs (np_Status np))"
    and "distinct (map fs_FQDN (st_FQDNs (np_Status previous)))" and "statuses_wf (st_FQDNs (np_Status previous))"
  shows "updateStatusIfNeeded c ch np previous w = updateStatusIfNeeded c ch' np previous w"
proof -
  have r: "reordering (ch_sort_np ch)" "reordering (ch_addr_np ch)" "reordering (ch_sort_np ch')" "reordering (ch_addr_np ch')"
    "reordering (ch_sort_prev ch)" "reordering (ch_addr_prev ch)" "reordering (ch_sort_prev ch')" "reordering (ch_addr_prev ch')"
    using assms(1,2) by (simp_all add: choices_ok_def)
  define s2 where "s2 = (np_Status np)\<lparr>st_ObservedGeneration := np_Generation np,
    st_ActiveFQDNCount := fst (count_fqdns 0 0 (st_FQDNs (np_Status np))),
    st_FailingFQDNCount := snd (count_fqdns 0 0 (st_FQDNs (np_Status np)))\<rparr>"
  have status: "updateStatusIfNeeded c h np previous w =
    (let np' = np\<lparr>np_Status := sortStatus (ch_sort_np h) (ch_addr_np h) s2\<rparr>
     in if cl_StatusEqual c (sortStatus (ch_sort_prev h) (ch_addr_prev h) (np_Status previous)) (np_Status np')
        then (None, np', w)
        else (case cl_StatusUpdate c np' w of
            (Some err, w') \<Rightarrow> if IsConflict err then (None, np', w') else (Some err, np', w')
          | (None, w') \<Rightarrow> (None, np', w')))" for h
    unfolding updateStatusIfNeeded_def Let_def s2_def by (simp add: case_prod_beta)
  have "sortStatus (ch_sort_np ch) (ch_addr_np ch) s2 = sortStatus (ch_sort_np ch') (ch_addr_np ch') s2"
    using assms(3,4) by (intro sortStatus_cong r) (simp_all add: s2_def)
  moreover have "sortStatus (ch_sort_prev ch) (ch_addr_prev ch) (np_Status previous) =
    sortStatus (ch_sort_prev ch') (ch_addr_prev ch') (np_Status previous)"
    using assms(5,6) by (intro sortStatus_cong r)
  ultimately show ?thesis unfolding status by simp
qed

definition other_choices :: choices where
  "other_choices = sample_choices\<lparr>ch_sort_np := (\<lambda>xs. xs), ch_addr_np := (\<lambda>xs. xs)\<rparr>"

subsection \<open>Deny all\<close>

lemma port_admits:
  assumes "crd_Port p"
  shows "\<exists>n. spec_port_permits p (p_Protocol p) n"
proof (cases "p_Port p")
  case (Some k)
  then have "spec_port_permits p (p_Protocol p) (sint k)"
    using assms by (auto simp: spec_port_permits_def crd_Port_def split: option.splits)
  then show ?thesis ..
qed (simp add: spec_port_permits_def)

lemma generated_admits:
  assumes "crd_Spec (np_Spec np)" and "ToMultiNetworkPolicy np sts = Some m" and "mnp_egress m \<noteq> []"
  shows "\<exists>c proto n. spec_permits (np_Spec np) sts c proto n"
proof -
  let ?ips = "FQDNStatusList_LookupTable sts" and ?g = "sp_BlockPrivateIPs (np_Spec np)"
  obtain rule where "rule \<in> set (mnp_egress m)" using hd_in_set [OF assms(3)] by blast
  then obtain r where r: "r \<in> set (sp_Egress (np_Spec np))" "toMultiNetworkPolicyEgressRule r ?ips ?g = Some rule"
    using ToMultiNetworkPolicy_egress [OF assms(2)] by (auto simp: mnp_egress_def egress_loop_set)
  have wf: "rule_wf rule" by (rule toEgressRule_Some(1) [OF r(2)])
  then obtain c where c: "c \<in> set (peer_cidrs (mer_To rule))"
    using rule_wf_To [OF wf] by (cases "peer_cidrs (mer_To rule)") (auto simp: rule_wf_def)
  obtain f where f: "f \<in> set (er_ToFQDNs r)" "c \<in> set (allowed_addrs ?ips ?g (er_BlockPrivateIPs r) f)"
    using c toEgressRule_Some(3) [OF r(2)] by auto
  have "er_Ports r = [] \<or> (\<exists>p \<in> set (er_Ports r). \<exists>n. spec_port_permits p (p_Protocol p) n)"
    using assms(1) r(1) port_admits
    by (cases "er_Ports r") (auto simp: crd_Spec_def crd_EgressRule_def list_all_iff)
  then show ?thesis
    using r(1) f allowed_addrs_iff unfolding spec_permits_def by blast
qed

text \<open>
  (C21) The reason \<open>EmptyRules\<close> means deny all, exactly: for a policy the schema admits, the policy to
  apply is empty if and only if the spec permits no destination at all over the refreshed addresses.
\<close>

theorem empty_rules_iff_deny_all:
  assumes "compute_policy r ch np = Some (np', Some m, evs)" and "choices_ok ch" and "crd_Spec (np_Spec np)"
  shows "IsEmpty (Some m) \<longleftrightarrow> (\<forall>c proto n. \<not> spec_permits (np_Spec np) (new_statuses r ch np) c proto n)"
proof -
  let ?np = "with_statuses np (new_statuses r ch np)"
  let ?pstr = "cl_IntOrString_String (rc_Client r)"
  have ord: "dedup_order_ok (ch_dedup ch)" using assms(2) by (simp add: choices_ok_def)
  obtain m0 where m0: "ToMultiNetworkPolicy ?np (new_statuses r ch np) = Some m0"
    using compute_policy_Some(7) [OF assms(1)]
    by (cases "ToMultiNetworkPolicy ?np (new_statuses r ch np)") (auto simp: RemoveDuplicateCIDRsInMultiNetworkPolicy_def)
  then have "RemoveDuplicateCIDRsInMultiNetworkPolicy ?pstr (ch_dedup ch) (Some m0) = Some m"
    using compute_policy_Some(7) [OF assms(1)] by simp
  then have m: "mnp_egress m = dedup_rules ?pstr (ch_dedup ch) (mnp_egress m0)"
    by (rule RemoveDuplicateCIDRs_result(1) [OF ord])
  have wf0: "list_all rule_wf (mnp_egress m0)" using generated_wf [OF m0] by (simp add: mnp_egress_def)
  have cidrs: "rule_wf x \<Longrightarrow> peer_cidrs (mer_To x) \<noteq> []" for x
    using rule_wf_To [of x] by (auto simp: rule_wf_def)
  have "mnp_egress m = [] \<longleftrightarrow> mnp_egress m0 = []"
  proof
    assume "mnp_egress m = []"
    then have "all_cidrs (mnp_egress m0) = []"
      using dedup_cidr_set [OF ord wf0, of ?pstr] m by (simp add: all_cidrs_def)
    then show "mnp_egress m0 = []" using wf0 cidrs by (cases "mnp_egress m0") (auto simp: all_cidrs_def)
  qed (simp add: m dedup_rules_Nil [OF ord])
  moreover have "IsEmpty (Some m) \<longleftrightarrow> mnp_egress m = []"
    using computed_policy_meta(4) [OF assms(1,2)] by (simp add: IsEmpty_def mnp_egress_def)
  moreover have "mnp_egress m0 = [] \<longleftrightarrow> (\<forall>c proto n. \<not> spec_permits (np_Spec np) (new_statuses r ch np) c proto n)"
  proof -
    have "\<exists>c proto n. spec_permits (np_Spec np) (new_statuses r ch np) c proto n" if "mnp_egress m0 \<noteq> []"
      using generated_admits [OF _ m0 that] assms(3) by simp
    moreover have "\<not> spec_permits (np_Spec np) (new_statuses r ch np) c proto n" if "mnp_egress m0 = []" for c proto n
      using generated_permits [OF m0, of c proto n] that by (simp add: mnp_egress_def)
    ultimately show ?thesis by blast
  qed
  ultimately show ?thesis by simp
qed

definition unresolved_np :: NetworkPolicy where
  "unresolved_np = sample_np\<lparr>np_Spec := sample_spec\<lparr>sp_Egress := [sample_rule\<lparr>er_ToFQDNs := [''b.io'']\<rparr>]\<rparr>\<rparr>"

theorem empty_rules_iff_deny_all_witness:
  "\<exists>np' m evs. compute_policy sample_reconciler sample_choices unresolved_np = Some (np', Some m, evs) \<and> IsEmpty (Some m) \<and>
     (\<forall>c proto n. \<not> spec_permits (np_Spec unresolved_np) (new_statuses sample_reconciler sample_choices unresolved_np) c proto n)"
proof -
  have "case compute_policy sample_reconciler sample_choices unresolved_np of
      Some (np', Some m, evs) \<Rightarrow> IsEmpty (Some m) | _ \<Rightarrow> False" by code_simp
  then obtain np' m evs where c: "compute_policy sample_reconciler sample_choices unresolved_np = Some (np', Some m, evs)"
    and e: "IsEmpty (Some m)" by (auto split: option.splits)
  have "crd_Spec (np_Spec unresolved_np)" by code_simp
  with empty_rules_iff_deny_all [OF c sample_choices_ok] c e show ?thesis by blast
qed

end
