(* ===== verification/Status_History.thy ===== *)
theory Status_History
  imports Controller_Correct
begin

text \<open>
  The recorded statuses over the life of a policy, as an inductive relation: starting from no
  statuses, each reconciliation refreshes them with one result per name, and the status written back
  is sorted. Retention period, retry timeout and iteration orders may change from one reconciliation
  to the next, since annotations and spec can be edited in between; the names asked for may change,
  too, a write may be lost to a conflict, and the policy may be deleted and created anew.

  Shown by rule induction: the statuses stay well formed (\<open>status_run_wf\<close>), and every recorded address
  was an address of a successful result for that name in the history (\<open>recorded_resolved\<close>).
\<close>

inductive status_run :: "round list \<Rightarrow> FQDNStatus list \<Rightarrow> bool" where
  start: "status_run [] []"
| reconcile: "status_run h sts \<Longrightarrow> \<forall>f. reordering (order f) \<Longrightarrow> distinct (map rr_FQDN (snd rd)) \<Longrightarrow>
    status_run (rd # h) (refresh (fst rd) order retry ret sts (snd rd))"
| store: "status_run h (st_FQDNs s) \<Longrightarrow> reordering rf \<Longrightarrow> reordering ra \<Longrightarrow>
    status_run h (st_FQDNs (sortStatus rf ra s))"
| lost: "status_run h sts \<Longrightarrow> status_run (rd # h) sts"
| recreate: "status_run h sts \<Longrightarrow> status_run h []"

definition resolved_in :: "round list \<Rightarrow> FQDN \<Rightarrow> string \<Rightarrow> bool" where
  "resolved_in h f a = list_ex (\<lambda>rd. list_ex (\<lambda>r. rr_FQDN r = f \<and> fresh_in r a) (snd rd)) h"

subsection \<open>Sorting keeps what is recorded\<close>

lemma sortStatus_set:
  assumes "reordering rf"
  shows "set (st_FQDNs (sortStatus rf ra s)) =
    (\<lambda>st. st\<lparr>fs_Addresses := sort_Slice ra address_less (fs_Addresses st)\<rparr>) ` set (st_FQDNs s)"
proof -
  have "set (sort_Slice rf fqdn_less (st_FQDNs s)) = set (st_FQDNs s)"
    by (rule mset_eq_setD) (rule fqdn_order.slice_mset [OF assms])
  then show ?thesis by (simp add: sortStatus_def)
qed

lemma sort_addresses_set: "reordering ra \<Longrightarrow> set (sort_Slice ra address_less xs) = set xs"
  by (rule mset_eq_setD) (rule address_order.slice_mset)

lemma sortStatus_distinct:
  "reordering rf \<Longrightarrow> distinct (map fs_FQDN (st_FQDNs (sortStatus rf ra s))) \<longleftrightarrow> distinct (map fs_FQDN (st_FQDNs s))"
  by (simp add: sortStatus_names)

lemma sortStatus_wf:
  "reordering rf \<Longrightarrow> reordering ra \<Longrightarrow> statuses_wf (st_FQDNs s) \<Longrightarrow> statuses_wf (st_FQDNs (sortStatus rf ra s))"
  by (simp add: statuses_wf_def list_all_iff sortStatus_set sort_addresses_set)

lemma recorded_distinct:
  "distinct (map fs_FQDN sts) \<Longrightarrow> recorded sts f = (\<Union>st \<in> {st \<in> set sts. fs_FQDN st = f}. set (fs_Addresses st))"
proof -
  assume d: "distinct (map fs_FQDN sts)"
  show ?thesis
  proof (cases "gm_lookup (FQDNStatusList_LookupTable sts) f")
    case None
    then have "{st \<in> set sts. fs_FQDN st = f} = {}" by (auto simp: status_table.lookup_None_iff)
    with None show ?thesis by (simp only: recorded_def previous_status_def new_status_def) simp
  next
    case (Some st)
    then have st: "st \<in> set sts" "fs_FQDN st = f" using status_table.lookup_SomeD by auto
    then have "{st \<in> set sts. fs_FQDN st = f} = {st}" using d by (auto simp: distinct_map dest: inj_onD)
    with Some show ?thesis by (simp add: recorded_def previous_status_def)
  qed
qed

lemma sortStatus_recorded:
  assumes "reordering rf" and "reordering ra" and "distinct (map fs_FQDN (st_FQDNs s))"
  shows "recorded (st_FQDNs (sortStatus rf ra s)) f = recorded (st_FQDNs s) f"
proof -
  have d: "distinct (map fs_FQDN (st_FQDNs (sortStatus rf ra s)))"
    using sortStatus_distinct [OF assms(1)] assms(3) by simp
  show ?thesis
    unfolding recorded_distinct [OF d] recorded_distinct [OF assms(3)] sortStatus_set [OF assms(1)]
    by (auto simp: sort_addresses_set [OF assms(2)])
qed

subsection \<open>Invariants of the history\<close>

lemma recorded_Nil [simp]: "recorded [] f = {}"
  by (simp add: recorded_def previous_status_def new_status_def FQDNStatusList_LookupTable_def)

lemma status_run_wf: "status_run h sts \<Longrightarrow> statuses_wf sts \<and> distinct (map fs_FQDN sts)"
proof (induction rule: status_run.induct)
  case (reconcile h sts order rd retry ret)
  then show ?case using refresh_wf by (simp add: refresh_names)
next
  case (store h s rf ra)
  then show ?case by (simp add: sortStatus_wf sortStatus_distinct)
qed (simp_all add: statuses_wf_def)

lemma refresh_provenance:
  assumes "statuses_wf sts" and "\<forall>f. reordering (order f)" and "distinct (map rr_FQDN results)" and "i < length results"
    and "a \<in> ae_Address ` set (fs_Addresses (refresh clock order retry ret sts results ! i))"
  shows "fresh_in (results ! i) a \<or> a \<in> ae_Address ` recorded sts (rr_FQDN (results ! i))"
proof (cases "0 < sint ret")
  case True
  obtain e where e: "e \<in> set (fs_Addresses (refresh clock order retry ret sts results ! i))" "a = ae_Address e"
    using assms(5) by blast
  then have "entry_of a (ae_MissingSince e) \<in> set (fs_Addresses (refresh clock order retry ret sts results ! i))"
    by (simp add: entry_of_def)
  then show ?thesis
    unfolding refresh_entry_iff [OF True assms(2-4) statuses_wf_previous [OF assms(1)] refl]
    by (force simp: recorded_def split: if_splits)
next
  case False
  then have "fs_Addresses (refresh clock order retry ret sts results ! i) =
    map (\<lambda>e. e\<lparr>ae_MissingSince := None\<rparr>) (fs_Addresses (fst (updated clock sts retry i (results ! i))))"
    using assms(4) by (simp add: refresh_def retain_addresses_def updateFQDNStatuses_nth clear_missing_def)
  then have "a \<in> ae_Address ` set (fs_Addresses (fst (updated clock sts retry i (results ! i))))"
    using assms(5) by (auto simp: image_image)
  then show ?thesis
    using updated_addresses [of "results ! i" clock sts retry i]
    by (cases "succeeded (results ! i)") (auto simp: fresh_in_def recorded_def)
qed

lemma recorded_refresh:
  assumes "distinct (map rr_FQDN results)" and "e \<in> recorded (refresh clock order retry ret sts results) f"
  obtains i where "i < length results" "rr_FQDN (results ! i) = f"
    "e \<in> set (fs_Addresses (refresh clock order retry ret sts results ! i))"
proof -
  let ?sts = "refresh clock order retry ret sts results"
  have "f \<in> set (map fs_FQDN ?sts)"
  proof (rule ccontr)
    assume "f \<notin> set (map fs_FQDN ?sts)"
    then have "gm_lookup (FQDNStatusList_LookupTable ?sts) f = None"
      by (simp add: status_table.lookup_None_iff)
    with assms(2) show False by (simp add: recorded_def previous_status_def new_status_def)
  qed
  then obtain i where i: "i < length results" "rr_FQDN (results ! i) = f"
    unfolding refresh_names by (auto simp: in_set_conv_nth)
  moreover have "previous_status ?sts f = ?sts ! i"
    using previous_status_refresh [OF assms(1) i(1)] i(2) by simp
  ultimately show thesis using assms(2) that by (simp add: recorded_def)
qed

lemma recorded_resolved:
  "status_run h sts \<Longrightarrow> a \<in> ae_Address ` recorded sts f \<Longrightarrow> resolved_in h f a"
proof (induction rule: status_run.induct)
  case (reconcile h sts order rd retry ret)
  obtain e where e: "e \<in> recorded (refresh (fst rd) order retry ret sts (snd rd)) f" "a = ae_Address e"
    using reconcile.prems by blast
  from recorded_refresh [OF reconcile.hyps(3) e(1)]
  obtain i where i: "i < length (snd rd)" "rr_FQDN (snd rd ! i) = f"
    "e \<in> set (fs_Addresses (refresh (fst rd) order retry ret sts (snd rd) ! i))" by metis
  have "statuses_wf sts" using status_run_wf [OF reconcile.hyps(1)] by simp
  from refresh_provenance [OF this reconcile.hyps(2,3) i(1), of a "fst rd" retry ret] i(2,3) e(2)
  consider "fresh_in (snd rd ! i) a" | "a \<in> ae_Address ` recorded sts f" by blast
  then show ?case
  proof cases
    case 1
    then show ?thesis using i nth_mem [OF i(1)] by (auto simp: resolved_in_def list_ex_iff)
  next
    case 2
    then show ?thesis using reconcile.IH by (simp add: resolved_in_def)
  qed
next
  case (store h s rf ra)
  then show ?case using status_run_wf [OF store.hyps(1)] by (simp add: sortStatus_recorded)
next
  case (lost h sts rd)
  then show ?case by (simp add: resolved_in_def)
qed simp_all

end
