(* ===== verification/Reconcile_History.thy ===== *)
theory Reconcile_History
  imports Reconcile_Correct Status_History
begin

text \<open>
  The reconciler over the life of a cluster. \<open>cluster_run\<close> relates the DNS answers the reconciler has
  received for one policy to the clusters that can be reached: by reconciliations of this policy, each
  with its own answers, clock and iteration orders; by reconciliations of other policies; and by
  users, who may edit or delete the policy between and during reconciliations but do not write its
  status.

  \<open>status_doc\<close> is what is assumed of the client here: a read returns the recorded status, a status
  write stores it or fails, possibly after it took effect, and no other call writes a status.

  Shown: the statuses in a reachable cluster are a \<open>status_run\<close> of the answers, which is the
  refinement between the whole reconciler and the history of the recorded statuses.
\<close>

subsection \<open>The status in the cluster\<close>

type_synonym 'w observe_statuses = "'w \<Rightarrow> ObjectKey \<Rightarrow> FQDNStatus list"

definition np_key :: "NetworkPolicy \<Rightarrow> ObjectKey" where
  "np_key np = (np_Namespace np, np_Name np)"

definition status_kept :: "'w observe_statuses \<Rightarrow> 'w \<Rightarrow> 'w \<Rightarrow> bool" where
  "status_kept stat w w' \<longleftrightarrow> (\<forall>k. stat w' k = stat w k \<or> stat w' k = [])"

definition status_doc :: "'w client \<Rightarrow> 'w observe_statuses \<Rightarrow> bool" where
  "status_doc c stat \<longleftrightarrow>
     (\<forall>key w np w'. cl_Get_np c key w = (Inr np, w') \<longrightarrow> np_key np = key \<and> st_FQDNs (np_Status np) = stat w key) \<and>
     (\<forall>key w. status_kept stat w (snd (cl_Get_np c key w))) \<and>
     (\<forall>key w. status_kept stat w (snd (cl_Get_mnp c key w))) \<and>
     (\<forall>m w. status_kept stat w (snd (cl_Delete c m w))) \<and>
     (\<forall>obj f w. status_kept stat w (snd (cl_CreateOrUpdate c obj f w))) \<and>
     (\<forall>np w k. let w' = snd (cl_StatusUpdate c np w) in
        stat w' k = stat w k \<or> stat w' k = [] \<or> k = np_key np \<and> stat w' k = st_FQDNs (np_Status np))"

text \<open>The statuses that may be stored after a call: the ones before, none, or the given ones, sorted.\<close>

definition stored :: "FQDNStatus list \<Rightarrow> FQDNStatus list \<Rightarrow> bool" where
  "stored fq sts \<longleftrightarrow>
     (\<exists>s rf ra. reordering rf \<and> reordering ra \<and> st_FQDNs s = fq \<and> sts = st_FQDNs (sortStatus rf ra s))"

definition status_may :: "'w observe_statuses \<Rightarrow> ObjectKey \<Rightarrow> FQDNStatus list \<Rightarrow> 'w \<Rightarrow> 'w \<Rightarrow> bool" where
  "status_may stat key fq w w' \<longleftrightarrow>
     (\<forall>k. stat w' k = stat w k \<or> stat w' k = [] \<or> k = key \<and> stored fq (stat w' k))"

lemma status_may_trans [trans]:
  "status_may stat key fq w w1 \<Longrightarrow> status_may stat key fq w1 w' \<Longrightarrow> status_may stat key fq w w'"
  unfolding status_may_def by metis

lemma status_may_refl [simp]: "status_may stat key fq w w"
  by (simp add: status_may_def)

lemma status_may_kept: "status_kept stat w w' \<Longrightarrow> status_may stat key fq w w'"
  unfolding status_may_def status_kept_def by blast

lemma status_doc_kept:
  assumes "status_doc c stat"
  shows "cl_Get_np c key w = (rn, w') \<Longrightarrow> status_may stat k fq w w'"
    and "cl_Get_mnp c key w = (rm, w') \<Longrightarrow> status_may stat k fq w w'"
    and "cl_Delete c m w = (re, w') \<Longrightarrow> status_may stat k fq w w'"
    and "cl_CreateOrUpdate c obj f w = (rc, w') \<Longrightarrow> status_may stat k fq w w'"
  using assms unfolding status_doc_def by (metis status_may_kept snd_conv)+

subsection \<open>Every operation\<close>

lemma updateStatus_may:
  assumes "status_doc c stat" and "choices_ok ch" and "updateStatusIfNeeded c ch np previous w = (err, np', w')"
  shows "status_may stat (np_key np) (st_FQDNs (np_Status np)) w w'"
proof -
  note np' = updateStatus_np [OF assms(3)]
  have key: "np_key np' = np_key np" by (subst np') (simp add: np_key_def)
  have "stored (st_FQDNs (np_Status np)) (st_FQDNs (np_Status np'))"
    using assms(2) unfolding stored_def choices_ok_def
    by (subst np') (intro exI conjI, assumption?, simp_all)
  with key have upd: "cl_StatusUpdate c np' w = (e, w1) \<Longrightarrow> status_may stat (np_key np) (st_FQDNs (np_Status np)) w w1" for e w1
    using assms(1) unfolding status_doc_def status_may_def Let_def by (metis snd_conv)
  have "w' = w \<or> (\<exists>e. cl_StatusUpdate c np' w = (e, w'))"
    using assms(3) by (auto simp: updateStatusIfNeeded_def Let_def split: if_splits prod.splits option.splits)
  with upd show ?thesis by auto
qed

lemma finish_may:
  assumes "status_doc (rc_Client r) stat" and "choices_ok ch" and "finish r ch np previous res w = (out, w')"
  shows "status_may stat (np_key np) (st_FQDNs (np_Status np)) w w'"
  using assms(3) updateStatus_may [OF assms(1,2), of np previous w]
  by (auto simp: finish_def split: prod.splits option.splits)

lemma creation_may:
  assumes "status_doc c stat" and "reconcileNetworkPolicyCreation c np m w = (err, evs, w')"
  shows "status_may stat key fq w w'"
  using assms(2) status_doc_kept(4) [OF assms(1)]
  by (auto simp: reconcileNetworkPolicyCreation_def Let_def split: prod.splits sum.splits)

lemma deletion_may:
  assumes "status_doc c stat" and "reconcileNetworkPolicyDeletion c np w = (err, evs, w')"
  shows "status_may stat key fq w w'"
proof -
  obtain x w1 where g: "cl_Get_mnp c (np_Namespace np, np_Name np) w = (x, w1)" by (rule prod.exhaust)
  have "w' = w1 \<or> (\<exists>m e. cl_Delete c m w1 = (e, w'))"
    using assms(2) g
    by (auto simp: reconcileNetworkPolicyDeletion_def split: prod.splits sum.splits option.splits if_splits)
  then have "status_may stat key fq w1 w'" using status_doc_kept(3) [OF assms(1)] by (metis status_may_refl)
  with status_doc_kept(2) [OF assms(1) g] show ?thesis by (rule status_may_trans)
qed

lemma reconcile_apply_may:
  assumes "status_doc (rc_Client r) stat" and "choices_ok ch" and "reconcile_apply r ch np previous m w = (out, evs, w')"
  shows "status_may stat (np_key np) (st_FQDNs (np_Status np)) w w'"
proof -
  obtain e evs' w1 where c: "reconcileNetworkPolicyCreation (rc_Client r) np m w = (e, evs', w1)"
    using prod_cases3 by blast
  have "\<exists>np1 res. finish r ch np1 previous res w1 = (out, w') \<and>
    np_key np1 = np_key np \<and> st_FQDNs (np_Status np1) = st_FQDNs (np_Status np)"
  proof (cases e)
    case None
    with assms(3) c obtain reason msg res where f: "finish r ch
        (SetReadyConditionTrue (cl_SetStatusCondition (rc_Client r)) reason msg np) previous res w1 = (out, w')"
      by (auto simp: reconcile_apply_def Let_def split: prod.splits if_splits)
    show ?thesis by (intro exI conjI, rule f) (simp_all add: np_key_def)
  next
    case (Some err)
    with assms(3) c obtain reason msg res where f: "finish r ch
        (SetReadyConditionFalse (cl_SetStatusCondition (rc_Client r)) reason msg np) previous res w1 = (out, w')"
      by (auto simp: reconcile_apply_def Let_def split: prod.splits)
    show ?thesis by (intro exI conjI, rule f) (simp_all add: np_key_def)
  qed
  then have "status_may stat (np_key np) (st_FQDNs (np_Status np)) w1 w'"
    using finish_may [OF assms(1,2)] by metis
  with creation_may [OF assms(1) c] show ?thesis by (rule status_may_trans)
qed

lemma reconcile_no_egress_may:
  assumes "status_doc (rc_Client r) stat" and "choices_ok ch" and "reconcile_no_egress r ch np previous w = (out, evs, w')"
  shows "status_may stat (np_key np) (st_FQDNs (np_Status np)) w w'"
proof (cases "st_ObservedGeneration (np_Status np) = np_Generation np")
  case True
  with assms(3) show ?thesis by (simp add: reconcile_no_egress_def)
next
  case False
  define np1 where "np1 = SetReadyConditionFalse (cl_SetStatusCondition (rc_Client r)) NetworkPolicyReadyFailure
    ''Network policy has no egress rules specified.'' np"
  obtain e np2 w1 where u: "updateStatusIfNeeded (rc_Client r) ch np1 previous w = (e, np2, w1)"
    using prod_cases3 by blast
  have "w' = w1 \<or> (\<exists>err evs. reconcileNetworkPolicyDeletion (rc_Client r) np2 w1 = (err, evs, w'))"
    using assms(3) False u unfolding reconcile_no_egress_def Let_def np1_def [symmetric]
    by (auto split: prod.splits option.splits)
  then have "status_may stat (np_key np) (st_FQDNs (np_Status np)) w1 w'"
    using deletion_may [OF assms(1)] by (metis status_may_refl)
  moreover have "status_may stat (np_key np) (st_FQDNs (np_Status np)) w w1"
    using updateStatus_may [OF assms(1,2) u] by (simp add: np1_def np_key_def)
  ultimately show ?thesis by (metis status_may_trans)
qed

lemma Reconcile_may:
  assumes "status_doc (rc_Client r) stat" and "choices_ok ch" and "Reconcile r ch key w = Some (out, evs, w')"
    and "cl_Get_np (rc_Client r) key w = (Inr np, w1)"
  shows "status_may stat key (new_statuses r ch np) w w'"
proof -
  have key: "np_key np = key" using assms(1,4) unfolding status_doc_def by blast
  obtain np' mnp evs1 where c: "compute_policy r ch np = Some (np', mnp, evs1)"
    using assms(3,4) by (cases "compute_policy r ch np") (auto simp: Reconcile_def)
  have np': "np_key np' = key" "st_FQDNs (np_Status np') = new_statuses r ch np"
    using compute_policy_Some [OF c] key by (simp_all add: np_key_def)
  have "status_may stat key (new_statuses r ch np) w1 w'"
  proof (cases mnp)
    case None
    then obtain evs2 where "reconcile_no_egress r ch np' np w1 = (out, evs2, w')"
      using assms(3,4) c by (auto simp: Reconcile_def split: prod.splits)
    from reconcile_no_egress_may [OF assms(1,2) this] show ?thesis by (simp add: np')
  next
    case (Some m)
    then obtain evs2 where "reconcile_apply r ch np' np m w1 = (out, evs2, w')"
      using assms(3,4) c by (auto simp: Reconcile_def split: prod.splits)
    from reconcile_apply_may [OF assms(1,2) this] show ?thesis by (simp add: np')
  qed
  with status_doc_kept(1) [OF assms(1,4)] show ?thesis by (rule status_may_trans)
qed

lemma Reconcile_unread_kept:
  assumes "status_doc (rc_Client r) stat" and "Reconcile r ch key w = Some (out, evs, w')"
    and "cl_Get_np (rc_Client r) key w = (Inl e, w1)"
  shows "status_kept stat w w'"
proof -
  have "w' = w1" using assms(2,3) by (auto simp: Reconcile_def split: if_splits)
  with assms(1,3) show ?thesis unfolding status_doc_def by (metis snd_conv)
qed

subsection \<open>Runs of a cluster\<close>

text \<open>The answers a reconciliation works with are those of some run of the concurrent resolver.\<close>

definition resolved_by_Resolve :: "'w NetworkPolicyReconciler \<Rightarrow> choices \<Rightarrow> NetworkPolicy \<Rightarrow> bool" where
  "resolved_by_Resolve r ch np \<longleftrightarrow>
     (\<exists>cap L. (\<forall>i. foreign_lookup (L i)) \<and>
        Resolve cap L (sp_EnabledNetworkType (np_Spec np)) (FQDNs (ch_fqdns ch) np) (resolve_results r ch np))"

definition answers :: "'w NetworkPolicyReconciler \<Rightarrow> choices \<Rightarrow> NetworkPolicy \<Rightarrow> round" where
  "answers r ch np = (ch_clock ch, resolve_results r ch np)"

inductive cluster_run :: "'w client \<Rightarrow> 'w observe_statuses \<Rightarrow> ObjectKey \<Rightarrow> round list \<Rightarrow> 'w \<Rightarrow> bool"
  for c stat key where
  start: "stat w key = [] \<Longrightarrow> cluster_run c stat key [] w"
| users: "cluster_run c stat key h w \<Longrightarrow> status_kept stat w w' \<Longrightarrow> cluster_run c stat key h w'"
| reconcile: "cluster_run c stat key h w \<Longrightarrow> rc_Client r = c \<Longrightarrow> choices_ok ch \<Longrightarrow>
    cl_Get_np c key w = (Inr np, w1) \<Longrightarrow> resolved_by_Resolve r ch np \<Longrightarrow>
    Reconcile r ch key w = Some (out, evs, w') \<Longrightarrow> cluster_run c stat key (answers r ch np # h) w'"
| unread: "cluster_run c stat key h w \<Longrightarrow> rc_Client r = c \<Longrightarrow> cl_Get_np c key w = (Inl e, w1) \<Longrightarrow>
    Reconcile r ch key w = Some (out, evs, w') \<Longrightarrow> cluster_run c stat key h w'"
| other_policy: "cluster_run c stat key h w \<Longrightarrow> rc_Client r = c \<Longrightarrow> choices_ok ch \<Longrightarrow> other \<noteq> key \<Longrightarrow>
    Reconcile r ch other w = Some (out, evs, w') \<Longrightarrow> cluster_run c stat key h w'"

lemma resolve_results_distinct:
  assumes "resolved_by_Resolve r ch np" and "choices_ok ch"
  shows "distinct (map rr_FQDN (resolve_results r ch np))"
proof -
  have "mset (map rr_FQDN (resolve_results r ch np)) = mset (FQDNs (ch_fqdns ch) np)"
    using assms(1) Resolve_results unfolding resolved_by_Resolve_def by blast
  moreover have "distinct (FQDNs (ch_fqdns ch) np)" using assms(2) by (simp add: choices_ok_def FQDNs_distinct)
  ultimately show ?thesis by (rule mset_eq_imp_distinct_iff [THEN iffD2])
qed

lemma new_statuses_run:
  assumes "status_run h (st_FQDNs (np_Status np))" and "choices_ok ch" and "resolved_by_Resolve r ch np"
  shows "status_run (answers r ch np # h) (new_statuses r ch np)"
proof -
  have "\<forall>f. reordering (ch_retain ch f)" using assms(2) by (simp add: choices_ok_def)
  from status_run.reconcile [OF assms(1) this, of "answers r ch np"] resolve_results_distinct [OF assms(3,2)]
  show ?thesis by (simp add: answers_def new_statuses_def)
qed

lemma status_may_other:
  "status_may stat other fq w w' \<Longrightarrow> other \<noteq> key \<Longrightarrow> stat w' key = stat w key \<or> stat w' key = []"
  unfolding status_may_def by metis

lemma status_run_stored: "status_run h fq \<Longrightarrow> stored fq sts \<Longrightarrow> status_run h sts"
  unfolding stored_def by (auto intro: status_run.store)

lemma status_run_kept: "status_run h (stat w key) \<Longrightarrow> stat w' key = stat w key \<or> stat w' key = [] \<Longrightarrow> status_run h (stat w' key)"
  by (auto intro: status_run.recreate)

lemma reconcile_status_run:
  assumes "status_doc (rc_Client r) stat" and "choices_ok ch" and "status_run h (stat w key)"
    and "cl_Get_np (rc_Client r) key w = (Inr np, w1)" and "resolved_by_Resolve r ch np"
    and "Reconcile r ch key w = Some (out, evs, w')"
  shows "status_run (answers r ch np # h) (stat w' key)"
proof -
  have "st_FQDNs (np_Status np) = stat w key" using assms(1,4) unfolding status_doc_def by blast
  then have new: "status_run (answers r ch np # h) (new_statuses r ch np)"
    using new_statuses_run [OF _ assms(2,5)] assms(3) by metis
  have "stat w' key = stat w key \<or> stat w' key = [] \<or> stored (new_statuses r ch np) (stat w' key)"
    using Reconcile_may [OF assms(1,2,6,4)] unfolding status_may_def by blast
  then show ?thesis
    using status_run.lost [OF assms(3)] status_run.recreate [OF new] status_run_stored [OF new] by metis
qed

text \<open>
  The reconciler refines the history of statuses: in every reachable cluster the recorded statuses of
  the policy are those of a \<open>status_run\<close> over the answers received for it.
\<close>

lemma cluster_status_run:
  assumes "cluster_run c stat key h w" and "status_doc c stat"
  shows "status_run h (stat w key)"
  using assms
proof (induction rule: cluster_run.induct)
  case (start w)
  then show ?case by (simp add: status_run.start)
next
  case (users h w w')
  then show ?case using status_run_kept unfolding status_kept_def by metis
next
  case (reconcile h w r ch np w1 out evs w')
  then show ?case using reconcile_status_run by metis
next
  case (unread h w r e w1 ch out evs w')
  then have "status_kept stat w w'" using Reconcile_unread_kept by metis
  with unread show ?case using status_run_kept unfolding status_kept_def by metis
next
  case (other_policy h w r ch other out evs w')
  obtain x w1 where g: "cl_Get_np (rc_Client r) other w = (x, w1)" by (rule prod.exhaust)
  have doc: "status_doc (rc_Client r) stat" using other_policy.hyps(2) other_policy.prems by simp
  have "\<exists>fq. status_may stat other fq w w'"
  proof (cases x)
    case (Inl e)
    then have "status_kept stat w w'" using Reconcile_unread_kept [OF doc other_policy.hyps(5)] g by simp
    then show ?thesis by (intro exI status_may_kept)
  next
    case (Inr np)
    with g show ?thesis by (intro exI) (rule Reconcile_may [OF doc other_policy.hyps(3,5)], simp)
  qed
  then have "stat w' key = stat w key \<or> stat w' key = []"
    using status_may_other other_policy.hyps(4) by metis
  with other_policy.IH other_policy.prems show ?case using status_run_kept by metis
qed

text \<open>
  (C14) Provenance: in every cluster that reconciliations, users and other policies can lead to, an
  address on record for a name of the policy was an address of a successful DNS answer for exactly
  that name in some earlier reconciliation of the policy; there is one status per name and one entry
  per address. The history includes lost writes, the sorting of what is stored, deletion and
  re-creation.
\<close>

theorem cluster_provenance:
  assumes "cluster_run c stat key h w" and "status_doc c stat" and "a \<in> ae_Address ` recorded (stat w key) f"
  shows "resolved_in h f a \<and> statuses_wf (stat w key) \<and> distinct (map fs_FQDN (stat w key))"
  using cluster_status_run [OF assms(1,2)] recorded_resolved assms(3) status_run_wf by blast

subsection \<open>A sample run\<close>

definition sample_stat :: "cluster observe_statuses" where
  "sample_stat w key = (case gm_lookup (cs_np w) key of None \<Rightarrow> [] | Some np \<Rightarrow> st_FQDNs (np_Status np))"

lemma sample_status_doc: "status_doc sample_client sample_stat"
  unfolding status_doc_def
  by (intro conjI allI)
    (auto simp: sample_client_def sample_stat_def status_kept_def np_key_def gm_lookup_update Let_def
      split: option.splits sum.splits)

definition first_world :: cluster where
  "first_world = sample_cluster one_name_np [] False"

definition second_world :: cluster where
  "second_world = (case Reconcile sample_reconciler sample_choices (''ns'', ''p'') first_world of
     Some (out, evs, w') \<Rightarrow> w' | None \<Rightarrow> first_world)"

lemma first_Reconcile:
  "case Reconcile sample_reconciler sample_choices (''ns'', ''p'') first_world of
     Some ((res, None), evs, w') \<Rightarrow> no_error_event evs | _ \<Rightarrow> False"
  by code_simp

lemma first_get:
  "cl_Get_np sample_client (''ns'', ''p'') first_world = (Inr one_name_np, first_world)"
  by code_simp

lemma one_name_resolved: "resolved_by_Resolve sample_reconciler sample_choices one_name_np"
proof -
  have h: "FQDNs (ch_fqdns sample_choices) one_name_np = [''a.io'']" "sp_EnabledNetworkType (np_Spec one_name_np) = IPv4"
    "resolve_results sample_reconciler sample_choices one_name_np = [lookup_result sample_lookup IPv4 ''a.io'']"
    by code_simp+
  show ?thesis
    unfolding resolved_by_Resolve_def h
    by (intro exI conjI) (rule allI, rule sample_lookup_foreign, rule sample_Resolve)
qed

lemma sample_cluster_run:
  "cluster_run sample_client sample_stat (''ns'', ''p'') [answers sample_reconciler sample_choices one_name_np] second_world"
proof -
  obtain out evs where r: "Reconcile sample_reconciler sample_choices (''ns'', ''p'') first_world = Some (out, evs, second_world)"
    using first_Reconcile by (auto simp: second_world_def split: option.splits)
  have "sample_stat first_world (''ns'', ''p'') = []" by code_simp
  then have "cluster_run sample_client sample_stat (''ns'', ''p'') [] first_world" by (rule cluster_run.start)
  then show ?thesis
    using cluster_run.reconcile [OF _ _ sample_choices_ok first_get one_name_resolved r]
    by (simp add: sample_reconciler_def)
qed

theorem cluster_provenance_witness:
  "resolved_in [answers sample_reconciler sample_choices one_name_np] ''a.io'' ''8.8.8.8/32'' \<and>
   statuses_wf (sample_stat second_world (''ns'', ''p''))"
proof -
  have "''8.8.8.8/32'' \<in> ae_Address ` recorded (sample_stat second_world (''ns'', ''p'')) ''a.io''"
    unfolding recorded_def by code_simp
  with cluster_provenance [OF sample_cluster_run sample_status_doc] show ?thesis by blast
qed

end
