(* ===== verification/Reconcile_Steady.thy ===== *)
theory Reconcile_Steady
  imports Reconcile_Correct Status_History
begin

text \<open>
  No churn: a reconciliation that finds the status written by the previous one and gets the same
  answers, in whatever order they come in, generates the same policy and does not write the status.
  The answers arrive in the order in which the goroutines finish, the maps are iterated in other
  orders, the clock has moved on and the stored status was sorted in between; none of it shows
  (\<open>reconcile_steady\<close>), as long as every name resolved: with failing names the order shows in the message of
  a condition, and the status is written again (\<open>failing_status_rewritten\<close>). Both rest on
  \<open>settled_compute\<close>, which covers all answers but transient failures.
\<close>

subsection \<open>Statuses of settled answers\<close>

text \<open>An answer is settled when the name resolved or failed for good: its status does not depend on the time.\<close>

definition settled :: "DNSResolverResult \<Rightarrow> bool" where
  "settled r \<longleftrightarrow> \<not> Transient (rr_Status r)"

lemma succeeded_settled: "list_all succeeded rl \<Longrightarrow> list_all settled rl"
  using Success_not_Transient by (auto simp: list_all_iff succeeded_def settled_def)

lemma updated_Addresses:
  assumes "settled r"
  shows "fs_Addresses (fst (updated clock sts retry i r)) =
    (if succeeded r then map (\<lambda>c. \<lparr>ae_Address = CIDR_String c, ae_MissingSince = None\<rparr>) (rr_CIDRs r) else [])"
  using assms by (simp add: updated_def settled_def succeeded_def Update_Success Update_permanent)

lemma updated_again:
  assumes "settled r" and "reordering ra"
    and "previous_status sts' (rr_FQDN r) =
      (fst (updated clock sts retry i r))\<lparr>fs_Addresses := sort_Slice ra lt (fs_Addresses (fst (updated clock sts retry i r)))\<rparr>"
  shows "fst (updated clock' sts' retry' i' r) = fst (updated clock sts retry i r)"
proof (cases "succeeded r")
  case True
  then show ?thesis unfolding updated_def [of clock'] assms(3)
    by (simp add: updated_def Update_Success succeeded_def)
next
  case False
  let ?st = "fst (updated clock sts retry i r)"
  have "fs_Addresses ?st = []" using False by (simp add: updated_Addresses [OF assms(1)])
  moreover have "ra [] = []" using reorder_simps(1) [OF assms(2), of "[]"] by simp
  ultimately have prev: "previous_status sts' (rr_FQDN r) = ?st"
    unfolding assms(3) by (simp add: sort_Slice_def sort_SliceStable_def)
  have st: "fs_Addresses ?st = []" "fs_FailingSince ?st \<noteq> None" "fs_Reason ?st = rr_Status r" "fs_Message ?st = rr_Message r"
    using False assms(1) \<open>fs_Addresses ?st = []\<close> by (simp_all add: updated_def settled_def succeeded_def Update_permanent)
  show ?thesis unfolding updated_def [of clock'] prev
    using st False assms(1) by (auto simp: FQDNStatus_Update_def Let_def settled_def succeeded_def)
qed

lemma refresh_settled_nth:
  assumes "sint ret \<le> 0" and "list_all settled results" and "i < length results"
  shows "refresh clock order retry ret sts results ! i = fst (updated clock sts retry i (results ! i))"
proof -
  have "settled (results ! i)" using assms(2,3) by (simp add: list_all_length)
  then have "clear_missing (fst (updated clock sts retry i (results ! i))) = fst (updated clock sts retry i (results ! i))"
    by (simp add: clear_missing_def updated_Addresses)
  then show ?thesis
    using assms(1,3) by (simp add: refresh_def retain_addresses_def updateFQDNStatuses_nth)
qed

lemma refresh_settled_wf:
  assumes "sint ret \<le> 0" and "list_all settled results"
  shows "statuses_wf (refresh clock order retry ret sts results)"
  unfolding statuses_wf_def list_all_length
  using assms by (auto simp: refresh_settled_nth updated_Addresses list_all_length inj_on_def)

lemma refresh_as_map:
  assumes "distinct (map rr_FQDN results)"
  shows "refresh clock order retry ret sts results =
    map (\<lambda>r. previous_status (refresh clock order retry ret sts results) (rr_FQDN r)) results"
  by (rule nth_equalityI) (simp_all add: previous_status_refresh [OF assms])

text \<open>The status of a name after its list has been sorted and stored.\<close>

lemma previous_status_distinct:
  "distinct (map fs_FQDN sts) \<Longrightarrow> st \<in> set sts \<Longrightarrow> previous_status sts (fs_FQDN st) = st"
  using status_table.lookup_distinct by (simp add: previous_status_def)

lemma previous_status_sorted:
  assumes "reordering rf" and "distinct (map fs_FQDN (st_FQDNs s))" and "f \<in> fs_FQDN ` set (st_FQDNs s)"
  shows "previous_status (st_FQDNs (sortStatus rf ra s)) f =
    (previous_status (st_FQDNs s) f)\<lparr>fs_Addresses := sort_Slice ra address_less (fs_Addresses (previous_status (st_FQDNs s) f))\<rparr>"
proof -
  obtain st where st: "st \<in> set (st_FQDNs s)" "fs_FQDN st = f" using assms(3) by blast
  let ?st = "st\<lparr>fs_Addresses := sort_Slice ra address_less (fs_Addresses st)\<rparr>"
  have "?st \<in> set (st_FQDNs (sortStatus rf ra s))" using st(1) by (simp add: sortStatus_set [OF assms(1)])
  from previous_status_distinct [OF _ this] have "previous_status (st_FQDNs (sortStatus rf ra s)) f = ?st"
    using assms(2) st(2) by (simp add: sortStatus_distinct [OF assms(1)])
  moreover have "previous_status (st_FQDNs s) f = st" using previous_status_distinct [OF assms(2) st(1)] st(2) by simp
  ultimately show ?thesis by simp
qed

lemma refresh_again:
  assumes "sint ret \<le> 0" and "list_all settled results" and "distinct (map rr_FQDN results)"
    and "mset results' = mset results" and "reordering rf" and "reordering ra"
    and "st_FQDNs s = refresh clock order retry ret sts results"
  shows "mset (refresh clock' order' retry' ret (st_FQDNs (sortStatus rf ra s)) results') = mset (st_FQDNs s)"
proof -
  let ?sts = "refresh clock order retry ret sts results"
  have set_eq: "set results' = set results" using mset_eq_setD [OF assms(4)] .
  then have ok': "list_all settled results'" using assms(2) by (simp add: list_all_iff)
  have names: "map fs_FQDN ?sts = map rr_FQDN results" by (rule refresh_names)
  have "refresh clock' order' retry' ret (st_FQDNs (sortStatus rf ra s)) results' ! i =
    previous_status ?sts (rr_FQDN (results' ! i))" if i: "i < length results'" for i
  proof -
    obtain j where j: "j < length results" "results ! j = results' ! i"
      using i set_eq by (metis in_set_conv_nth)
    have prev: "previous_status ?sts (rr_FQDN (results' ! i)) = ?sts ! j"
      using previous_status_refresh [OF assms(3) j(1)] j(2) by simp
    have "rr_FQDN (results' ! i) \<in> fs_FQDN ` set ?sts"
      using i set_eq names by (metis image_set image_eqI nth_mem)
    then have "previous_status (st_FQDNs (sortStatus rf ra s)) (rr_FQDN (results' ! i)) =
      (?sts ! j)\<lparr>fs_Addresses := sort_Slice ra address_less (fs_Addresses (?sts ! j))\<rparr>"
      using previous_status_sorted [OF assms(5), of s] assms(3,7) names prev by simp
    then show ?thesis
      unfolding refresh_settled_nth [OF assms(1) ok' i] prev refresh_settled_nth [OF assms(1,2) j(1)] j(2)
      using ok' i by (intro updated_again [OF _ assms(6)]) (simp_all add: list_all_length)
  qed
  then have "refresh clock' order' retry' ret (st_FQDNs (sortStatus rf ra s)) results' =
    map (\<lambda>r. previous_status ?sts (rr_FQDN r)) results'" by (intro nth_equalityI) simp_all
  then show ?thesis using assms(4,7) refresh_as_map [OF assms(3)] by (metis mset_map)
qed

subsection \<open>Sorting again\<close>

lemma sortStatus_mset:
  assumes "reordering rf" and "reordering ra" and "reordering rf'" and "reordering ra'"
    and "distinct (map fs_FQDN (st_FQDNs s))" and "statuses_wf (st_FQDNs s)" and "mset sts = mset (st_FQDNs s)"
  shows "sortStatus rf ra (s\<lparr>st_FQDNs := sts\<rparr>) = sortStatus rf' ra' s"
proof -
  have inj: "inj_on fs_FQDN (set (st_FQDNs s))" using assms(5) by (simp add: distinct_map)
  have set_eq: "set sts = set (st_FQDNs s)" by (rule mset_eq_setD) fact
  have "statuses_wf sts" "distinct (map fs_FQDN sts)"
    using assms(5-7) set_eq by (simp add: statuses_wf_def list_all_iff, metis mset_eq_imp_distinct_iff mset_map)
  then have "sortStatus rf ra (s\<lparr>st_FQDNs := sts\<rparr>) = sortStatus rf' ra' (s\<lparr>st_FQDNs := sts\<rparr>)"
    by (intro sortStatus_cong assms(1-4)) simp_all
  moreover have "sort_Slice rf' fqdn_less sts = sort_Slice rf' fqdn_less (st_FQDNs s)"
    using fqdn_order.slice_reordering [OF assms(3)] fqdn_order.stable_unique [OF assms(7)] inj set_eq by simp
  ultimately show ?thesis by (simp add: sortStatus_def)
qed

lemma sortStatus_idem:
  assumes "reordering rf" and "reordering ra" and "reordering rp" and "reordering ap"
    and "distinct (map fs_FQDN (st_FQDNs s))" and "statuses_wf (st_FQDNs s)"
  shows "sortStatus rp ap (sortStatus rf ra s) = sortStatus rf ra s"
proof -
  let ?t = "sortStatus rf ra s"
  have d: "distinct (map fs_FQDN (st_FQDNs ?t))" and wf: "statuses_wf (st_FQDNs ?t)"
    using assms by (simp_all add: sortStatus_distinct sortStatus_wf)
  then have "sort_Slice rp fqdn_less (st_FQDNs ?t) = sort_SliceStable fqdn_less (st_FQDNs ?t)"
    by (intro fqdn_order.slice_reordering assms(3)) (simp add: distinct_map)
  also have "\<dots> = st_FQDNs ?t"
    by (rule fqdn_order.stable_fixpoint) (simp add: sortStatus_names [OF assms(1)])
  finally have names: "sort_Slice rp fqdn_less (st_FQDNs ?t) = st_FQDNs ?t" .
  have "sort_Slice ap address_less (fs_Addresses st) = fs_Addresses st" if st: "st \<in> set (st_FQDNs ?t)" for st
  proof -
    have "sort_Slice ap address_less (fs_Addresses st) = sort_SliceStable address_less (fs_Addresses st)"
      using wf st by (intro address_order.slice_reordering assms(4)) (simp add: statuses_wf_def list_all_iff)
    moreover have "sorted (map ae_Address (fs_Addresses st))"
      using st address_order.stable_sorted by (auto simp: sortStatus_set [OF assms(1)] sort_Slice_def)
    ultimately show ?thesis by (simp add: address_order.stable_fixpoint)
  qed
  then have "map (\<lambda>st. st\<lparr>fs_Addresses := sort_Slice ap address_less (fs_Addresses st)\<rparr>) (st_FQDNs ?t) = st_FQDNs ?t"
    by (intro map_idI) simp
  then show ?thesis unfolding sortStatus_def [of rp ap ?t] names by simp
qed

subsection \<open>Conditions again\<close>

text \<open>The policy whose status is written after a successful apply.\<close>

definition ready_np :: "set_condition \<Rightarrow> MultiNetworkPolicy \<Rightarrow> NetworkPolicy \<Rightarrow> NetworkPolicy" where
  "ready_np setc m np =
     (if IsEmpty (Some m)
      then SetReadyConditionTrue setc NetworkPolicyReadyEmptyRules
        ''Network policy has no FQDNs resolved to valid IP addresses, the default egress deny-all is in effect.'' np
      else SetReadyConditionTrue setc NetworkPolicyReadySuccess ''Network policy was successfully applied.'' np)"

lemma reconcile_apply_ready:
  assumes "reconcileNetworkPolicyCreation (rc_Client r) np m w = (None, evs, w1)"
  shows "reconcile_apply r ch np previous m w =
    (let (res, w2) = finish r ch (ready_np (cl_SetStatusCondition (rc_Client r)) m np) previous
       \<lparr>RequeueAfter = duration_seconds (sint (sp_TTLSeconds (np_Spec np)))\<rparr> w1 in (res, evs, w2))"
  using assms by (simp add: reconcile_apply_def ready_np_def Let_def)

definition resolved_condition :: "int64 \<Rightarrow> NetworkPolicyResolutionReason \<Rightarrow> string \<Rightarrow> Condition" where
  "resolved_condition g reason message =
     \<lparr>c_Type = NetworkPolicyResolved,
      c_Status = (if reason = NetworkPolicyResolutionSuccess then ConditionTrue else ConditionFalse),
      c_ObservedGeneration = g, c_LastTransitionTime = zeroTime, c_Reason = reason, c_Message = message\<rparr>"

definition ready_condition :: "int64 \<Rightarrow> MultiNetworkPolicy \<Rightarrow> Condition" where
  "ready_condition g m =
     \<lparr>c_Type = NetworkPolicyReady, c_Status = ConditionTrue, c_ObservedGeneration = g,
      c_LastTransitionTime = zeroTime,
      c_Reason = (if IsEmpty (Some m) then NetworkPolicyReadyEmptyRules else NetworkPolicyReadySuccess),
      c_Message = (if IsEmpty (Some m)
        then ''Network policy has no FQDNs resolved to valid IP addresses, the default egress deny-all is in effect.''
        else ''Network policy was successfully applied.'')\<rparr>"

lemma conditions_again:
  assumes "SetStatusCondition_doc setc" and "SetStatusCondition_same_doc setc" and "c_Type a \<noteq> c_Type b"
  shows "setc (setc (setc (setc cs a) b) a) b = setc (setc cs a) b"
proof -
  note doc = assms(1) [unfolded SetStatusCondition_doc_def]
  note same = assms(2) [unfolded SetStatusCondition_same_doc_def, rule_format]
  obtain d where d: "condition_of (c_Type a) (setc cs a) = Some d" "same_condition d a" using doc by blast
  have "condition_of (c_Type a) (setc (setc cs a) b) = Some d" using doc assms(3) d(1) by metis
  then have "setc (setc (setc cs a) b) a = setc (setc cs a) b" using same d(2) by blast
  moreover obtain e where "condition_of (c_Type b) (setc (setc cs a) b) = Some e" "same_condition e b" using doc by blast
  ultimately show ?thesis using same by metis
qed

subsection \<open>The whole reconciliation again\<close>

definition final_status ::
  "set_condition \<Rightarrow> int64 \<Rightarrow> DNSResolverResultList \<Rightarrow> string \<Rightarrow> MultiNetworkPolicy \<Rightarrow> FQDNStatus list \<Rightarrow>
   NetworkPolicyStatus \<Rightarrow> NetworkPolicyStatus" where
  "final_status setc g results message m sts s =
     s\<lparr>st_FQDNs := sts, st_TotalAddressCount := of_nat (length (ResultList_CIDRs results)),
       st_AppliedAddressCount := word_of_int (CountUniqueAddresses (Some m)),
       st_Conditions := setc (setc (st_Conditions s) (resolved_condition g (AggregatedResolutionStatus results) message))
         (ready_condition g m),
       st_ObservedGeneration := g,
       st_ActiveFQDNCount := of_nat (length (filter has_addresses sts)),
       st_FailingFQDNCount := of_nat (length (filter (Not \<circ> has_addresses) sts))\<rparr>"

lemma computed_final:
  assumes "compute_policy r ch np = Some (np', Some m, evs)"
    and "AggregatedResolutionMessage (resolve_results r ch np) = Some message"
  shows "(np_Status (ready_np (cl_SetStatusCondition (rc_Client r)) m np'))
        \<lparr>st_ObservedGeneration := np_Generation (ready_np (cl_SetStatusCondition (rc_Client r)) m np'),
         st_ActiveFQDNCount := of_nat (length (filter has_addresses (new_statuses r ch np))),
         st_FailingFQDNCount := of_nat (length (filter (Not \<circ> has_addresses) (new_statuses r ch np)))\<rparr> =
    final_status (cl_SetStatusCondition (rc_Client r)) (np_Generation np) (resolve_results r ch np)
      message m (new_statuses r ch np) (np_Status np)"
    and "(ready_np (cl_SetStatusCondition (rc_Client r)) m np')\<lparr>np_Status := s\<rparr> = np\<lparr>np_Status := s\<rparr>"
  using assms
  by (auto simp: compute_policy_def generate_policy_def Let_def resolve_results_def new_statuses_def refresh_def ready_np_def final_status_def
      condition_setter_defs resolved_condition_def ready_condition_def split: option.splits prod.splits)

lemma ready_np_simps [simp]:
  "np_Spec (ready_np setc m np) = np_Spec np" "st_FQDNs (np_Status (ready_np setc m np)) = st_FQDNs (np_Status np)"
  by (simp_all add: ready_np_def)

lemma written_np:
  assumes "compute_policy r ch np = Some (np', Some m, evs)"
    and "AggregatedResolutionMessage (resolve_results r ch np) = Some message"
    and "updateStatusIfNeeded (rc_Client r) ch (ready_np (cl_SetStatusCondition (rc_Client r)) m np') previous w = (err, np2, w')"
  shows "np2 = np\<lparr>np_Status := sortStatus (ch_sort_np ch) (ch_addr_np ch)
      (final_status (cl_SetStatusCondition (rc_Client r)) (np_Generation np) (resolve_results r ch np)
        message m (new_statuses r ch np) (np_Status np))\<rparr>"
proof -
  have "st_FQDNs (np_Status np') = new_statuses r ch np" by (rule compute_policy_Some(5) [OF assms(1)])
  with updateStatus_np [OF assms(3)] computed_final [OF assms(1,2)] show ?thesis by simp
qed

lemma AggregatedResolutionMessage_success:
  assumes "list_all succeeded rl"
  shows "AggregatedResolutionMessage rl = Some (if length rl = 0 then ''Network policy has no FQDNs defined.''
    else ''All '' @ Itoa (int (length rl)) @ '' FQDNs resolved successfully.'')"
proof -
  have "filter succeeded rl = rl" using assms by (simp add: list_all_iff)
  then have "fst (worstResult_loop (0, None) rl) = length rl" by (simp add: worstResult_loop_count)
  then show ?thesis by (auto simp: AggregatedResolutionMessage_def Let_def split: prod.splits)
qed

lemma length_ResultList_CIDRs_mset:
  assumes "mset rl' = mset rl"
  shows "length (ResultList_CIDRs rl') = length (ResultList_CIDRs rl)"
proof -
  have "mset (map (\<lambda>r. length (rr_CIDRs r)) rl') = mset (map (\<lambda>r. length (rr_CIDRs r)) rl)" using assms by simp
  then have "sum_list (map (\<lambda>r. length (rr_CIDRs r)) rl') = sum_list (map (\<lambda>r. length (rr_CIDRs r)) rl)"
    by (metis sum_mset_sum_list)
  then show ?thesis by (simp add: ResultList_CIDRs_concat length_concat comp_def)
qed

lemma length_filter_mset: "mset xs = mset ys \<Longrightarrow> length (filter P xs) = length (filter P ys)"
  by (metis mset_filter size_mset)

definition next_conditions ::
  "set_condition \<Rightarrow> int64 \<Rightarrow> DNSResolverResultList \<Rightarrow> string \<Rightarrow> MultiNetworkPolicy \<Rightarrow> Condition list \<Rightarrow> Condition list" where
  "next_conditions setc g results message m cs =
     setc (setc cs (resolved_condition g (AggregatedResolutionStatus results) message)) (ready_condition g m)"

lemma final_status_conditions [simp]:
  "st_Conditions (final_status setc g results message m sts s) = next_conditions setc g results message m (st_Conditions s)"
  by (simp add: final_status_def next_conditions_def)

lemma sortStatus_Conditions [simp]:
  "st_Conditions (sortStatus rf ra s) = st_Conditions s"
  "sortStatus rf ra (s\<lparr>st_Conditions := cs\<rparr>) = (sortStatus rf ra s)\<lparr>st_Conditions := cs\<rparr>"
  by (simp_all add: sortStatus_def)

lemma AggregatedResolutionStatus_mset:
  "mset rl' = mset rl \<Longrightarrow> AggregatedResolutionStatus rl' = AggregatedResolutionStatus rl"
  using mset_eq_setD [of rl' rl] by (simp add: AggregatedResolutionStatus_cases list_all_iff list_ex_iff)

lemma final_status_again:
  assumes "mset results' = mset results" and "mset sts' = mset sts"
  shows "final_status setc g results' message' m sts' (sortStatus rf ra (final_status setc g results message m sts s)) =
    (final_status setc g results message m sts s)
      \<lparr>st_FQDNs := sts', st_Conditions := next_conditions setc g results message' m
         (next_conditions setc g results message m (st_Conditions s))\<rparr>"
  by (simp add: final_status_def sortStatus_def next_conditions_def length_ResultList_CIDRs_mset [OF assms(1)]
      length_filter_mset [OF assms(2)] AggregatedResolutionStatus_mset [OF assms(1)])

text \<open>The conditions stay as they are exactly when the message does.\<close>

lemma next_conditions_same:
  assumes "SetStatusCondition_doc setc" and "SetStatusCondition_same_doc setc"
  shows "next_conditions setc g results message m (next_conditions setc g results message m cs) =
    next_conditions setc g results message m cs"
  unfolding next_conditions_def
  by (rule conditions_again [OF assms]) (simp add: resolved_condition_def ready_condition_def)

lemma next_conditions_message:
  assumes "SetStatusCondition_doc setc"
  shows "map_option c_Message (condition_of NetworkPolicyResolved (next_conditions setc g results message m cs)) = Some message"
proof -
  note doc = assms [unfolded SetStatusCondition_doc_def]
  let ?c = "resolved_condition g (AggregatedResolutionStatus results) message"
  obtain d where d: "condition_of (c_Type ?c) (setc cs ?c) = Some d" "same_condition d ?c" using doc by blast
  have "c_Type ?c \<noteq> c_Type (ready_condition g m)" by (simp add: resolved_condition_def ready_condition_def)
  then have "condition_of (c_Type ?c) (next_conditions setc g results message m cs) = Some d"
    using doc d(1) unfolding next_conditions_def by metis
  with d(2) show ?thesis by (simp add: resolved_condition_def same_condition_def)
qed

lemma steady_policy:
  assumes "choices_ok ch" and "choices_ok ch'" and "IntOrString_String_doc (cl_IntOrString_String (rc_Client r))"
    and "rc_Client r' = rc_Client r" and "crd_Spec (np_Spec np)" and "no_end_ports (np_Spec np)"
    and "compute_policy r ch np = Some (np1, Some m, evs)" and "compute_policy r' ch' np2 = Some (np3, m', evs')"
    and "np2 = np\<lparr>np_Status := s\<rparr>" and "distinct (map fs_FQDN (new_statuses r ch np))"
    and "mset (new_statuses r' ch' np2) = mset (new_statuses r ch np)"
  shows "m' = Some m"
proof -
  let ?pstr = "cl_IntOrString_String (rc_Client r)"
  let ?np = "with_statuses np (new_statuses r ch np)" and ?np2 = "with_statuses np2 (new_statuses r' ch' np2)"
  have ord: "dedup_order_ok (ch_dedup ch)" "dedup_order_ok (ch_dedup ch')" using assms(1,2) by (simp_all add: choices_ok_def)
  have same: "ToMultiNetworkPolicy ?np2 (new_statuses r' ch' np2) = ToMultiNetworkPolicy ?np (new_statuses r ch np)"
    using assms(9-11) by (intro ToMultiNetworkPolicy_cong [symmetric]) simp_all
  note m = compute_policy_Some(7) [OF assms(7)] and m' = compute_policy_Some(7) [OF assms(8)]
  obtain m0 where m0: "ToMultiNetworkPolicy ?np (new_statuses r ch np) = Some m0"
    using m by (cases "ToMultiNetworkPolicy ?np (new_statuses r ch np)") (auto simp: RemoveDuplicateCIDRsInMultiNetworkPolicy_def)
  then have "list_all plain_rule (ms_Egress (mn_Spec m0))"
    using generated_plain [OF _ _ m0] assms(5,6) by (simp add: mnp_egress_def)
  then have "dedup_rules ?pstr (ch_dedup ch') (ms_Egress (mn_Spec m0)) = dedup_rules ?pstr (ch_dedup ch) (ms_Egress (mn_Spec m0))"
    using dedup_rules_order [OF assms(3) ord(2,1)] by simp
  with m m' m0 same ord assms(4) show ?thesis by (simp add: RemoveDuplicateCIDRs_Some)
qed

lemma updateStatus_quiet:
  assumes "updateStatusIfNeeded c ch np previous w = (err, np', w')"
    and "cl_StatusEqual c (sortStatus (ch_sort_prev ch) (ch_addr_prev ch) (np_Status previous)) (np_Status np')"
  shows "err = None \<and> w' = w"
  using assms by (auto simp: updateStatusIfNeeded_def Let_def split: if_splits prod.splits option.splits)

text \<open>
  What the second reconciliation computes from the status the first one wrote: the same policy, and a
  status that differs at most in the conditions.
\<close>

lemma settled_compute:
  assumes "IntOrString_String_doc (cl_IntOrString_String (rc_Client r))"
    and "choices_ok ch" and "choices_ok ch'" and "rc_Client r' = rc_Client r"
    and "crd_Spec (np_Spec np)" and "no_end_ports (np_Spec np)" and "sint (retentionDuration (np_Annotations np)) \<le> 0"
    and "distinct (map rr_FQDN (resolve_results r ch np))" and "list_all settled (resolve_results r ch np)"
    and "compute_policy r ch np = Some (np1, Some m, evs)"
    and "updateStatusIfNeeded (rc_Client r) ch (ready_np (cl_SetStatusCondition (rc_Client r)) m np1) np w = (err, np2, w')"
    and "mset (resolve_results r' ch' np2) = mset (resolve_results r ch np)"
    and "AggregatedResolutionMessage (resolve_results r ch np) = Some message"
    and "AggregatedResolutionMessage (resolve_results r' ch' np2) = Some message'"
  obtains np3 evs' where "compute_policy r' ch' np2 = Some (np3, Some m, evs')"
    and "\<And>v err' np4 v'. updateStatusIfNeeded (rc_Client r') ch' (ready_np (cl_SetStatusCondition (rc_Client r')) m np3) np2 v =
      (err', np4, v') \<Longrightarrow> np4 = np2\<lparr>np_Status := (np_Status np2)\<lparr>st_Conditions :=
        next_conditions (cl_SetStatusCondition (rc_Client r)) (np_Generation np) (resolve_results r ch np) message' m
          (st_Conditions (np_Status np2))\<rparr>\<rparr>"
    and "sortStatus (ch_sort_prev ch') (ch_addr_prev ch') (np_Status np2) = np_Status np2"
    and "st_Conditions (np_Status np2) = next_conditions (cl_SetStatusCondition (rc_Client r)) (np_Generation np)
      (resolve_results r ch np) message m (st_Conditions (np_Status np))"
proof -
  let ?R = "resolve_results r ch np" and ?R' = "resolve_results r' ch' np2"
  let ?sts = "new_statuses r ch np" and ?setc = "cl_SetStatusCondition (rc_Client r)"
  define s1 where "s1 = final_status ?setc (np_Generation np) ?R message m ?sts (np_Status np)"
  have np2: "np2 = np\<lparr>np_Status := sortStatus (ch_sort_np ch) (ch_addr_np ch) s1\<rparr>"
    unfolding s1_def by (rule written_np [OF assms(10,13,11)])
  have s1: "st_FQDNs s1 = ?sts" by (simp add: s1_def final_status_def)
  have ord: "reordering (ch_sort_np ch)" "reordering (ch_addr_np ch)" "reordering (ch_sort_np ch')" "reordering (ch_addr_np ch')"
    "reordering (ch_sort_prev ch')" "reordering (ch_addr_prev ch')" using assms(2,3) by (simp_all add: choices_ok_def)
  have d: "distinct (map fs_FQDN (st_FQDNs s1))" using assms(8) by (simp add: s1 new_statuses_def refresh_names)
  have wf: "statuses_wf (st_FQDNs s1)" unfolding s1 new_statuses_def by (rule refresh_settled_wf) fact+
  have "new_statuses r' ch' np2 = refresh (ch_clock ch') (ch_retain ch') (sint (sp_RetryTimeoutSeconds (np_Spec np)))
      (retentionDuration (np_Annotations np)) (st_FQDNs (sortStatus (ch_sort_np ch) (ch_addr_np ch) s1)) ?R'"
    by (simp add: new_statuses_def np2)
  then have sts': "mset (new_statuses r' ch' np2) = mset ?sts"
    using refresh_again [OF assms(7,9,8,12) ord(1,2)] s1 by (simp add: new_statuses_def)
  obtain np3 m' evs' where c: "compute_policy r' ch' np2 = Some (np3, m', evs')"
    using compute_policy_None [of r' ch' np2] assms(14) by (cases "compute_policy r' ch' np2") auto
  have m': "m' = Some m"
    by (rule steady_policy [OF assms(2,3,1,4,5,6,10) c np2 _ sts']) (use d s1 in simp)
  have gen: "np_Generation np2 = np_Generation np" by (simp add: np2)
  let ?cs = "next_conditions ?setc (np_Generation np) ?R message' m (next_conditions ?setc (np_Generation np) ?R message m (st_Conditions (np_Status np)))"
  have "np4 = np2\<lparr>np_Status := (np_Status np2)\<lparr>st_Conditions := ?cs\<rparr>\<rparr>"
    if u: "updateStatusIfNeeded (rc_Client r') ch' (ready_np (cl_SetStatusCondition (rc_Client r')) m np3) np2 v = (err', np4, v')"
    for v err' np4 v'
  proof -
    have "np4 = np2\<lparr>np_Status := sortStatus (ch_sort_np ch') (ch_addr_np ch') (final_status ?setc (np_Generation np) ?R' message' m
        (new_statuses r' ch' np2) (sortStatus (ch_sort_np ch) (ch_addr_np ch) s1))\<rparr>"
      using written_np [OF c [unfolded m'] assms(14) u] assms(4) gen np2 by simp
    also have "\<dots> = np2\<lparr>np_Status := (sortStatus (ch_sort_np ch') (ch_addr_np ch') (s1\<lparr>st_FQDNs := new_statuses r' ch' np2\<rparr>))
        \<lparr>st_Conditions := ?cs\<rparr>\<rparr>"
      unfolding s1_def final_status_again [OF assms(12) sts'] by simp
    also have "sortStatus (ch_sort_np ch') (ch_addr_np ch') (s1\<lparr>st_FQDNs := new_statuses r' ch' np2\<rparr>) =
        sortStatus (ch_sort_np ch) (ch_addr_np ch) s1"
      by (rule sortStatus_mset [OF ord(3,4,1,2) d wf]) (simp add: sts' s1)
    finally show ?thesis by (simp add: np2)
  qed
  moreover have "st_Conditions (np_Status np2) = next_conditions ?setc (np_Generation np) ?R message m (st_Conditions (np_Status np))"
    by (simp add: np2 s1_def)
  moreover have "sortStatus (ch_sort_prev ch') (ch_addr_prev ch') (np_Status np2) = np_Status np2"
    using sortStatus_idem [OF ord(1,2,5,6) d wf] by (simp add: np2)
  ultimately show thesis using c m' by (intro that) simp_all
qed

text \<open>
  (C15) No churn, for the whole reconciliation of a policy that the schema admits, without end ports and
  without retention, all of whose names resolved and whose generated policy was applied: a
  reconciliation that reads the status written then and gets the same answers in any order generates
  exactly the same policy; once that is applied again successfully, nothing more happens: the status
  is not written, whatever the clock, the map iterations, the unstable sorts and the order of the
  answers do, and the policy is polled again after its interval.
\<close>

theorem reconcile_steady:
  assumes "client_doc (rc_Client r) obs" and "SetStatusCondition_doc (cl_SetStatusCondition (rc_Client r))"
    and "SetStatusCondition_same_doc (cl_SetStatusCondition (rc_Client r))"
    and "choices_ok ch" and "choices_ok ch'" and "rc_Client r' = rc_Client r"
    and "crd_Spec (np_Spec np)" and "no_end_ports (np_Spec np)" and "sint (retentionDuration (np_Annotations np)) \<le> 0"
    and "distinct (map rr_FQDN (resolve_results r ch np))" and "list_all succeeded (resolve_results r ch np)"
    and "compute_policy r ch np = Some (np1, Some m, evs)"
    and "updateStatusIfNeeded (rc_Client r) ch (ready_np (cl_SetStatusCondition (rc_Client r)) m np1) np w = (err, np2, w')"
    and "cl_Get_np (rc_Client r') key v = (Inr np2, v1)"
    and "mset (resolve_results r' ch' np2) = mset (resolve_results r ch np)"
  shows "\<exists>np3 evs'. compute_policy r' ch' np2 = Some (np3, Some m, evs') \<and>
    (\<forall>evs'' v2. reconcileNetworkPolicyCreation (rc_Client r') np3 m v1 = (None, evs'', v2) \<longrightarrow>
      Reconcile r' ch' key v =
        Some ((\<lparr>RequeueAfter = duration_seconds (sint (sp_TTLSeconds (np_Spec np)))\<rparr>, None), evs' @ evs'', v2))"
proof -
  let ?R = "resolve_results r ch np" and ?R' = "resolve_results r' ch' np2"
  have pstr: "IntOrString_String_doc (cl_IntOrString_String (rc_Client r))" using assms(1) by (simp add: client_doc_def)
  obtain message where msg: "AggregatedResolutionMessage ?R = Some message"
    using AggregatedResolutionMessage_success [OF assms(11)] by blast
  have ok': "list_all succeeded ?R'" using assms(11) mset_eq_setD [OF assms(15)] by (simp add: list_all_iff)
  have "length ?R' = length ?R" by (rule mset_eq_length) fact
  then have msg': "AggregatedResolutionMessage ?R' = Some message"
    using AggregatedResolutionMessage_success [OF ok'] AggregatedResolutionMessage_success [OF assms(11)] msg by simp
  obtain np3 evs' where c: "compute_policy r' ch' np2 = Some (np3, Some m, evs')"
    and np4: "\<And>v err' np4 v'. updateStatusIfNeeded (rc_Client r') ch' (ready_np (cl_SetStatusCondition (rc_Client r')) m np3) np2 v =
      (err', np4, v') \<Longrightarrow> np4 = np2\<lparr>np_Status := (np_Status np2)\<lparr>st_Conditions :=
        next_conditions (cl_SetStatusCondition (rc_Client r)) (np_Generation np) ?R message m (st_Conditions (np_Status np2))\<rparr>\<rparr>"
    and idem: "sortStatus (ch_sort_prev ch') (ch_addr_prev ch') (np_Status np2) = np_Status np2"
    and cs: "st_Conditions (np_Status np2) = next_conditions (cl_SetStatusCondition (rc_Client r)) (np_Generation np)
      ?R message m (st_Conditions (np_Status np))"
    using settled_compute [OF pstr assms(4-10) succeeded_settled [OF assms(11)] assms(12,13,15) msg msg'] by metis
  have "next_conditions (cl_SetStatusCondition (rc_Client r)) (np_Generation np) ?R message m (st_Conditions (np_Status np2)) =
      st_Conditions (np_Status np2)"
    unfolding cs by (rule next_conditions_same [OF assms(2,3)])
  then have st: "np_Status np4 = np_Status np2"
    if "updateStatusIfNeeded (rc_Client r') ch' (ready_np (cl_SetStatusCondition (rc_Client r')) m np3) np2 v = (err', np4, v')"
    for v err' np4 v'
    using np4 [OF that] by simp
  have "np_Spec np2 = np_Spec np"
    using updateStatus_np [OF assms(13)] compute_policy_Some(1) [OF assms(12)] by simp
  then have spec: "np_Spec np3 = np_Spec np" using compute_policy_Some(1) [OF c] by simp
  have "Reconcile r' ch' key v =
      Some ((\<lparr>RequeueAfter = duration_seconds (sint (sp_TTLSeconds (np_Spec np)))\<rparr>, None), evs' @ evs'', v2)"
    if cr: "reconcileNetworkPolicyCreation (rc_Client r') np3 m v1 = (None, evs'', v2)" for evs'' v2
  proof -
    obtain e np4 v3 where u: "updateStatusIfNeeded (rc_Client r') ch'
        (ready_np (cl_SetStatusCondition (rc_Client r')) m np3) np2 v2 = (e, np4, v3)" using prod_cases3 by blast
    have "cl_StatusEqual (rc_Client r') (sortStatus (ch_sort_prev ch') (ch_addr_prev ch') (np_Status np2)) (np_Status np4)"
      using assms(1,6) by (simp add: idem st [OF u] client_doc_def DeepEqual_doc_def)
    from updateStatus_quiet [OF u this] u
    have "finish r' ch' (ready_np (cl_SetStatusCondition (rc_Client r')) m np3) np2 res v2 = ((res, None), v2)" for res
      by (simp add: finish_def)
    then have "reconcile_apply r' ch' np3 np2 m v1 =
        ((\<lparr>RequeueAfter = duration_seconds (sint (sp_TTLSeconds (np_Spec np)))\<rparr>, None), evs'', v2)"
      using reconcile_apply_ready [OF cr] spec by simp
    with assms(14) c show ?thesis by (simp add: Reconcile_def)
  qed
  with c show ?thesis by blast
qed

theorem reconcile_steady_witness:
  "\<exists>np2 m v v2 evs'. Reconcile sample_reconciler other_choices (''ns'', ''p'') v =
     Some ((\<lparr>RequeueAfter = duration_seconds (sint (sp_TTLSeconds (np_Spec one_name_np)))\<rparr>, None), evs', v2) \<and>
   cs_np v2 = [((''ns'', ''p''), np2)] \<and> cs_np v = cs_np v2 \<and> sample_obs v2 (''ns'', ''p'') = Some m"
proof -
  let ?c = "rc_Client sample_reconciler"
  have client: "?c = sample_client" by (simp add: sample_reconciler_def)
  have docs: "client_doc ?c sample_obs" "SetStatusCondition_doc (cl_SetStatusCondition ?c)"
    "SetStatusCondition_same_doc (cl_SetStatusCondition ?c)"
    using sample_client_doc put_condition_doc put_condition_same_doc by (simp_all add: client sample_client_def)
  have ok: "choices_ok other_choices" using sample_choices_ok by (simp add: choices_ok_def other_choices_def)
  have h: "crd_Spec (np_Spec one_name_np)" "no_end_ports (np_Spec one_name_np)"
    "sint (retentionDuration (np_Annotations one_name_np)) \<le> 0"
    "distinct (map rr_FQDN (resolve_results sample_reconciler sample_choices one_name_np))"
    "list_all succeeded (resolve_results sample_reconciler sample_choices one_name_np)" by code_simp+
  obtain np1 m evs where c: "compute_policy sample_reconciler sample_choices one_name_np = Some (np1, Some m, evs)"
  proof -
    have "case compute_policy sample_reconciler sample_choices one_name_np of Some (np1, Some m, evs) \<Rightarrow> True | _ \<Rightarrow> False"
      by code_simp
    with that show thesis by (auto split: option.splits)
  qed
  obtain err np2 w' where u: "updateStatusIfNeeded ?c sample_choices (ready_np (cl_SetStatusCondition ?c) m np1) one_name_np
      sample_world = (err, np2, w')" using prod_cases3 by blast
  have np2: "np_Spec np2 = np_Spec one_name_np" "(np_Namespace np2, np_Name np2) = (''ns'', ''p'')"
    using updateStatus_np [OF u] compute_policy_Some(1-3) [OF c] by (simp_all add: ready_np_def one_name_np_def sample_np_def)
  define v where "v = sample_cluster np2 [] False"
  have get: "cl_Get_np ?c (''ns'', ''p'') v = (Inr np2, v)"
    using np2(2) by (simp add: client sample_client_def v_def sample_cluster_def)
  have "resolve_results sample_reconciler other_choices np2 = resolve_results sample_reconciler sample_choices one_name_np"
    using np2(1) by (simp add: resolve_results_def FQDNs_def other_choices_def)
  from reconcile_steady [OF docs sample_choices_ok ok refl h c u get arg_cong [where f = mset, OF this]]
  obtain np3 evs' where s: "\<And>evs'' v2. reconcileNetworkPolicyCreation ?c np3 m v = (None, evs'', v2) \<Longrightarrow>
      Reconcile sample_reconciler other_choices (''ns'', ''p'') v =
        Some ((\<lparr>RequeueAfter = duration_seconds (sint (sp_TTLSeconds (np_Spec one_name_np)))\<rparr>, None), evs' @ evs'', v2)"
    and c3: "compute_policy sample_reconciler other_choices np2 = Some (np3, Some m, evs')" by blast
  have "(np_Namespace np3, np_Name np3) = (''ns'', ''p'')" using compute_policy_Some(2,3) [OF c3] np2(2) by simp
  then obtain evs'' v2 k where "reconcileNetworkPolicyCreation ?c np3 m v = (None, evs'', v2)" "cs_np v2 = cs_np v"
    "sample_obs v2 (''ns'', ''p'') = Some k"
    by (simp add: reconcileNetworkPolicyCreation_def client sample_client_def creation_mutate_def Let_def v_def
        sample_cluster_def sample_obs_def mnp_key_def blank_mnp_def gm_lookup_update)
  moreover from this have "cs_np v2 = [((''ns'', ''p''), np2)]" using np2(2) by (simp add: v_def sample_cluster_def)
  ultimately show ?thesis using s by metis
qed

subsection \<open>Failing names\<close>

lemma updateStatus_needed:
  assumes "updateStatusIfNeeded c ch np previous w = (err, np', w')"
    and "\<not> cl_StatusEqual c (sortStatus (ch_sort_prev ch) (ch_addr_prev ch) (np_Status previous)) (np_Status np')"
  shows "w' = snd (cl_StatusUpdate c np' w)"
  using assms by (auto simp: updateStatusIfNeeded_def Let_def split: if_splits prod.splits option.splits)

lemma message_head_mset: "mset rl' = mset rl \<Longrightarrow> message_head rl' = message_head rl"
  using mset_eq_setD [of rl' rl] mset_eq_length [of rl' rl] length_filter_mset [of rl' rl succeeded]
  by (simp add: message_head_def list_ex_iff)

text \<open>
  (C37) Success is needed in the theorem above. Let every name have resolved or failed for good, with the
  policy as there, and let the same answers come in again in another order, such that the first
  failure of highest priority in it reads differently from the one before (two names that do not
  exist are enough). Then the same policy is generated, but once it is applied again the status is
  written again, although nothing in it differs from the stored one but the conditions.
\<close>

theorem failing_status_rewritten:
  assumes "client_doc (rc_Client r) obs" and "SetStatusCondition_doc (cl_SetStatusCondition (rc_Client r))"
    and "choices_ok ch" and "choices_ok ch'" and "rc_Client r' = rc_Client r"
    and "crd_Spec (np_Spec np)" and "no_end_ports (np_Spec np)" and "sint (retentionDuration (np_Annotations np)) \<le> 0"
    and "distinct (map rr_FQDN (resolve_results r ch np))" and "list_all settled (resolve_results r ch np)"
    and "list_all result_wf (resolve_results r ch np)"
    and "compute_policy r ch np = Some (np1, Some m, evs)"
    and "updateStatusIfNeeded (rc_Client r) ch (ready_np (cl_SetStatusCondition (rc_Client r)) m np1) np w = (err, np2, w')"
    and "cl_Get_np (rc_Client r') key v = (Inr np2, v1)"
    and "mset (resolve_results r' ch' np2) = mset (resolve_results r ch np)"
    and "first_worst (resolve_results r ch np) = Some a" and "first_worst (resolve_results r' ch' np2) = Some b"
    and "failure_text a \<noteq> failure_text b"
  shows "\<exists>np3 evs'. compute_policy r' ch' np2 = Some (np3, Some m, evs') \<and>
    (\<forall>evs'' v2. reconcileNetworkPolicyCreation (rc_Client r') np3 m v1 = (None, evs'', v2) \<longrightarrow>
      (\<exists>out cs. cs \<noteq> st_Conditions (np_Status np2) \<and> Reconcile r' ch' key v = Some (out, evs' @ evs'',
         snd (cl_StatusUpdate (rc_Client r') (np2\<lparr>np_Status := (np_Status np2)\<lparr>st_Conditions := cs\<rparr>\<rparr>) v2))))"
proof -
  let ?R = "resolve_results r ch np" and ?R' = "resolve_results r' ch' np2"
  let ?next = "next_conditions (cl_SetStatusCondition (rc_Client r)) (np_Generation np) ?R"
  have pstr: "IntOrString_String_doc (cl_IntOrString_String (rc_Client r))" using assms(1) by (simp add: client_doc_def)
  have wf': "list_all result_wf ?R'" using assms(11) mset_eq_setD [OF assms(15)] by (simp add: list_all_iff)
  define quote where "quote c = message_head ?R @ failure_text c @ ''.''" for c
  have msg: "AggregatedResolutionMessage ?R = Some (quote a)" "AggregatedResolutionMessage ?R' = Some (quote b)"
    using aggregated_message [OF assms(11)] aggregated_message [OF wf'] assms(16,17) message_head_mset [OF assms(15)]
    by (simp_all add: quote_def)
  obtain np3 evs' where c: "compute_policy r' ch' np2 = Some (np3, Some m, evs')"
    and np4: "\<And>v err' np4 v'. updateStatusIfNeeded (rc_Client r') ch' (ready_np (cl_SetStatusCondition (rc_Client r')) m np3) np2 v =
      (err', np4, v') \<Longrightarrow> np4 = np2\<lparr>np_Status := (np_Status np2)\<lparr>st_Conditions := ?next (quote b) m (st_Conditions (np_Status np2))\<rparr>\<rparr>"
    and idem: "sortStatus (ch_sort_prev ch') (ch_addr_prev ch') (np_Status np2) = np_Status np2"
    and cs: "st_Conditions (np_Status np2) = ?next (quote a) m (st_Conditions (np_Status np))"
    using settled_compute [OF pstr assms(3-10,12,13,15) msg] by metis
  define cs' where "cs' = ?next (quote b) m (st_Conditions (np_Status np2))"
  have "quote a \<noteq> quote b" using assms(18) by (simp add: quote_def)
  then have differ: "cs' \<noteq> st_Conditions (np_Status np2)"
    unfolding cs'_def using next_conditions_message [OF assms(2)] cs by (metis option.inject)
  let ?np4 = "np2\<lparr>np_Status := (np_Status np2)\<lparr>st_Conditions := cs'\<rparr>\<rparr>"
  have "\<exists>out. Reconcile r' ch' key v = Some (out, evs' @ evs'', snd (cl_StatusUpdate (rc_Client r') ?np4 v2))"
    if cr: "reconcileNetworkPolicyCreation (rc_Client r') np3 m v1 = (None, evs'', v2)" for evs'' v2
  proof -
    obtain e np4 v3 where u: "updateStatusIfNeeded (rc_Client r') ch'
        (ready_np (cl_SetStatusCondition (rc_Client r')) m np3) np2 v2 = (e, np4, v3)" using prod_cases3 by blast
    have np4': "np4 = ?np4" unfolding cs'_def by (rule np4 [OF u])
    then have "st_Conditions (np_Status np4) = cs'" by simp
    with differ have "np_Status np4 \<noteq> np_Status np2" by auto
    then have "\<not> cl_StatusEqual (rc_Client r') (sortStatus (ch_sort_prev ch') (ch_addr_prev ch') (np_Status np2)) (np_Status np4)"
      using assms(1,5) by (auto simp: idem client_doc_def DeepEqual_doc_def)
    from updateStatus_needed [OF u this] have "v3 = snd (cl_StatusUpdate (rc_Client r') ?np4 v2)" unfolding np4' .
    then have "\<exists>out. finish r' ch' (ready_np (cl_SetStatusCondition (rc_Client r')) m np3) np2 res v2 =
        (out, snd (cl_StatusUpdate (rc_Client r') ?np4 v2))" for res
      using u by (simp add: finish_def split: option.split)
    then obtain out where "reconcile_apply r' ch' np3 np2 m v1 = (out, evs'', snd (cl_StatusUpdate (rc_Client r') ?np4 v2))"
      using reconcile_apply_ready [OF cr] by (metis (no_types, lifting) case_prod_conv)
    with assms(14) c show ?thesis by (simp add: Reconcile_def)
  qed
  with c differ show ?thesis by metis
qed

text \<open>Two names that do not exist, and a resolver whose answers come in a given order.\<close>

definition failing_np :: NetworkPolicy where
  "failing_np = sample_np\<lparr>np_Spec := sample_spec\<lparr>sp_Egress := [sample_rule\<lparr>er_ToFQDNs := [''b.io'', ''c.io'']\<rparr>]\<rparr>\<rparr>"

definition ordered_reconciler :: "(FQDN list \<Rightarrow> FQDN list) \<Rightarrow> cluster NetworkPolicyReconciler" where
  "ordered_reconciler order = sample_reconciler\<lparr>rc_DNSResolver := (\<lambda>timeout n nt fqdns. map (lookup_result sample_lookup nt) (order fqdns))\<rparr>"

definition in_order :: "cluster NetworkPolicyReconciler" where
  "in_order = ordered_reconciler (\<lambda>fs. fs)"

definition in_reverse :: "cluster NetworkPolicyReconciler" where
  "in_reverse = ordered_reconciler rev"

theorem failing_status_rewritten_witness:
  "\<exists>np2 cs v v2 evs' out. cs \<noteq> st_Conditions (np_Status np2) \<and> cs_np v = [((''ns'', ''p''), np2)] \<and>
     Reconcile in_reverse sample_choices (''ns'', ''p'') v = Some (out, evs', v2) \<and>
     gm_lookup (cs_np v2) (''ns'', ''p'') = Some (np2\<lparr>np_Status := (np_Status np2)\<lparr>st_Conditions := cs\<rparr>\<rparr>)"
proof -
  have client: "rc_Client in_order = sample_client" "rc_Client in_reverse = rc_Client in_order"
    by (simp_all add: in_order_def in_reverse_def ordered_reconciler_def sample_reconciler_def)
  have docs: "client_doc (rc_Client in_order) sample_obs" "SetStatusCondition_doc (cl_SetStatusCondition (rc_Client in_order))"
    using sample_client_doc put_condition_doc by (simp_all add: client sample_client_def)
  have h: "crd_Spec (np_Spec failing_np)" "no_end_ports (np_Spec failing_np)"
    "sint (retentionDuration (np_Annotations failing_np)) \<le> 0"
    "distinct (map rr_FQDN (resolve_results in_order sample_choices failing_np))"
    "list_all settled (resolve_results in_order sample_choices failing_np)"
    "list_all result_wf (resolve_results in_order sample_choices failing_np)" by code_simp+
  obtain np1 m evs where c: "compute_policy in_order sample_choices failing_np = Some (np1, Some m, evs)"
  proof -
    have "case compute_policy in_order sample_choices failing_np of Some (np1, Some m, evs) \<Rightarrow> True | _ \<Rightarrow> False"
      by code_simp
    with that show thesis by (auto split: option.splits)
  qed
  obtain err np2 w' where u: "updateStatusIfNeeded (rc_Client in_order) sample_choices
      (ready_np (cl_SetStatusCondition (rc_Client in_order)) m np1) failing_np sample_world = (err, np2, w')"
    using prod_cases3 by blast
  have np2: "np_Spec np2 = np_Spec failing_np" "(np_Namespace np2, np_Name np2) = (''ns'', ''p'')"
    using updateStatus_np [OF u] compute_policy_Some(1-3) [OF c] by (simp_all add: ready_np_def failing_np_def sample_np_def)
  define v where "v = sample_cluster np2 [] False"
  have get: "cl_Get_np (rc_Client in_reverse) (''ns'', ''p'') v = (Inr np2, v)"
    using np2(2) by (simp add: client sample_client_def v_def sample_cluster_def)
  have rs: "resolve_results in_reverse sample_choices np2 = resolve_results in_reverse sample_choices failing_np"
    using np2(1) by (simp add: resolve_results_def FQDNs_def)
  have "mset (resolve_results in_reverse sample_choices failing_np) = mset (resolve_results in_order sample_choices failing_np)"
    by (simp add: resolve_results_def in_reverse_def in_order_def ordered_reconciler_def sample_reconciler_def)
  then have ms: "mset (resolve_results in_reverse sample_choices np2) = mset (resolve_results in_order sample_choices failing_np)"
    by (simp only: rs)
  have "case (first_worst (resolve_results in_order sample_choices failing_np), first_worst (resolve_results in_reverse sample_choices failing_np))
    of (Some a, Some b) \<Rightarrow> failure_text a \<noteq> failure_text b | _ \<Rightarrow> False" by code_simp
  then obtain a b where ab: "first_worst (resolve_results in_order sample_choices failing_np) = Some a"
    "first_worst (resolve_results in_reverse sample_choices np2) = Some b" "failure_text a \<noteq> failure_text b"
    unfolding rs by (auto split: option.splits)
  from failing_status_rewritten [OF docs sample_choices_ok sample_choices_ok client(2) h c u get ms ab]
  obtain np3 evs' where c3: "compute_policy in_reverse sample_choices np2 = Some (np3, Some m, evs')"
    and s: "\<And>evs'' v2. reconcileNetworkPolicyCreation (rc_Client in_reverse) np3 m v = (None, evs'', v2) \<Longrightarrow>
      \<exists>out cs. cs \<noteq> st_Conditions (np_Status np2) \<and> Reconcile in_reverse sample_choices (''ns'', ''p'') v = Some (out, evs' @ evs'',
        snd (cl_StatusUpdate (rc_Client in_reverse) (np2\<lparr>np_Status := (np_Status np2)\<lparr>st_Conditions := cs\<rparr>\<rparr>) v2))" by blast
  have "(np_Namespace np3, np_Name np3) = (''ns'', ''p'')" using compute_policy_Some(2,3) [OF c3] np2(2) by simp
  then obtain evs'' v2 where "reconcileNetworkPolicyCreation (rc_Client in_reverse) np3 m v = (None, evs'', v2)"
    by (simp add: reconcileNetworkPolicyCreation_def client sample_client_def creation_mutate_def Let_def v_def
        sample_cluster_def mnp_key_def blank_mnp_def)
  from s [OF this] obtain out cs where cs: "cs \<noteq> st_Conditions (np_Status np2)"
    "Reconcile in_reverse sample_choices (''ns'', ''p'') v = Some (out, evs' @ evs'',
      snd (cl_StatusUpdate (rc_Client in_reverse) (np2\<lparr>np_Status := (np_Status np2)\<lparr>st_Conditions := cs\<rparr>\<rparr>) v2))" by blast
  let ?np4 = "np2\<lparr>np_Status := (np_Status np2)\<lparr>st_Conditions := cs\<rparr>\<rparr>"
  have stored: "gm_lookup (cs_np (snd (cl_StatusUpdate (rc_Client in_reverse) ?np4 v2))) (''ns'', ''p'') = Some ?np4"
    using np2(2) by (simp add: client sample_client_def gm_lookup_update)
  have "cs_np v = [((''ns'', ''p''), np2)]" using np2(2) by (simp add: v_def sample_cluster_def)
  from cs(1) this cs(2) stored show ?thesis by (intro exI conjI)
qed

end
