(* ===== verification/Pod_Selector.thy ===== *)
theory Pod_Selector
  imports Api_Funcs
begin

text \<open>
  The pods a generated policy selects. \<open>labels_match\<close> is the documented meaning of the \<open>matchLabels\<close> of a
  label selector: a pod is selected when it carries every pair. The list of pairs of the spec is turned
  into a map by \<open>ToMultiNetworkPolicy\<close>, so that the last pair of every label is the one that counts.
\<close>

definition labels_match :: "(string, string) gomap \<Rightarrow> (string, string) gomap \<Rightarrow> bool" where
  "labels_match sel pod = list_all (\<lambda>(k, v). gm_lookup pod k = Some v) sel"

definition mnp_matchLabels :: "MultiNetworkPolicy \<Rightarrow> (string, string) gomap" where
  "mnp_matchLabels m = ls_MatchLabels (ms_PodSelector (mn_Spec m))"

lemma labels_match_lookup:
  "gm_wf sel \<Longrightarrow> labels_match sel pod \<longleftrightarrow> (\<forall>k v. gm_lookup sel k = Some v \<longrightarrow> gm_lookup pod k = Some v)"
  by (auto simp: labels_match_def list_all_iff gm_wf_def)

lemma matchLabels_loop_wf: "gm_wf m \<Longrightarrow> gm_wf (matchLabels_loop m items)"
  by (induction m items rule: matchLabels_loop.induct) simp_all

lemma matchLabels_loop_snoc:
  "matchLabels_loop m (items @ [i]) = gm_update (ml_Label i) (ml_Value i) (matchLabels_loop m items)"
  by (induction m items rule: matchLabels_loop.induct) simp_all

text \<open>The entry of a label in the map is its last pair in the list.\<close>

lemma matchLabels_lookup:
  "gm_lookup (matchLabels_loop [] items) k = Some v \<longleftrightarrow>
     (\<exists>before i after. items = before @ i # after \<and> ml_Label i = k \<and> ml_Value i = v \<and> k \<notin> ml_Label ` set after)"
proof (induction items rule: rev_induct)
  case (snoc j items)
  let ?last = "\<lambda>xs. \<exists>before i after. xs = before @ i # after \<and> ml_Label i = k \<and> ml_Value i = v \<and> k \<notin> ml_Label ` set after"
  show ?case
  proof (cases "ml_Label j = k")
    case True
    have "?last (items @ [j]) \<longleftrightarrow> ml_Value j = v"
    proof
      assume "?last (items @ [j])"
      then obtain before i after where s: "items @ [j] = before @ i # after" "ml_Value i = v" "k \<notin> ml_Label ` set after" by blast
      then have "after = []" using True by (cases after rule: rev_cases) auto
      with s show "ml_Value j = v" by simp
    next
      assume "ml_Value j = v"
      then show "?last (items @ [j])" using True by (intro exI [of _ items] exI [of _ j] exI [of _ "[]"]) simp
    qed
    with True show ?thesis by (simp add: matchLabels_loop_snoc gm_lookup_update)
  next
    case False
    have "?last (items @ [j]) \<longleftrightarrow> ?last items"
    proof
      assume "?last (items @ [j])"
      then obtain before i after where s: "items @ [j] = before @ i # after" "ml_Label i = k" "ml_Value i = v"
        "k \<notin> ml_Label ` set after" by blast
      then obtain rest where "after = rest @ [j]" "items = before @ i # rest" using False by (cases after rule: rev_cases) auto
      with s show "?last items" by auto
    next
      assume "?last items"
      then obtain before i after where "items = before @ i # after" "ml_Label i = k" "ml_Value i = v"
        "k \<notin> ml_Label ` set after" by blast
      then show "?last (items @ [j])" using False by (intro exI [of _ before] exI [of _ i] exI [of _ "after @ [j]"]) auto
    qed
    with False snoc show ?thesis by (simp add: matchLabels_loop_snoc gm_lookup_update)
  qed
qed simp

text \<open>
  (C38) The pods the policy is enforced on: a pod matches the labels of the generated policy exactly when
  it carries, for every label of the spec, the value of the last pair with that label. Earlier pairs of
  the same label, which the schema admits, are dropped.
\<close>

theorem selected_pods:
  assumes "ToMultiNetworkPolicy np sts = Some m"
  shows "labels_match (mnp_matchLabels m) pod \<longleftrightarrow>
    (\<forall>before i after. sp_MatchLabels (np_Spec np) = before @ i # after \<and> ml_Label i \<notin> ml_Label ` set after \<longrightarrow>
      gm_lookup pod (ml_Label i) = Some (ml_Value i))"
proof -
  have "mnp_matchLabels m = matchLabels_loop [] (sp_MatchLabels (np_Spec np))"
    using assms by (auto simp: mnp_matchLabels_def ToMultiNetworkPolicy_def Let_def split: if_splits)
  moreover have "gm_wf (matchLabels_loop [] (sp_MatchLabels (np_Spec np)))"
    by (rule matchLabels_loop_wf) (simp add: gm_wf_def)
  ultimately show ?thesis by (simp only: labels_match_lookup matchLabels_lookup) blast
qed

text \<open>Two values for one label: the schema admits the spec, and the first value is lost.\<close>

definition two_values_np :: NetworkPolicy where
  "two_values_np = sample_np\<lparr>np_Spec := (np_Spec sample_np)\<lparr>sp_MatchLabels :=
     [\<lparr>ml_Label = ''app.kubernetes.io/name'', ml_Value = ''a''\<rparr>, \<lparr>ml_Label = ''app.kubernetes.io/name'', ml_Value = ''b''\<rparr>]\<rparr>\<rparr>"

theorem selected_pods_witness:
  "\<exists>m. crd_Spec (np_Spec two_values_np) \<and> ToMultiNetworkPolicy two_values_np [] = Some m \<and>
     labels_match (mnp_matchLabels m) [(''app.kubernetes.io/name'', ''b'')] \<and>
     \<not> labels_match (mnp_matchLabels m) [(''app.kubernetes.io/name'', ''a'')]"
proof -
  let ?items = "sp_MatchLabels (np_Spec two_values_np)"
  have "crd_Spec (np_Spec two_values_np)" by code_simp
  moreover obtain m where m: "ToMultiNetworkPolicy two_values_np [] = Some m"
    by (simp add: ToMultiNetworkPolicy_def Let_def two_values_np_def sample_np_def sample_spec_def)
  have items: "?items = [\<lparr>ml_Label = ''app.kubernetes.io/name'', ml_Value = ''a''\<rparr>,
      \<lparr>ml_Label = ''app.kubernetes.io/name'', ml_Value = ''b''\<rparr>]" by (simp add: two_values_np_def)
  have "labels_match (mnp_matchLabels m) [(''app.kubernetes.io/name'', ''b'')]"
    unfolding selected_pods [OF m] items by (auto simp: Cons_eq_append_conv)
  moreover have "\<not> labels_match (mnp_matchLabels m) [(''app.kubernetes.io/name'', ''a'')]"
  proof
    assume "labels_match (mnp_matchLabels m) [(''app.kubernetes.io/name'', ''a'')]"
    from this [unfolded selected_pods [OF m], rule_format, of "[?items ! 0]" "?items ! 1" "[]"]
    show False by (simp add: items)
  qed
  ultimately show ?thesis using m by blast
qed

end
