(* ===== verification/Go_Memory.thy ===== *)
theory Go_Memory
  imports Prelude "HOL-Library.Monad_Syntax"
begin

text \<open>
  Memory of a Go program, for the functions whose point is what is shared and what is not. An address
  holds one allocated object: the target of a pointer or the array behind a slice; structs lie inside
  the object that contains them. A \<open>view\<close> says how values of one type are stored. Reading through a
  pointer that does not point to a value of its type is \<open>None\<close>; the type system of Go excludes it.

  The locale \<open>deep_copy\<close> is the contract of a copying function: it succeeds on every well-formed value,
  allocates but writes to nothing that existed, and the copy is read from the new memory alone. The
  rules of the last section give the contract of a composed function from those of its parts.
\<close>

subsection \<open>Objects and addresses\<close>

type_synonym ref = nat

type_synonym 'o memory = "ref \<Rightarrow> 'o option"

record 'o heap =
  hp_next :: ref
  hp_mem :: "'o memory"

record ('a, 'o) view =
  v_inj :: "'a \<Rightarrow> 'o"
  v_prj :: "'o \<Rightarrow> 'a option"

definition view_ok :: "('a, 'o) view \<Rightarrow> bool" where
  "view_ok v \<longleftrightarrow> (\<forall>x. v_prj v (v_inj v x) = Some x)"

record slice =
  sl_arr :: ref
  sl_off :: nat
  sl_len :: nat

definition new :: "('a, 'o) view \<Rightarrow> 'a \<Rightarrow> 'o heap \<Rightarrow> ref \<times> 'o heap" where
  "new v x h = (hp_next h, h\<lparr>hp_next := hp_next h + 1, hp_mem := (hp_mem h)(hp_next h \<mapsto> v_inj v x)\<rparr>)"

definition load :: "('a, 'o) view \<Rightarrow> 'o memory \<Rightarrow> ref \<Rightarrow> 'a option" where
  "load v m r = m r \<bind> v_prj v"

definition store :: "('a, 'o) view \<Rightarrow> ref \<Rightarrow> 'a \<Rightarrow> 'o heap \<Rightarrow> 'o heap" where
  "store v r x h = h\<lparr>hp_mem := (hp_mem h)(r \<mapsto> v_inj v x)\<rparr>"

definition slice_elems :: "('a list, 'o) view \<Rightarrow> 'o memory \<Rightarrow> slice \<Rightarrow> 'a list option" where
  "slice_elems v m s =
     do {
       xs \<leftarrow> load v m (sl_arr s);
       if sl_off s + sl_len s \<le> length xs then Some (take (sl_len s) (drop (sl_off s) xs)) else None
     }"

text \<open>\<open>(*in)[i]\<close> and \<open>(*out)[i] = x\<close>.\<close>

definition slice_get :: "('a list, 'o) view \<Rightarrow> slice \<Rightarrow> nat \<Rightarrow> 'o heap \<Rightarrow> 'a option" where
  "slice_get v s i h =
     do { xs \<leftarrow> load v (hp_mem h) (sl_arr s);
          if i < sl_len s \<and> sl_off s + i < length xs then Some (xs ! (sl_off s + i)) else None }"

definition slice_set :: "('a list, 'o) view \<Rightarrow> slice \<Rightarrow> nat \<Rightarrow> 'a \<Rightarrow> 'o heap \<Rightarrow> 'o heap option" where
  "slice_set v s i x h =
     do { xs \<leftarrow> load v (hp_mem h) (sl_arr s);
          if i < sl_len s \<and> sl_off s + i < length xs
          then Some (store v (sl_arr s) (xs[sl_off s + i := x]) h) else None }"

text \<open>\<open>make([]T, n)\<close>.\<close>

definition make_slice :: "('a list, 'o) view \<Rightarrow> 'a \<Rightarrow> nat \<Rightarrow> 'o heap \<Rightarrow> slice \<times> 'o heap" where
  "make_slice v zero n h =
     (let (r, h1) = new v (replicate n zero) h in (\<lparr>sl_arr = r, sl_off = 0, sl_len = n\<rparr>, h1))"

subsection \<open>The patterns of generated copies\<close>

type_synonym ('g, 'o) copier = "'g \<Rightarrow> 'o heap \<Rightarrow> ('g \<times> 'o heap) option"

text \<open>\<open>if in.F != nil { ... }\<close>; a nil field stays nil.\<close>

definition copy_opt :: "('g, 'o) copier \<Rightarrow> ('g option, 'o) copier" where
  "copy_opt f p h =
     (case p of None \<Rightarrow> Some (None, h) | Some x \<Rightarrow> do { (y, h1) \<leftarrow> f x h; Some (Some y, h1) })"

text \<open>\<open>*out = new(T); **out = **in\<close>.\<close>

definition copy_new :: "('a, 'o) view \<Rightarrow> 'a \<Rightarrow> (ref, 'o) copier" where
  "copy_new v zero r h =
     (let (out, h1) = new v zero h in do { x \<leftarrow> load v (hp_mem h1) r; Some (out, store v out x h1) })"

text \<open>\<open>*out = make([]T, len(*in)); copy(*out, *in)\<close>.\<close>

definition copy_array :: "('a list, 'o) view \<Rightarrow> 'a \<Rightarrow> (slice, 'o) copier" where
  "copy_array v zero s h =
     (let (out, h1) = make_slice v zero (sl_len s) h
      in do { xs \<leftarrow> slice_elems v (hp_mem h1) s; Some (out, store v (sl_arr out) xs h1) })"

text \<open>\<open>*out = make([]T, len(*in)); for i := range *in { (*in)[i].DeepCopyInto(&(*out)[i]) }\<close>.\<close>

fun copy_loop :: "('a list, 'o) view \<Rightarrow> ('a, 'o) copier \<Rightarrow> slice \<Rightarrow> slice \<Rightarrow> nat \<Rightarrow> nat \<Rightarrow> 'o heap \<Rightarrow> 'o heap option" where
  "copy_loop v f s out i 0 h = Some h"
| "copy_loop v f s out i (Suc n) h =
     do {
       x \<leftarrow> slice_get v s i h;
       (y, h1) \<leftarrow> f x h;
       h2 \<leftarrow> slice_set v out i y h1;
       copy_loop v f s out (Suc i) n h2
     }"

definition copy_each :: "('a list, 'o) view \<Rightarrow> 'a \<Rightarrow> ('a, 'o) copier \<Rightarrow> (slice, 'o) copier" where
  "copy_each v zero f s h =
     (let (out, h1) = make_slice v zero (sl_len s) h
      in do { h2 \<leftarrow> copy_loop v f s out 0 (sl_len s) h1; Some (out, h2) })"

text \<open>\<open>out := new(T); in.DeepCopyInto(out); return out\<close>.\<close>

definition copy_into :: "('a, 'o) view \<Rightarrow> 'a \<Rightarrow> ('a, 'o) copier \<Rightarrow> (ref, 'o) copier" where
  "copy_into v zero f r h =
     (let (out, h1) = new v zero h
      in do { x \<leftarrow> load v (hp_mem h1) r; (y, h2) \<leftarrow> f x h1; Some (out, store v out y h2) })"

subsection \<open>Reading values\<close>

definition val_opt :: "('o memory \<Rightarrow> 'g \<Rightarrow> 'v option) \<Rightarrow> 'o memory \<Rightarrow> 'g option \<Rightarrow> 'v option option" where
  "val_opt val m p = (case p of None \<Rightarrow> Some None | Some x \<Rightarrow> map_option Some (val m x))"

definition val_each :: "('a list, 'o) view \<Rightarrow> ('o memory \<Rightarrow> 'a \<Rightarrow> 'v option) \<Rightarrow> 'o memory \<Rightarrow> slice \<Rightarrow> 'v list option" where
  "val_each v val m s = do { xs \<leftarrow> slice_elems v m s; those (map (val m) xs) }"

definition val_at :: "('a, 'o) view \<Rightarrow> ('o memory \<Rightarrow> 'a \<Rightarrow> 'v option) \<Rightarrow> 'o memory \<Rightarrow> ref \<Rightarrow> 'v option" where
  "val_at v val m r = do { x \<leftarrow> load v m r; val m x }"

lemma those_map_Some_iff: "those (map f xs) = Some vs \<longleftrightarrow> list_all2 (\<lambda>x v. f x = Some v) xs vs"
  by (induction xs arbitrary: vs) (auto simp: list_all2_Cons1 split: option.splits)

subsection \<open>The contract\<close>

definition heap_wf :: "'o heap \<Rightarrow> bool" where
  "heap_wf h \<longleftrightarrow> (\<forall>a \<ge> hp_next h. hp_mem h a = None)"

definition extends :: "'o heap \<Rightarrow> 'o heap \<Rightarrow> bool" where
  "extends h h' \<longleftrightarrow> heap_wf h' \<and> hp_next h \<le> hp_next h' \<and> (\<forall>a < hp_next h. hp_mem h' a = hp_mem h a)"

definition fresh :: "'o heap \<Rightarrow> 'o heap \<Rightarrow> 'o memory" where
  "fresh h h' a = (if hp_next h \<le> a then hp_mem h' a else None)"

locale deep_copy =
  fixes copy :: "('g, 'o) copier" and val :: "'o memory \<Rightarrow> 'g \<Rightarrow> 'v option"
  assumes val_mono: "m \<subseteq>\<^sub>m m' \<Longrightarrow> val m x = Some v \<Longrightarrow> val m' x = Some v"
    and copy_ok: "heap_wf h \<Longrightarrow> val (hp_mem h) x = Some v \<Longrightarrow>
      \<exists>y h'. copy x h = Some (y, h') \<and> extends h h' \<and> val (fresh h h') y = Some v"
begin

text \<open>A copy is a snapshot: writes outside the new memory do not show in it, and writes to the new memory not in the original.\<close>

lemma snapshot:
  assumes "heap_wf h" and "val (hp_mem h) x = Some v"
  shows "\<exists>y h'. copy x h = Some (y, h') \<and> (\<forall>a < hp_next h. hp_mem h' a = hp_mem h a) \<and>
    (\<forall>m. (\<forall>a. hp_next h \<le> a \<and> a < hp_next h' \<longrightarrow> m a = hp_mem h' a) \<longrightarrow> val m y = Some v) \<and>
    (\<forall>m. (\<forall>a < hp_next h. m a = hp_mem h a) \<longrightarrow> val m x = Some v)"
proof -
  obtain y h' where c: "copy x h = Some (y, h')" "extends h h'" "val (fresh h h') y = Some v"
    using copy_ok [OF assms] by blast
  have "val m y = Some v" if "\<forall>a. hp_next h \<le> a \<and> a < hp_next h' \<longrightarrow> m a = hp_mem h' a" for m
  proof (rule val_mono [OF _ c(3)])
    show "fresh h h' \<subseteq>\<^sub>m m"
      using that c(2) unfolding map_le_def fresh_def extends_def heap_wf_def
      by (auto simp: dom_def) (metis not_le option.distinct(1))
  qed
  moreover have "val m x = Some v" if "\<forall>a < hp_next h. m a = hp_mem h a" for m
  proof (rule val_mono [OF _ assms(2)])
    show "hp_mem h \<subseteq>\<^sub>m m"
      using that assms(1) unfolding map_le_def heap_wf_def by (auto simp: dom_def) (metis not_le option.distinct(1))
  qed
  ultimately show ?thesis using c(1,2) unfolding extends_def by blast
qed

end

subsection \<open>Growing heaps\<close>

lemma extends_refl: "heap_wf h \<Longrightarrow> extends h h"
  by (simp add: extends_def)

lemma extends_trans: "extends h h1 \<Longrightarrow> extends h1 h2 \<Longrightarrow> extends h h2"
  unfolding extends_def by auto

lemma extends_wf: "extends h h' \<Longrightarrow> heap_wf h'"
  by (simp add: extends_def)

lemma extends_mem: "heap_wf h \<Longrightarrow> extends h h' \<Longrightarrow> hp_mem h \<subseteq>\<^sub>m hp_mem h'"
  unfolding map_le_def heap_wf_def extends_def by (auto simp: dom_def) (metis not_le option.distinct(1))

lemma fresh_mono:
  assumes "hp_next h \<le> hp_next h1" and "extends h1 h2"
  shows "fresh h1 h2 \<subseteq>\<^sub>m fresh h h2" and "heap_wf h1 \<Longrightarrow> fresh h h1 \<subseteq>\<^sub>m fresh h h2"
  using assms(1) extends_mem [OF _ assms(2)] by (auto simp: map_le_def fresh_def dom_def split: if_splits)

lemma new_extends:
  assumes "heap_wf h" and "new v x h = (r, h1)"
  shows "extends h h1" and "r = hp_next h" and "hp_next h1 = Suc r" and "hp_mem h1 r = Some (v_inj v x)"
  using assms by (auto simp: new_def extends_def heap_wf_def)

text \<open>A store to an address above the limit of an older heap keeps it extended, and leaves the memory beyond that address alone.\<close>

lemma store_extends:
  assumes "extends h h1" and "hp_next h \<le> r" and "r < hp_next h1"
  shows "extends h (store v r x h1)"
  using assms by (auto simp: store_def extends_def heap_wf_def)

lemma store_fresh:
  assumes "r < hp_next h1"
  shows "fresh h1 (store v r x h2) = fresh h1 h2"
  using assms by (auto simp: store_def fresh_def)

lemma store_simps [simp]:
  "hp_next (store v r x h) = hp_next h" "hp_mem (store v r x h) r = Some (v_inj v x)"
  "a \<noteq> r \<Longrightarrow> hp_mem (store v r x h) a = hp_mem h a"
  by (simp_all add: store_def)

lemma load_inj: "view_ok v \<Longrightarrow> m r = Some (v_inj v x) \<Longrightarrow> load v m r = Some x"
  by (simp add: load_def view_ok_def)

lemma load_mono: "m \<subseteq>\<^sub>m m' \<Longrightarrow> load v m r = Some x \<Longrightarrow> load v m' r = Some x"
  by (auto simp: load_def map_le_def bind_eq_Some_conv dom_def)

lemma slice_elems_mono: "m \<subseteq>\<^sub>m m' \<Longrightarrow> slice_elems v m s = Some xs \<Longrightarrow> slice_elems v m' s = Some xs"
  using load_mono [of m m' v "sl_arr s"] by (cases "load v m (sl_arr s)") (simp_all add: slice_elems_def)

lemma slice_elems_whole:
  "view_ok v \<Longrightarrow> m r = Some (v_inj v xs) \<Longrightarrow> slice_elems v m \<lparr>sl_arr = r, sl_off = 0, sl_len = length xs\<rparr> = Some xs"
  by (simp add: slice_elems_def load_inj)

lemma slice_elems_length: "slice_elems v m s = Some xs \<Longrightarrow> length xs = sl_len s"
  by (auto simp: slice_elems_def bind_eq_Some_conv split: if_splits)

lemma slice_get_elems:
  assumes "slice_elems v (hp_mem h) s = Some xs" and "i < sl_len s"
  shows "slice_get v s i h = Some (xs ! i)"
  using assms by (auto simp: slice_elems_def slice_get_def bind_eq_Some_conv split: if_splits)

subsection \<open>Contracts of the patterns\<close>

named_theorems deep_copy_rules \<open>contracts of copying functions\<close>

lemma deep_copy_plain [deep_copy_rules]: "deep_copy (\<lambda>x h. Some (x, h)) (\<lambda>m x. Some x)"
  by unfold_locales (auto intro: extends_refl)

lemma deep_copy_opt [deep_copy_rules]:
  assumes "deep_copy f val"
  shows "deep_copy (copy_opt f) (val_opt val)"
proof (rule deep_copy.intro, goal_cases)
  case (1 m m' x v)
  then show ?case by (auto simp: val_opt_def split: option.splits intro: deep_copy.val_mono [OF assms])
next
  case (2 h x v)
  show ?case
  proof (cases x)
    case None
    with 2 show ?thesis by (auto simp: val_opt_def copy_opt_def intro: extends_refl)
  next
    case (Some p)
    with 2(2) obtain w where w: "val (hp_mem h) p = Some w" "v = Some w" by (auto simp: val_opt_def)
    from deep_copy.copy_ok [OF assms 2(1) w(1)] Some w(2) show ?thesis by (force simp: val_opt_def copy_opt_def)
  qed
qed

text \<open>A new object that is filled at the end, after more memory was allocated.\<close>

lemma stored_fresh:
  assumes "heap_wf h" and "new v z h = (r, h1)" and "extends h1 h2"
  shows "extends h (store v r x h2)" and "fresh h (store v r x h2) r = Some (v_inj v x)"
    and "fresh h1 h2 \<subseteq>\<^sub>m fresh h (store v r x h2)"
proof -
  note n = new_extends [OF assms(1,2)]
  have r: "r < hp_next h1" "hp_next h1 \<le> hp_next h2" using n assms(3) by (simp_all add: extends_def)
  then show "extends h (store v r x h2)"
    using extends_trans [OF n(1) assms(3)] n(2) by (intro store_extends) simp_all
  show "fresh h (store v r x h2) r = Some (v_inj v x)" using n(2) by (simp add: fresh_def)
  show "fresh h1 h2 \<subseteq>\<^sub>m fresh h (store v r x h2)"
    using n(2,3) by (auto simp: map_le_def fresh_def dom_def store_def)
qed

lemma deep_copy_into [deep_copy_rules]:
  assumes "view_ok v" and "deep_copy f val"
  shows "deep_copy (copy_into v z f) (val_at v val)"
proof (rule deep_copy.intro, goal_cases)
  case (1 m m' x w)
  then show ?case
    using load_mono deep_copy.val_mono [OF assms(2)] by (fastforce simp: val_at_def bind_eq_Some_conv)
next
  case (2 h r w)
  obtain out h1 where n: "new v z h = (out, h1)" by (rule prod.exhaust)
  note e = new_extends [OF 2(1) n]
  obtain x where x: "load v (hp_mem h) r = Some x" "val (hp_mem h) x = Some w"
    using 2(2) by (auto simp: val_at_def bind_eq_Some_conv)
  note mem = extends_mem [OF 2(1) e(1)]
  obtain y h2 where y: "f x h1 = Some (y, h2)" "extends h1 h2" "val (fresh h1 h2) y = Some w"
    using deep_copy.copy_ok [OF assms(2) extends_wf [OF e(1)] deep_copy.val_mono [OF assms(2) mem x(2)]] by blast
  note s = stored_fresh [OF 2(1) n y(2), where x = y]
  have "copy_into v z f r h = Some (out, store v out y h2)"
    using load_mono [OF mem x(1)] by (simp add: copy_into_def n y(1))
  moreover have "val_at v val (fresh h (store v out y h2)) out = Some w"
    using assms(1) deep_copy.val_mono [OF assms(2) s(3) y(3)] by (simp add: val_at_def load_def s(2) view_ok_def)
  ultimately show ?case using s(1) by blast
qed

lemma copy_new_eq: "copy_new v z = copy_into v z (\<lambda>x h. Some (x, h))"
  by (intro ext) (simp add: copy_new_def copy_into_def)

lemma deep_copy_new [deep_copy_rules]: "view_ok v \<Longrightarrow> deep_copy (copy_new v z) (load v)"
  using deep_copy_into [OF _ deep_copy_plain, of v z]
  by (simp add: copy_new_eq val_at_def [abs_def])

lemma deep_copy_array [deep_copy_rules]:
  assumes "view_ok v"
  shows "deep_copy (copy_array v z) (slice_elems v)"
proof (rule deep_copy.intro, goal_cases)
  case (1 m m' s xs)
  then show ?case by (rule slice_elems_mono)
next
  case (2 h s xs)
  obtain out h1 where n: "new v (replicate (sl_len s) z) h = (out, h1)" by (rule prod.exhaust)
  note e = new_extends [OF 2(1) n]
  note st = stored_fresh [OF 2(1) n extends_refl [OF extends_wf [OF e(1)]], where x = xs]
  have len: "length xs = sl_len s" by (rule slice_elems_length [OF 2(2)])
  have "slice_elems v (hp_mem h1) s = Some xs" by (rule slice_elems_mono [OF extends_mem [OF 2(1) e(1)] 2(2)])
  then have "copy_array v z s h = Some (\<lparr>sl_arr = out, sl_off = 0, sl_len = length xs\<rparr>, store v out xs h1)"
    by (simp add: copy_array_def make_slice_def n len)
  moreover have "slice_elems v (fresh h (store v out xs h1)) \<lparr>sl_arr = out, sl_off = 0, sl_len = length xs\<rparr> = Some xs"
    using slice_elems_whole [where m = "fresh h (store v out xs h1)", OF assms st(2)] by simp
  ultimately show ?case using st(1) by blast
qed

text \<open>
  The loop over the elements. The array \<open>out\<close> lies just below \<open>h1\<close>, so that the copies made so far, which
  lie above, are not touched by the stores to it.
\<close>

lemma copy_loop_ok:
  assumes "view_ok v" and "deep_copy f val" and "heap_wf h0" and "new v z h0 = (r, h1)"
    and "slice_elems v (hp_mem h0) s = Some xs" and "list_all2 (\<lambda>x w. val (hp_mem h0) x = Some w) xs ws"
    and "sl_len s = i + n" and "extends h0 h" and "hp_next h1 \<le> hp_next h"
    and "hp_mem h r = Some (v_inj v ys)" and "length ys = i + n"
    and "\<forall>j < i. val (fresh h1 h) (ys ! j) = Some (ws ! j)"
  shows "\<exists>h' zs. copy_loop v f s \<lparr>sl_arr = r, sl_off = 0, sl_len = i + n\<rparr> i n h = Some h' \<and> extends h0 h' \<and>
    hp_mem h' r = Some (v_inj v zs) \<and> length zs = i + n \<and>
    (\<forall>j < i + n. val (fresh h1 h') (zs ! j) = Some (ws ! j)) \<and> hp_next h1 \<le> hp_next h'"
  using assms(7-12)
proof (induction n arbitrary: i h ys)
  case 0
  then show ?case by auto
next
  case (Suc n)
  let ?out = "\<lparr>sl_arr = r, sl_off = 0, sl_len = i + Suc n\<rparr>"
  note e1 = new_extends [OF assms(3,4)]
  have i: "i < sl_len s" using Suc.prems(1) by simp
  note mem = extends_mem [OF assms(3) Suc.prems(2)]
  have get: "slice_get v s i h = Some (xs ! i)"
    by (rule slice_get_elems [OF slice_elems_mono [OF mem assms(5)] i])
  have "val (hp_mem h0) (xs ! i) = Some (ws ! i)"
    using assms(6) i slice_elems_length [OF assms(5)] by (simp add: list_all2_conv_all_nth)
  from deep_copy.copy_ok [OF assms(2) extends_wf [OF Suc.prems(2)] deep_copy.val_mono [OF assms(2) mem this]]
  obtain y h2 where y: "f (xs ! i) h = Some (y, h2)" "extends h h2" "val (fresh h h2) y = Some (ws ! i)" by blast
  define h3 where "h3 = store v r (ys[i := y]) h2"
  have r: "hp_next h0 \<le> r" "r < hp_next h1" using e1 by simp_all
  have mem2: "hp_mem h2 r = Some (v_inj v ys)" using y(2) r(2) Suc.prems(3,4) by (simp add: extends_def)
  have set: "slice_set v ?out i y h2 = Some h3"
    using Suc.prems(5) assms(1) by (simp add: slice_set_def load_def mem2 view_ok_def h3_def)
  have ext: "extends h0 h3" unfolding h3_def
    using extends_trans [OF Suc.prems(2) y(2)] r Suc.prems(3) y(2) by (intro store_extends) (simp_all add: extends_def)
  have fr: "fresh h1 h3 = fresh h1 h2" unfolding h3_def by (rule store_fresh [OF r(2)])
  note up = fresh_mono [OF Suc.prems(3) y(2)]
  have "val (fresh h1 h3) (ys[i := y] ! j) = Some (ws ! j)" if "j < Suc i" for j
  proof (cases "j = i")
    case True
    then show ?thesis
      unfolding fr using deep_copy.val_mono [OF assms(2) up(1) y(3)] Suc.prems(5) by simp
  next
    case False
    then have "val (fresh h1 h) (ys ! j) = Some (ws ! j)" using that Suc.prems(6) by simp
    from deep_copy.val_mono [OF assms(2) up(2) [OF extends_wf [OF Suc.prems(2)]] this] False
    show ?thesis unfolding fr by simp
  qed
  moreover have "hp_next h1 \<le> hp_next h3" using Suc.prems(3) y(2) by (simp add: h3_def extends_def)
  moreover have "hp_mem h3 r = Some (v_inj v (ys[i := y]))" by (simp add: h3_def)
  ultimately have "\<exists>h' zs. copy_loop v f s \<lparr>sl_arr = r, sl_off = 0, sl_len = Suc i + n\<rparr> (Suc i) n h3 = Some h' \<and>
    extends h0 h' \<and> hp_mem h' r = Some (v_inj v zs) \<and> length zs = Suc i + n \<and>
    (\<forall>j < Suc i + n. val (fresh h1 h') (zs ! j) = Some (ws ! j)) \<and> hp_next h1 \<le> hp_next h'"
    using Suc.prems(1,5) ext by (intro Suc.IH [where ys = "ys[i := y]"]) simp_all
  then show ?case using get y(1) set by simp
qed

lemma deep_copy_each [deep_copy_rules]:
  assumes "view_ok v" and "deep_copy f val"
  shows "deep_copy (copy_each v z f) (val_each v val)"
proof (rule deep_copy.intro, goal_cases)
  case (1 m m' s ws)
  then obtain xs where "slice_elems v m s = Some xs" "list_all2 (\<lambda>x w. val m x = Some w) xs ws"
    by (auto simp: val_each_def bind_eq_Some_conv those_map_Some_iff)
  then have "slice_elems v m' s = Some xs" "list_all2 (\<lambda>x w. val m' x = Some w) xs ws"
    using slice_elems_mono [OF 1(1)] deep_copy.val_mono [OF assms(2) 1(1)] by (auto elim: list_all2_mono)
  then show ?case by (simp add: val_each_def those_map_Some_iff)
next
  case (2 h s ws)
  then obtain xs where xs: "slice_elems v (hp_mem h) s = Some xs" "list_all2 (\<lambda>x w. val (hp_mem h) x = Some w) xs ws"
    by (auto simp: val_each_def bind_eq_Some_conv those_map_Some_iff)
  obtain r h1 where n: "new v (replicate (sl_len s) z) h = (r, h1)" by (rule prod.exhaust)
  note e = new_extends [OF 2(1) n]
  let ?out = "\<lparr>sl_arr = r, sl_off = 0, sl_len = sl_len s\<rparr>"
  obtain h' zs where l: "copy_loop v f s ?out 0 (sl_len s) h1 = Some h'" "extends h h'" "hp_mem h' r = Some (v_inj v zs)"
    "length zs = sl_len s" "\<forall>j < sl_len s. val (fresh h1 h') (zs ! j) = Some (ws ! j)" "hp_next h1 \<le> hp_next h'"
    using copy_loop_ok [OF assms 2(1) n xs, of 0 "sl_len s" h1 "replicate (sl_len s) z"] e by auto
  have "fresh h1 h' \<subseteq>\<^sub>m fresh h h'" using e by (auto simp: map_le_def fresh_def dom_def)
  then have "\<forall>j < sl_len s. val (fresh h h') (zs ! j) = Some (ws ! j)" using l(5) deep_copy.val_mono [OF assms(2)] by blast
  moreover have "length ws = sl_len s" using xs slice_elems_length list_all2_lengthD by metis
  ultimately have "list_all2 (\<lambda>x w. val (fresh h h') x = Some w) zs ws" using l(4) by (simp add: list_all2_conv_all_nth)
  moreover have "slice_elems v (fresh h h') ?out = Some zs"
    using slice_elems_whole [where m = "fresh h h'" and r = r and xs = zs, OF assms(1)] l(3,4) e(2) by (simp add: fresh_def)
  ultimately have "val_each v val (fresh h h') ?out = Some ws" by (simp add: val_each_def those_map_Some_iff)
  moreover have "copy_each v z f s h = Some (?out, h')" by (simp add: copy_each_def make_slice_def n l(1))
  ultimately show ?case using l(2) by blast
qed

text \<open>Two fields, one after the other.\<close>

definition copy_pair :: "('a, 'o) copier \<Rightarrow> ('b, 'o) copier \<Rightarrow> ('a \<times> 'b, 'o) copier" where
  "copy_pair f g p h = do { (x, h1) \<leftarrow> f (fst p) h; (y, h2) \<leftarrow> g (snd p) h1; Some ((x, y), h2) }"

definition val_pair ::
  "('o memory \<Rightarrow> 'a \<Rightarrow> 'v option) \<Rightarrow> ('o memory \<Rightarrow> 'b \<Rightarrow> 'w option) \<Rightarrow> 'o memory \<Rightarrow> 'a \<times> 'b \<Rightarrow> ('v \<times> 'w) option" where
  "val_pair va vb m p = do { v \<leftarrow> va m (fst p); w \<leftarrow> vb m (snd p); Some (v, w) }"

lemma deep_copy_pair [deep_copy_rules]:
  assumes "deep_copy f va" and "deep_copy g vb"
  shows "deep_copy (copy_pair f g) (val_pair va vb)"
proof (rule deep_copy.intro, goal_cases)
  case (1 m m' p w)
  then show ?case
    using deep_copy.val_mono [OF assms(1) 1(1)] deep_copy.val_mono [OF assms(2) 1(1)]
    by (fastforce simp: val_pair_def bind_eq_Some_conv)
next
  case (2 h p vw)
  obtain v w where vw: "vw = (v, w)" "va (hp_mem h) (fst p) = Some v" "vb (hp_mem h) (snd p) = Some w"
    using 2(2) by (auto simp: val_pair_def bind_eq_Some_conv)
  obtain x h1 where x: "f (fst p) h = Some (x, h1)" "extends h h1" "va (fresh h h1) x = Some v"
    using deep_copy.copy_ok [OF assms(1) 2(1) vw(2)] by blast
  obtain y h2 where y: "g (snd p) h1 = Some (y, h2)" "extends h1 h2" "vb (fresh h1 h2) y = Some w"
    using deep_copy.copy_ok [OF assms(2) extends_wf [OF x(2)]
        deep_copy.val_mono [OF assms(2) extends_mem [OF 2(1) x(2)] vw(3)]] by blast
  have "hp_next h \<le> hp_next h1" using x(2) by (simp add: extends_def)
  note up = fresh_mono [OF this y(2)]
  have "va (fresh h h2) x = Some v" "vb (fresh h h2) y = Some w"
    using deep_copy.val_mono [OF assms(1) up(2) [OF extends_wf [OF x(2)]] x(3)]
      deep_copy.val_mono [OF assms(2) up(1) y(3)] by simp_all
  then show ?case
    using vw(1) x(1) y(1) extends_trans [OF x(2) y(2)] by (auto simp: copy_pair_def val_pair_def)
qed

text \<open>A struct: \<open>*out = *in\<close>, then the fields that refer to memory are replaced by their copies.\<close>

lemma deep_copy_struct:
  assumes "deep_copy f val"
    and "\<And>x h. copy x h = do { (t, h1) \<leftarrow> f (parts x) h; Some (upd t x, h1) }"
    and "\<And>m x. sval m x = map_option (build x) (val m (parts x))"
    and "\<And>t x. parts (upd t x) = t" and "\<And>t x v. build (upd t x) v = build x v"
  shows "deep_copy copy sval"
proof (rule deep_copy.intro, goal_cases)
  case (1 m m' x v)
  then show ?case using deep_copy.val_mono [OF assms(1) 1(1)] by (auto simp: assms(3))
next
  case (2 h x v)
  then obtain w where w: "val (hp_mem h) (parts x) = Some w" "v = build x w" by (auto simp: assms(3))
  from deep_copy.copy_ok [OF assms(1) 2(1) w(1)] w(2) show ?case by (force simp: assms)
qed

end
