(* ===== verification/Deep_Copy.thy ===== *)
theory Deep_Copy
  imports Go_Memory Cidr
begin

text \<open>
  \<open>api/v1alpha1/zz_generated.deepcopy.go\<close>: the deep copies of the API types, over a memory with
  pointers and slices. The records \<open>M...\<close> are the types as they lie in memory: a pointer is an address, a
  slice refers to an array, and both can be nil. \<open>val_...\<close> reads the value of the model of the API types
  from memory.

  A \<open>DeepCopyInto\<close> returns the struct it leaves in \<open>*out\<close>; every caller passes memory that it has just
  allocated and stores the struct there. Deep copies of the types of the Kubernetes libraries are in the
  record \<open>k8s_copies\<close>, and \<open>k8s_copies_doc\<close> says that they keep the contract.
\<close>

subsection \<open>The types in memory\<close>

record MAddressEntry =
  ma_Address :: string
  ma_MissingSince :: "ref option"

record MCIDR =
  mc_IP :: "slice option"
  mc_Prefix :: int

record MLabelSelectorRequirement =
  mq_Key :: string
  mq_Operator :: string
  mq_Values :: "slice option"

record MPort =
  mpt_Protocol :: Protocol
  mpt_Port :: "ref option"
  mpt_EndPort :: "ref option"

record MEgressRule =
  me_ToFQDNs :: "slice option"
  me_Ports :: "slice option"
  me_BlockPrivateIPs :: "ref option"

record MNetworkPolicySpec =
  mp_TargetNetwork :: string
  mp_Egress :: "slice option"
  mp_MatchLabels :: "slice option"
  mp_MatchExpressions :: "slice option"
  mp_EnabledNetworkType :: NetworkType
  mp_ResolutionTimeoutSeconds :: int32
  mp_RetryTimeoutSeconds :: int32
  mp_TTLSeconds :: int32
  mp_BlockPrivateIPs :: bool

record MFQDNStatus =
  mf_FQDN :: FQDN
  mf_FailingSince :: "ref option"
  mf_LastTransitionTime :: Time
  mf_Reason :: NetworkPolicyResolutionReason
  mf_Message :: string
  mf_Addresses :: "slice option"

record MNetworkPolicyStatus =
  mt_FQDNs :: "slice option"
  mt_ActiveFQDNCount :: int32
  mt_FailingFQDNCount :: int32
  mt_AppliedAddressCount :: int32
  mt_TotalAddressCount :: int32
  mt_Conditions :: "slice option"
  mt_ObservedGeneration :: int64

record MObjectMeta =
  mo_Name :: string
  mo_Namespace :: string
  mo_Generation :: int64
  mo_Labels :: "ref option"
  mo_Annotations :: "ref option"

record MListMeta =
  mlm_ResourceVersion :: string
  mlm_RemainingItemCount :: "ref option"

type_synonym TypeMeta = "string \<times> string"

record MNetworkPolicy =
  mn_TypeMeta :: TypeMeta
  mn_ObjectMeta :: MObjectMeta
  mn_NPSpec :: MNetworkPolicySpec
  mn_NPStatus :: MNetworkPolicyStatus

record MNetworkPolicyList =
  ml_TypeMeta :: TypeMeta
  ml_ListMeta :: MListMeta
  ml_Items :: "slice option"

text \<open>What an allocated object can be: the target of a pointer, a map, or the array of a slice.\<close>

datatype obj =
    OTime Time | OBool bool | OInt32 int32 | OInt64 int64 | OMap "(string, string) gomap"
  | OBytes "byte list" | OStrings "string list"
  | OAddressEntry MAddressEntry | OAddressEntries "MAddressEntry list"
  | OCIDR MCIDR | OCIDRs "ref option list"
  | ORequirement MLabelSelectorRequirement | ORequirements "MLabelSelectorRequirement list"
  | OMatchLabel MatchLabel | OMatchLabels "MatchLabel list"
  | OPort MPort | OPorts "MPort list"
  | OEgressRule MEgressRule | OEgressRules "MEgressRule list"
  | OFQDNStatus MFQDNStatus | OFQDNStatuses "MFQDNStatus list"
  | OConditions "Condition list"
  | OSpec MNetworkPolicySpec | OStatus MNetworkPolicyStatus
  | OPolicy MNetworkPolicy | OPolicies "MNetworkPolicy list" | OPolicyList MNetworkPolicyList

definition V_time :: "(Time, obj) view" where
  "V_time = \<lparr>v_inj = OTime, v_prj = (\<lambda>x. case x of OTime y \<Rightarrow> Some y | _ \<Rightarrow> None)\<rparr>"
definition V_bool :: "(bool, obj) view" where
  "V_bool = \<lparr>v_inj = OBool, v_prj = (\<lambda>x. case x of OBool y \<Rightarrow> Some y | _ \<Rightarrow> None)\<rparr>"
definition V_int32 :: "(int32, obj) view" where
  "V_int32 = \<lparr>v_inj = OInt32, v_prj = (\<lambda>x. case x of OInt32 y \<Rightarrow> Some y | _ \<Rightarrow> None)\<rparr>"
definition V_int64 :: "(int64, obj) view" where
  "V_int64 = \<lparr>v_inj = OInt64, v_prj = (\<lambda>x. case x of OInt64 y \<Rightarrow> Some y | _ \<Rightarrow> None)\<rparr>"
definition V_map :: "((string, string) gomap, obj) view" where
  "V_map = \<lparr>v_inj = OMap, v_prj = (\<lambda>x. case x of OMap y \<Rightarrow> Some y | _ \<Rightarrow> None)\<rparr>"
definition V_bytes :: "(byte list, obj) view" where
  "V_bytes = \<lparr>v_inj = OBytes, v_prj = (\<lambda>x. case x of OBytes y \<Rightarrow> Some y | _ \<Rightarrow> None)\<rparr>"
definition V_strings :: "(string list, obj) view" where
  "V_strings = \<lparr>v_inj = OStrings, v_prj = (\<lambda>x. case x of OStrings y \<Rightarrow> Some y | _ \<Rightarrow> None)\<rparr>"
definition V_addressEntry :: "(MAddressEntry, obj) view" where
  "V_addressEntry = \<lparr>v_inj = OAddressEntry, v_prj = (\<lambda>x. case x of OAddressEntry y \<Rightarrow> Some y | _ \<Rightarrow> None)\<rparr>"
definition V_addressEntries :: "(MAddressEntry list, obj) view" where
  "V_addressEntries = \<lparr>v_inj = OAddressEntries, v_prj = (\<lambda>x. case x of OAddressEntries y \<Rightarrow> Some y | _ \<Rightarrow> None)\<rparr>"
definition V_cidr :: "(MCIDR, obj) view" where
  "V_cidr = \<lparr>v_inj = OCIDR, v_prj = (\<lambda>x. case x of OCIDR y \<Rightarrow> Some y | _ \<Rightarrow> None)\<rparr>"
definition V_cidrs :: "(ref option list, obj) view" where
  "V_cidrs = \<lparr>v_inj = OCIDRs, v_prj = (\<lambda>x. case x of OCIDRs y \<Rightarrow> Some y | _ \<Rightarrow> None)\<rparr>"
definition V_requirement :: "(MLabelSelectorRequirement, obj) view" where
  "V_requirement = \<lparr>v_inj = ORequirement, v_prj = (\<lambda>x. case x of ORequirement y \<Rightarrow> Some y | _ \<Rightarrow> None)\<rparr>"
definition V_requirements :: "(MLabelSelectorRequirement list, obj) view" where
  "V_requirements = \<lparr>v_inj = ORequirements, v_prj = (\<lambda>x. case x of ORequirements y \<Rightarrow> Some y | _ \<Rightarrow> None)\<rparr>"
definition V_matchLabel :: "(MatchLabel, obj) view" where
  "V_matchLabel = \<lparr>v_inj = OMatchLabel, v_prj = (\<lambda>x. case x of OMatchLabel y \<Rightarrow> Some y | _ \<Rightarrow> None)\<rparr>"
definition V_matchLabels :: "(MatchLabel list, obj) view" where
  "V_matchLabels = \<lparr>v_inj = OMatchLabels, v_prj = (\<lambda>x. case x of OMatchLabels y \<Rightarrow> Some y | _ \<Rightarrow> None)\<rparr>"
definition V_port :: "(MPort, obj) view" where
  "V_port = \<lparr>v_inj = OPort, v_prj = (\<lambda>x. case x of OPort y \<Rightarrow> Some y | _ \<Rightarrow> None)\<rparr>"
definition V_ports :: "(MPort list, obj) view" where
  "V_ports = \<lparr>v_inj = OPorts, v_prj = (\<lambda>x. case x of OPorts y \<Rightarrow> Some y | _ \<Rightarrow> None)\<rparr>"
definition V_egressRule :: "(MEgressRule, obj) view" where
  "V_egressRule = \<lparr>v_inj = OEgressRule, v_prj = (\<lambda>x. case x of OEgressRule y \<Rightarrow> Some y | _ \<Rightarrow> None)\<rparr>"
definition V_egressRules :: "(MEgressRule list, obj) view" where
  "V_egressRules = \<lparr>v_inj = OEgressRules, v_prj = (\<lambda>x. case x of OEgressRules y \<Rightarrow> Some y | _ \<Rightarrow> None)\<rparr>"
definition V_fqdnStatus :: "(MFQDNStatus, obj) view" where
  "V_fqdnStatus = \<lparr>v_inj = OFQDNStatus, v_prj = (\<lambda>x. case x of OFQDNStatus y \<Rightarrow> Some y | _ \<Rightarrow> None)\<rparr>"
definition V_fqdnStatuses :: "(MFQDNStatus list, obj) view" where
  "V_fqdnStatuses = \<lparr>v_inj = OFQDNStatuses, v_prj = (\<lambda>x. case x of OFQDNStatuses y \<Rightarrow> Some y | _ \<Rightarrow> None)\<rparr>"
definition V_conditions :: "(Condition list, obj) view" where
  "V_conditions = \<lparr>v_inj = OConditions, v_prj = (\<lambda>x. case x of OConditions y \<Rightarrow> Some y | _ \<Rightarrow> None)\<rparr>"
definition V_spec :: "(MNetworkPolicySpec, obj) view" where
  "V_spec = \<lparr>v_inj = OSpec, v_prj = (\<lambda>x. case x of OSpec y \<Rightarrow> Some y | _ \<Rightarrow> None)\<rparr>"
definition V_status :: "(MNetworkPolicyStatus, obj) view" where
  "V_status = \<lparr>v_inj = OStatus, v_prj = (\<lambda>x. case x of OStatus y \<Rightarrow> Some y | _ \<Rightarrow> None)\<rparr>"
definition V_policy :: "(MNetworkPolicy, obj) view" where
  "V_policy = \<lparr>v_inj = OPolicy, v_prj = (\<lambda>x. case x of OPolicy y \<Rightarrow> Some y | _ \<Rightarrow> None)\<rparr>"
definition V_policies :: "(MNetworkPolicy list, obj) view" where
  "V_policies = \<lparr>v_inj = OPolicies, v_prj = (\<lambda>x. case x of OPolicies y \<Rightarrow> Some y | _ \<Rightarrow> None)\<rparr>"
definition V_policyList :: "(MNetworkPolicyList, obj) view" where
  "V_policyList = \<lparr>v_inj = OPolicyList, v_prj = (\<lambda>x. case x of OPolicyList y \<Rightarrow> Some y | _ \<Rightarrow> None)\<rparr>"

lemmas view_defs = V_time_def V_bool_def V_int32_def V_int64_def V_map_def V_bytes_def V_strings_def
  V_addressEntry_def V_addressEntries_def V_cidr_def V_cidrs_def V_requirement_def V_requirements_def
  V_matchLabel_def V_matchLabels_def V_port_def V_ports_def V_egressRule_def V_egressRules_def
  V_fqdnStatus_def V_fqdnStatuses_def V_conditions_def V_spec_def V_status_def V_policy_def V_policies_def
  V_policyList_def

lemma views_ok [simp]:
  "view_ok V_time" "view_ok V_bool" "view_ok V_int32" "view_ok V_int64" "view_ok V_map" "view_ok V_bytes" "view_ok V_strings"
  "view_ok V_addressEntry" "view_ok V_addressEntries" "view_ok V_cidr" "view_ok V_cidrs" "view_ok V_requirement"
  "view_ok V_requirements" "view_ok V_matchLabel" "view_ok V_matchLabels" "view_ok V_port" "view_ok V_ports"
  "view_ok V_egressRule" "view_ok V_egressRules" "view_ok V_fqdnStatus" "view_ok V_fqdnStatuses" "view_ok V_conditions"
  "view_ok V_spec" "view_ok V_status" "view_ok V_policy" "view_ok V_policies" "view_ok V_policyList"
  by (simp_all add: view_ok_def view_defs)

subsection \<open>The copies\<close>

record k8s_copies =
  kc_Time_DeepCopy :: "(ref, obj) copier"
  kc_Time_DeepCopyInto :: "(Time, obj) copier"
  kc_Condition_DeepCopyInto :: "(Condition, obj) copier"
  kc_ObjectMeta_DeepCopyInto :: "(MObjectMeta, obj) copier"
  kc_ListMeta_DeepCopyInto :: "(MListMeta, obj) copier"

text \<open>The zero values that \<open>new\<close> and \<open>make\<close> leave in memory.\<close>

definition zero_AddressEntry :: MAddressEntry where
  "zero_AddressEntry = \<lparr>ma_Address = '''', ma_MissingSince = None\<rparr>"
definition zero_CIDR :: MCIDR where
  "zero_CIDR = \<lparr>mc_IP = None, mc_Prefix = 0\<rparr>"
definition zero_LabelSelectorRequirement :: MLabelSelectorRequirement where
  "zero_LabelSelectorRequirement = \<lparr>mq_Key = '''', mq_Operator = '''', mq_Values = None\<rparr>"
definition zero_MatchLabel :: MatchLabel where
  "zero_MatchLabel = \<lparr>ml_Label = '''', ml_Value = ''''\<rparr>"
definition zero_Port :: MPort where
  "zero_Port = \<lparr>mpt_Protocol = '''', mpt_Port = None, mpt_EndPort = None\<rparr>"
definition zero_EgressRule :: MEgressRule where
  "zero_EgressRule = \<lparr>me_ToFQDNs = None, me_Ports = None, me_BlockPrivateIPs = None\<rparr>"
definition zero_Spec :: MNetworkPolicySpec where
  "zero_Spec = \<lparr>mp_TargetNetwork = '''', mp_Egress = None, mp_MatchLabels = None, mp_MatchExpressions = None,
     mp_EnabledNetworkType = '''', mp_ResolutionTimeoutSeconds = 0, mp_RetryTimeoutSeconds = 0, mp_TTLSeconds = 0,
     mp_BlockPrivateIPs = False\<rparr>"
definition zero_FQDNStatus :: MFQDNStatus where
  "zero_FQDNStatus = \<lparr>mf_FQDN = '''', mf_FailingSince = None, mf_LastTransitionTime = zeroTime, mf_Reason = '''',
     mf_Message = '''', mf_Addresses = None\<rparr>"
definition zero_Condition :: Condition where
  "zero_Condition = \<lparr>c_Type = '''', c_Status = '''', c_ObservedGeneration = 0, c_LastTransitionTime = zeroTime,
     c_Reason = '''', c_Message = ''''\<rparr>"
definition zero_Status :: MNetworkPolicyStatus where
  "zero_Status = \<lparr>mt_FQDNs = None, mt_ActiveFQDNCount = 0, mt_FailingFQDNCount = 0, mt_AppliedAddressCount = 0,
     mt_TotalAddressCount = 0, mt_Conditions = None, mt_ObservedGeneration = 0\<rparr>"
definition zero_NetworkPolicy :: MNetworkPolicy where
  "zero_NetworkPolicy = \<lparr>mn_TypeMeta = ('''', ''''),
     mn_ObjectMeta = \<lparr>mo_Name = '''', mo_Namespace = '''', mo_Generation = 0, mo_Labels = None, mo_Annotations = None\<rparr>,
     mn_NPSpec = zero_Spec, mn_NPStatus = zero_Status\<rparr>"
definition zero_NetworkPolicyList :: MNetworkPolicyList where
  "zero_NetworkPolicyList = \<lparr>ml_TypeMeta = ('''', ''''),
     ml_ListMeta = \<lparr>mlm_ResourceVersion = '''', mlm_RemainingItemCount = None\<rparr>, ml_Items = None\<rparr>"

definition AddressEntry_DeepCopyInto :: "k8s_copies \<Rightarrow> (MAddressEntry, obj) copier" where
  "AddressEntry_DeepCopyInto kc x h =
     do {
       (missing, h1) \<leftarrow> copy_opt (kc_Time_DeepCopy kc) (ma_MissingSince x) h;
       Some (x\<lparr>ma_MissingSince := missing\<rparr>, h1)
     }"

definition AddressEntry_DeepCopy :: "k8s_copies \<Rightarrow> (ref option, obj) copier" where
  "AddressEntry_DeepCopy kc = copy_opt (copy_into V_addressEntry zero_AddressEntry (AddressEntry_DeepCopyInto kc))"

definition CIDR_DeepCopyInto :: "(MCIDR, obj) copier" where
  "CIDR_DeepCopyInto x h =
     do {
       (ip, h1) \<leftarrow> copy_opt (copy_array V_bytes 0) (mc_IP x) h;
       Some (x\<lparr>mc_IP := ip\<rparr>, h1)
     }"

definition CIDR_DeepCopy :: "(ref option, obj) copier" where
  "CIDR_DeepCopy = copy_opt (copy_into V_cidr zero_CIDR CIDR_DeepCopyInto)"

text \<open>For the list types the receiver is the slice itself; \<open>make\<close> and \<open>range\<close> treat nil as empty.\<close>

definition CIDRList_DeepCopyInto :: "(slice option, obj) copier" where
  "CIDRList_DeepCopyInto s h =
     (case s of
        None \<Rightarrow> (let (out, h1) = make_slice V_cidrs None 0 h in Some (Some out, h1))
      | Some s \<Rightarrow>
          do { (out, h1) \<leftarrow> copy_each V_cidrs None (copy_opt (copy_into V_cidr zero_CIDR CIDR_DeepCopyInto)) s h;
               Some (Some out, h1) })"

definition CIDRList_DeepCopy :: "(slice option, obj) copier" where
  "CIDRList_DeepCopy s h = (case s of None \<Rightarrow> Some (None, h) | Some _ \<Rightarrow> CIDRList_DeepCopyInto s h)"

definition MultiNetworkPolicyPort_DeepCopyInto :: "(MPort, obj) copier" where
  "MultiNetworkPolicyPort_DeepCopyInto x h =
     do {
       (port, h1) \<leftarrow> copy_opt (copy_new V_int32 0) (mpt_Port x) h;
       (endPort, h2) \<leftarrow> copy_opt (copy_new V_int32 0) (mpt_EndPort x) h1;
       Some (x\<lparr>mpt_Port := port, mpt_EndPort := endPort\<rparr>, h2)
     }"

definition MultiNetworkPolicyPort_DeepCopy :: "(ref option, obj) copier" where
  "MultiNetworkPolicyPort_DeepCopy = copy_opt (copy_into V_port zero_Port MultiNetworkPolicyPort_DeepCopyInto)"

definition EgressRule_DeepCopyInto :: "(MEgressRule, obj) copier" where
  "EgressRule_DeepCopyInto x h =
     do {
       (fqdns, h1) \<leftarrow> copy_opt (copy_array V_strings '''') (me_ToFQDNs x) h;
       (ports, h2) \<leftarrow> copy_opt (copy_each V_ports zero_Port MultiNetworkPolicyPort_DeepCopyInto) (me_Ports x) h1;
       (block, h3) \<leftarrow> copy_opt (copy_new V_bool False) (me_BlockPrivateIPs x) h2;
       Some (x\<lparr>me_ToFQDNs := fqdns, me_Ports := ports, me_BlockPrivateIPs := block\<rparr>, h3)
     }"

definition EgressRule_DeepCopy :: "(ref option, obj) copier" where
  "EgressRule_DeepCopy = copy_opt (copy_into V_egressRule zero_EgressRule EgressRule_DeepCopyInto)"

definition FQDNStatus_DeepCopyInto :: "k8s_copies \<Rightarrow> (MFQDNStatus, obj) copier" where
  "FQDNStatus_DeepCopyInto kc x h =
     do {
       (failing, h1) \<leftarrow> copy_opt (kc_Time_DeepCopy kc) (mf_FailingSince x) h;
       (transition, h2) \<leftarrow> kc_Time_DeepCopyInto kc (mf_LastTransitionTime x) h1;
       (addrs, h3) \<leftarrow> copy_opt (copy_each V_addressEntries zero_AddressEntry (AddressEntry_DeepCopyInto kc)) (mf_Addresses x) h2;
       Some (x\<lparr>mf_FailingSince := failing, mf_LastTransitionTime := transition, mf_Addresses := addrs\<rparr>, h3)
     }"

definition FQDNStatus_DeepCopy :: "k8s_copies \<Rightarrow> (ref option, obj) copier" where
  "FQDNStatus_DeepCopy kc = copy_opt (copy_into V_fqdnStatus zero_FQDNStatus (FQDNStatus_DeepCopyInto kc))"

definition FQDNStatusList_DeepCopyInto :: "k8s_copies \<Rightarrow> (slice option, obj) copier" where
  "FQDNStatusList_DeepCopyInto kc s h =
     (case s of
        None \<Rightarrow> (let (out, h1) = make_slice V_fqdnStatuses zero_FQDNStatus 0 h in Some (Some out, h1))
      | Some s \<Rightarrow>
          do { (out, h1) \<leftarrow> copy_each V_fqdnStatuses zero_FQDNStatus (FQDNStatus_DeepCopyInto kc) s h;
               Some (Some out, h1) })"

definition FQDNStatusList_DeepCopy :: "k8s_copies \<Rightarrow> (slice option, obj) copier" where
  "FQDNStatusList_DeepCopy kc s h = (case s of None \<Rightarrow> Some (None, h) | Some _ \<Rightarrow> FQDNStatusList_DeepCopyInto kc s h)"

definition LabelSelectorRequirement_DeepCopyInto :: "(MLabelSelectorRequirement, obj) copier" where
  "LabelSelectorRequirement_DeepCopyInto x h =
     do {
       (vals, h1) \<leftarrow> copy_opt (copy_array V_strings '''') (mq_Values x) h;
       Some (x\<lparr>mq_Values := vals\<rparr>, h1)
     }"

definition LabelSelectorRequirement_DeepCopy :: "(ref option, obj) copier" where
  "LabelSelectorRequirement_DeepCopy =
     copy_opt (copy_into V_requirement zero_LabelSelectorRequirement LabelSelectorRequirement_DeepCopyInto)"

definition MatchLabel_DeepCopyInto :: "(MatchLabel, obj) copier" where
  "MatchLabel_DeepCopyInto x h = Some (x, h)"

definition MatchLabel_DeepCopy :: "(ref option, obj) copier" where
  "MatchLabel_DeepCopy = copy_opt (copy_into V_matchLabel zero_MatchLabel MatchLabel_DeepCopyInto)"

definition NetworkPolicySpec_DeepCopyInto :: "(MNetworkPolicySpec, obj) copier" where
  "NetworkPolicySpec_DeepCopyInto x h =
     do {
       (egress, h1) \<leftarrow> copy_opt (copy_each V_egressRules zero_EgressRule EgressRule_DeepCopyInto) (mp_Egress x) h;
       (labels, h2) \<leftarrow> copy_opt (copy_array V_matchLabels zero_MatchLabel) (mp_MatchLabels x) h1;
       (exprs, h3) \<leftarrow> copy_opt (copy_each V_requirements zero_LabelSelectorRequirement LabelSelectorRequirement_DeepCopyInto)
         (mp_MatchExpressions x) h2;
       Some (x\<lparr>mp_Egress := egress, mp_MatchLabels := labels, mp_MatchExpressions := exprs\<rparr>, h3)
     }"

definition NetworkPolicySpec_DeepCopy :: "(ref option, obj) copier" where
  "NetworkPolicySpec_DeepCopy = copy_opt (copy_into V_spec zero_Spec NetworkPolicySpec_DeepCopyInto)"

definition NetworkPolicyStatus_DeepCopyInto :: "k8s_copies \<Rightarrow> (MNetworkPolicyStatus, obj) copier" where
  "NetworkPolicyStatus_DeepCopyInto kc x h =
     do {
       (fqdns, h1) \<leftarrow> copy_opt (copy_each V_fqdnStatuses zero_FQDNStatus (FQDNStatus_DeepCopyInto kc)) (mt_FQDNs x) h;
       (conds, h2) \<leftarrow> copy_opt (copy_each V_conditions zero_Condition (kc_Condition_DeepCopyInto kc)) (mt_Conditions x) h1;
       Some (x\<lparr>mt_FQDNs := fqdns, mt_Conditions := conds\<rparr>, h2)
     }"

definition NetworkPolicyStatus_DeepCopy :: "k8s_copies \<Rightarrow> (ref option, obj) copier" where
  "NetworkPolicyStatus_DeepCopy kc = copy_opt (copy_into V_status zero_Status (NetworkPolicyStatus_DeepCopyInto kc))"

definition NetworkPolicy_DeepCopyInto :: "k8s_copies \<Rightarrow> (MNetworkPolicy, obj) copier" where
  "NetworkPolicy_DeepCopyInto kc x h =
     do {
       (metadata, h1) \<leftarrow> kc_ObjectMeta_DeepCopyInto kc (mn_ObjectMeta x) h;
       (spec, h2) \<leftarrow> NetworkPolicySpec_DeepCopyInto (mn_NPSpec x) h1;
       (status, h3) \<leftarrow> NetworkPolicyStatus_DeepCopyInto kc (mn_NPStatus x) h2;
       Some (x\<lparr>mn_TypeMeta := mn_TypeMeta x, mn_ObjectMeta := metadata, mn_NPSpec := spec, mn_NPStatus := status\<rparr>, h3)
     }"

definition NetworkPolicy_DeepCopy :: "k8s_copies \<Rightarrow> (ref option, obj) copier" where
  "NetworkPolicy_DeepCopy kc = copy_opt (copy_into V_policy zero_NetworkPolicy (NetworkPolicy_DeepCopyInto kc))"

definition NetworkPolicy_DeepCopyObject :: "k8s_copies \<Rightarrow> (ref option, obj) copier" where
  "NetworkPolicy_DeepCopyObject kc p h =
     do { (c, h1) \<leftarrow> NetworkPolicy_DeepCopy kc p h; Some (case c of Some r \<Rightarrow> Some r | None \<Rightarrow> None, h1) }"

definition NetworkPolicyList_DeepCopyInto :: "k8s_copies \<Rightarrow> (MNetworkPolicyList, obj) copier" where
  "NetworkPolicyList_DeepCopyInto kc x h =
     do {
       (metadata, h1) \<leftarrow> kc_ListMeta_DeepCopyInto kc (ml_ListMeta x) h;
       (items, h2) \<leftarrow> copy_opt (copy_each V_policies zero_NetworkPolicy (NetworkPolicy_DeepCopyInto kc)) (ml_Items x) h1;
       Some (x\<lparr>ml_TypeMeta := ml_TypeMeta x, ml_ListMeta := metadata, ml_Items := items\<rparr>, h2)
     }"

definition NetworkPolicyList_DeepCopy :: "k8s_copies \<Rightarrow> (ref option, obj) copier" where
  "NetworkPolicyList_DeepCopy kc =
     copy_opt (copy_into V_policyList zero_NetworkPolicyList (NetworkPolicyList_DeepCopyInto kc))"

definition NetworkPolicyList_DeepCopyObject :: "k8s_copies \<Rightarrow> (ref option, obj) copier" where
  "NetworkPolicyList_DeepCopyObject kc p h =
     do { (c, h1) \<leftarrow> NetworkPolicyList_DeepCopy kc p h; Some (case c of Some r \<Rightarrow> Some r | None \<Rightarrow> None, h1) }"

end
