(* ===== verification/Deep_Copy_Correct.thy ===== *)
theory Deep_Copy_Correct
  imports Deep_Copy
begin

text \<open>
  Every generated deep copy keeps the contract of \<open>deep_copy\<close>: on a well-formed value it succeeds, changes
  no existing memory, and the copy is equal to the original and lies in new memory altogether. For the
  snapshot \<open>previous := np.DeepCopy()\<close> of the reconciler this means that later writes to the policy do not
  show in it, so that the model may pass the value itself.
\<close>

subsection \<open>The values in memory\<close>

definition nil_list :: "'a list option \<Rightarrow> 'a list" where
  "nil_list s = (case s of None \<Rightarrow> [] | Some xs \<Rightarrow> xs)"

definition val_AddressEntry :: "obj memory \<Rightarrow> MAddressEntry \<Rightarrow> AddressEntry option" where
  "val_AddressEntry m x =
     map_option (\<lambda>t. \<lparr>ae_Address = ma_Address x, ae_MissingSince = t\<rparr>) (val_opt (load V_time) m (ma_MissingSince x))"

definition val_CIDR :: "obj memory \<Rightarrow> MCIDR \<Rightarrow> CIDR option" where
  "val_CIDR m x =
     map_option (\<lambda>ip. \<lparr>cd_IP = nil_list ip, cd_Prefix = mc_Prefix x\<rparr>) (val_opt (slice_elems V_bytes) m (mc_IP x))"

definition val_Port :: "obj memory \<Rightarrow> MPort \<Rightarrow> MultiNetworkPolicyPort option" where
  "val_Port m x =
     map_option (\<lambda>(p, e). \<lparr>p_Protocol = mpt_Protocol x, p_Port = p, p_EndPort = e\<rparr>)
       (val_pair (val_opt (load V_int32)) (val_opt (load V_int32)) m (mpt_Port x, mpt_EndPort x))"

definition val_EgressRule :: "obj memory \<Rightarrow> MEgressRule \<Rightarrow> EgressRule option" where
  "val_EgressRule m x =
     map_option (\<lambda>(f, p, b). \<lparr>er_ToFQDNs = nil_list f, er_Ports = nil_list p, er_BlockPrivateIPs = b\<rparr>)
       (val_pair (val_opt (slice_elems V_strings)) (val_pair (val_opt (val_each V_ports val_Port)) (val_opt (load V_bool)))
         m (me_ToFQDNs x, me_Ports x, me_BlockPrivateIPs x))"

definition val_Requirement :: "obj memory \<Rightarrow> MLabelSelectorRequirement \<Rightarrow> LabelSelectorRequirement option" where
  "val_Requirement m x =
     map_option (\<lambda>vs. \<lparr>lsr_Key = mq_Key x, lsr_Operator = mq_Operator x, lsr_Values = nil_list vs\<rparr>)
       (val_opt (slice_elems V_strings) m (mq_Values x))"

definition val_Spec :: "obj memory \<Rightarrow> MNetworkPolicySpec \<Rightarrow> NetworkPolicySpec option" where
  "val_Spec m x =
     map_option (\<lambda>(e, l, q). \<lparr>sp_TargetNetwork = mp_TargetNetwork x, sp_Egress = nil_list e, sp_MatchLabels = nil_list l,
         sp_MatchExpressions = nil_list q, sp_EnabledNetworkType = mp_EnabledNetworkType x,
         sp_ResolutionTimeoutSeconds = mp_ResolutionTimeoutSeconds x, sp_RetryTimeoutSeconds = mp_RetryTimeoutSeconds x,
         sp_TTLSeconds = mp_TTLSeconds x, sp_BlockPrivateIPs = mp_BlockPrivateIPs x\<rparr>)
       (val_pair (val_opt (val_each V_egressRules val_EgressRule))
         (val_pair (val_opt (slice_elems V_matchLabels)) (val_opt (val_each V_requirements val_Requirement)))
         m (mp_Egress x, mp_MatchLabels x, mp_MatchExpressions x))"

definition val_FQDNStatus :: "obj memory \<Rightarrow> MFQDNStatus \<Rightarrow> FQDNStatus option" where
  "val_FQDNStatus m x =
     map_option (\<lambda>(f, t, a). \<lparr>fs_FQDN = mf_FQDN x, fs_FailingSince = f, fs_LastTransitionTime = t, fs_Reason = mf_Reason x,
         fs_Message = mf_Message x, fs_Addresses = nil_list a\<rparr>)
       (val_pair (val_opt (load V_time)) (val_pair (\<lambda>m t. Some t) (val_opt (val_each V_addressEntries val_AddressEntry)))
         m (mf_FailingSince x, mf_LastTransitionTime x, mf_Addresses x))"

definition val_Status :: "obj memory \<Rightarrow> MNetworkPolicyStatus \<Rightarrow> NetworkPolicyStatus option" where
  "val_Status m x =
     map_option (\<lambda>(f, c). \<lparr>st_FQDNs = nil_list f, st_ActiveFQDNCount = mt_ActiveFQDNCount x,
         st_FailingFQDNCount = mt_FailingFQDNCount x, st_AppliedAddressCount = mt_AppliedAddressCount x,
         st_TotalAddressCount = mt_TotalAddressCount x, st_Conditions = nil_list c,
         st_ObservedGeneration = mt_ObservedGeneration x\<rparr>)
       (val_pair (val_opt (val_each V_fqdnStatuses val_FQDNStatus)) (val_opt (val_each V_conditions (\<lambda>m c. Some c)))
         m (mt_FQDNs x, mt_Conditions x))"

text \<open>Name, namespace, generation, labels and annotations.\<close>

type_synonym ObjectMeta = "string \<times> string \<times> int64 \<times> (string, string) gomap \<times> (string, string) gomap"

definition val_ObjectMeta :: "obj memory \<Rightarrow> MObjectMeta \<Rightarrow> ObjectMeta option" where
  "val_ObjectMeta m x =
     map_option (\<lambda>(l, a). (mo_Name x, mo_Namespace x, mo_Generation x, nil_list l, nil_list a))
       (val_pair (val_opt (load V_map)) (val_opt (load V_map)) m (mo_Labels x, mo_Annotations x))"

definition val_ListMeta :: "obj memory \<Rightarrow> MListMeta \<Rightarrow> (string \<times> int64 option) option" where
  "val_ListMeta m x = map_option (\<lambda>n. (mlm_ResourceVersion x, n)) (val_opt (load V_int64) m (mlm_RemainingItemCount x))"

definition policy_of :: "ObjectMeta \<Rightarrow> NetworkPolicySpec \<Rightarrow> NetworkPolicyStatus \<Rightarrow> NetworkPolicy" where
  "policy_of om sp st =
     (case om of (name, ns, gen, labels, annots) \<Rightarrow>
        \<lparr>np_Name = name, np_Namespace = ns, np_Labels = labels, np_Annotations = annots, np_Generation = gen,
         np_Spec = sp, np_Status = st\<rparr>)"

definition val_NetworkPolicy :: "obj memory \<Rightarrow> MNetworkPolicy \<Rightarrow> (TypeMeta \<times> NetworkPolicy) option" where
  "val_NetworkPolicy m x =
     map_option (\<lambda>(om, sp, st). (mn_TypeMeta x, policy_of om sp st))
       (val_pair val_ObjectMeta (val_pair val_Spec val_Status) m (mn_ObjectMeta x, mn_NPSpec x, mn_NPStatus x))"

definition val_NetworkPolicyList ::
  "obj memory \<Rightarrow> MNetworkPolicyList \<Rightarrow> (TypeMeta \<times> (string \<times> int64 option) \<times> (TypeMeta \<times> NetworkPolicy) list) option" where
  "val_NetworkPolicyList m x =
     map_option (\<lambda>(lm, items). (ml_TypeMeta x, lm, nil_list items))
       (val_pair val_ListMeta (val_opt (val_each V_policies val_NetworkPolicy)) m (ml_ListMeta x, ml_Items x))"

definition k8s_copies_doc :: "k8s_copies \<Rightarrow> bool" where
  "k8s_copies_doc kc \<longleftrightarrow> deep_copy (kc_Time_DeepCopy kc) (load V_time) \<and> deep_copy (kc_Time_DeepCopyInto kc) (\<lambda>m t. Some t) \<and>
     deep_copy (kc_Condition_DeepCopyInto kc) (\<lambda>m c. Some c) \<and> deep_copy (kc_ObjectMeta_DeepCopyInto kc) val_ObjectMeta \<and>
     deep_copy (kc_ListMeta_DeepCopyInto kc) val_ListMeta"

subsection \<open>The contracts\<close>

lemma AddressEntry_contract:
  assumes "k8s_copies_doc kc"
  shows "deep_copy (AddressEntry_DeepCopyInto kc) val_AddressEntry"
proof (rule deep_copy_struct [where parts = ma_MissingSince and upd = "\<lambda>t x. x\<lparr>ma_MissingSince := t\<rparr>"
      and build = "\<lambda>x t. \<lparr>ae_Address = ma_Address x, ae_MissingSince = t\<rparr>"])
  show "deep_copy (copy_opt (kc_Time_DeepCopy kc)) (val_opt (load V_time))"
    using assms by (auto simp: k8s_copies_doc_def intro: deep_copy_rules)
qed (simp_all add: AddressEntry_DeepCopyInto_def val_AddressEntry_def)

interpretation cidr_copy: deep_copy CIDR_DeepCopyInto val_CIDR
  by (rule deep_copy_struct [where parts = mc_IP and upd = "\<lambda>t x. x\<lparr>mc_IP := t\<rparr>"
      and build = "\<lambda>x ip. \<lparr>cd_IP = nil_list ip, cd_Prefix = mc_Prefix x\<rparr>", OF deep_copy_opt [OF deep_copy_array]])
    (simp_all add: CIDR_DeepCopyInto_def val_CIDR_def)

lemma copy_pair_bind:
  "copy_pair f g p h \<bind> k = f (fst p) h \<bind> (\<lambda>(x, h1). g (snd p) h1 \<bind> (\<lambda>(y, h2). k ((x, y), h2)))"
  by (simp add: copy_pair_def case_prod_beta')

interpretation port_copy: deep_copy MultiNetworkPolicyPort_DeepCopyInto val_Port
  by (rule deep_copy_struct [where parts = "\<lambda>x. (mpt_Port x, mpt_EndPort x)"
      and upd = "\<lambda>t x. x\<lparr>mpt_Port := fst t, mpt_EndPort := snd t\<rparr>"
      and build = "\<lambda>x (p, e). \<lparr>p_Protocol = mpt_Protocol x, p_Port = p, p_EndPort = e\<rparr>",
      OF deep_copy_pair [OF deep_copy_opt [OF deep_copy_new] deep_copy_opt [OF deep_copy_new]]])
    (simp_all add: MultiNetworkPolicyPort_DeepCopyInto_def val_Port_def copy_pair_bind case_prod_beta')

interpretation rule_copy: deep_copy EgressRule_DeepCopyInto val_EgressRule
  by (rule deep_copy_struct [where parts = "\<lambda>x. (me_ToFQDNs x, me_Ports x, me_BlockPrivateIPs x)"
      and upd = "\<lambda>t x. x\<lparr>me_ToFQDNs := fst t, me_Ports := fst (snd t), me_BlockPrivateIPs := snd (snd t)\<rparr>"
      and build = "\<lambda>x (f, p, b). \<lparr>er_ToFQDNs = nil_list f, er_Ports = nil_list p, er_BlockPrivateIPs = b\<rparr>",
      OF deep_copy_pair [OF deep_copy_opt [OF deep_copy_array]
        deep_copy_pair [OF deep_copy_opt [OF deep_copy_each [OF _ port_copy.deep_copy_axioms]] deep_copy_opt [OF deep_copy_new]]]])
    (simp_all add: EgressRule_DeepCopyInto_def val_EgressRule_def copy_pair_bind case_prod_beta')

interpretation requirement_copy: deep_copy LabelSelectorRequirement_DeepCopyInto val_Requirement
  by (rule deep_copy_struct [where parts = mq_Values and upd = "\<lambda>t x. x\<lparr>mq_Values := t\<rparr>"
      and build = "\<lambda>x vs. \<lparr>lsr_Key = mq_Key x, lsr_Operator = mq_Operator x, lsr_Values = nil_list vs\<rparr>",
      OF deep_copy_opt [OF deep_copy_array]])
    (simp_all add: LabelSelectorRequirement_DeepCopyInto_def val_Requirement_def)

interpretation label_copy: deep_copy MatchLabel_DeepCopyInto "\<lambda>m x. Some x"
  using deep_copy_plain by (simp add: MatchLabel_DeepCopyInto_def [abs_def])

interpretation spec_copy: deep_copy NetworkPolicySpec_DeepCopyInto val_Spec
  by (rule deep_copy_struct [where parts = "\<lambda>x. (mp_Egress x, mp_MatchLabels x, mp_MatchExpressions x)"
      and upd = "\<lambda>t x. x\<lparr>mp_Egress := fst t, mp_MatchLabels := fst (snd t), mp_MatchExpressions := snd (snd t)\<rparr>"
      and build = "\<lambda>x (e, l, q). \<lparr>sp_TargetNetwork = mp_TargetNetwork x, sp_Egress = nil_list e, sp_MatchLabels = nil_list l,
         sp_MatchExpressions = nil_list q, sp_EnabledNetworkType = mp_EnabledNetworkType x,
         sp_ResolutionTimeoutSeconds = mp_ResolutionTimeoutSeconds x, sp_RetryTimeoutSeconds = mp_RetryTimeoutSeconds x,
         sp_TTLSeconds = mp_TTLSeconds x, sp_BlockPrivateIPs = mp_BlockPrivateIPs x\<rparr>",
      OF deep_copy_pair [OF deep_copy_opt [OF deep_copy_each [OF _ rule_copy.deep_copy_axioms]]
        deep_copy_pair [OF deep_copy_opt [OF deep_copy_array]
          deep_copy_opt [OF deep_copy_each [OF _ requirement_copy.deep_copy_axioms]]]]])
    (simp_all add: NetworkPolicySpec_DeepCopyInto_def val_Spec_def copy_pair_bind case_prod_beta')

lemma FQDNStatus_contract:
  assumes "k8s_copies_doc kc"
  shows "deep_copy (FQDNStatus_DeepCopyInto kc) val_FQDNStatus"
proof (rule deep_copy_struct [where parts = "\<lambda>x. (mf_FailingSince x, mf_LastTransitionTime x, mf_Addresses x)"
      and upd = "\<lambda>t x. x\<lparr>mf_FailingSince := fst t, mf_LastTransitionTime := fst (snd t), mf_Addresses := snd (snd t)\<rparr>"
      and build = "\<lambda>x (f, t, a). \<lparr>fs_FQDN = mf_FQDN x, fs_FailingSince = f, fs_LastTransitionTime = t, fs_Reason = mf_Reason x,
         fs_Message = mf_Message x, fs_Addresses = nil_list a\<rparr>"])
  show "deep_copy
     (copy_pair (copy_opt (kc_Time_DeepCopy kc)) (copy_pair (kc_Time_DeepCopyInto kc)
       (copy_opt (copy_each V_addressEntries zero_AddressEntry (AddressEntry_DeepCopyInto kc)))))
     (val_pair (val_opt (load V_time)) (val_pair (\<lambda>m t. Some t) (val_opt (val_each V_addressEntries val_AddressEntry))))"
    using assms AddressEntry_contract by (auto simp: k8s_copies_doc_def intro!: deep_copy_rules)
qed (simp_all add: FQDNStatus_DeepCopyInto_def val_FQDNStatus_def copy_pair_bind case_prod_beta')

lemma Status_contract:
  assumes "k8s_copies_doc kc"
  shows "deep_copy (NetworkPolicyStatus_DeepCopyInto kc) val_Status"
proof (rule deep_copy_struct [where parts = "\<lambda>x. (mt_FQDNs x, mt_Conditions x)"
      and upd = "\<lambda>t x. x\<lparr>mt_FQDNs := fst t, mt_Conditions := snd t\<rparr>"
      and build = "\<lambda>x (f, c). \<lparr>st_FQDNs = nil_list f, st_ActiveFQDNCount = mt_ActiveFQDNCount x,
         st_FailingFQDNCount = mt_FailingFQDNCount x, st_AppliedAddressCount = mt_AppliedAddressCount x,
         st_TotalAddressCount = mt_TotalAddressCount x, st_Conditions = nil_list c,
         st_ObservedGeneration = mt_ObservedGeneration x\<rparr>"])
  show "deep_copy
     (copy_pair (copy_opt (copy_each V_fqdnStatuses zero_FQDNStatus (FQDNStatus_DeepCopyInto kc)))
       (copy_opt (copy_each V_conditions zero_Condition (kc_Condition_DeepCopyInto kc))))
     (val_pair (val_opt (val_each V_fqdnStatuses val_FQDNStatus)) (val_opt (val_each V_conditions (\<lambda>m c. Some c))))"
    using assms FQDNStatus_contract by (auto simp: k8s_copies_doc_def intro!: deep_copy_rules)
qed (simp_all add: NetworkPolicyStatus_DeepCopyInto_def val_Status_def copy_pair_bind case_prod_beta')

lemma NetworkPolicy_contract:
  assumes "k8s_copies_doc kc"
  shows "deep_copy (NetworkPolicy_DeepCopyInto kc) val_NetworkPolicy"
proof (rule deep_copy_struct [where parts = "\<lambda>x. (mn_ObjectMeta x, mn_NPSpec x, mn_NPStatus x)"
      and upd = "\<lambda>t x. x\<lparr>mn_ObjectMeta := fst t, mn_NPSpec := fst (snd t), mn_NPStatus := snd (snd t)\<rparr>"
      and build = "\<lambda>x (om, sp, st). (mn_TypeMeta x, policy_of om sp st)"])
  show "deep_copy
     (copy_pair (kc_ObjectMeta_DeepCopyInto kc) (copy_pair NetworkPolicySpec_DeepCopyInto (NetworkPolicyStatus_DeepCopyInto kc)))
     (val_pair val_ObjectMeta (val_pair val_Spec val_Status))"
    using assms Status_contract spec_copy.deep_copy_axioms by (auto simp: k8s_copies_doc_def intro!: deep_copy_rules)
qed (simp_all add: NetworkPolicy_DeepCopyInto_def val_NetworkPolicy_def copy_pair_bind case_prod_beta')

lemma NetworkPolicyList_contract:
  assumes "k8s_copies_doc kc"
  shows "deep_copy (NetworkPolicyList_DeepCopyInto kc) val_NetworkPolicyList"
proof (rule deep_copy_struct [where parts = "\<lambda>x. (ml_ListMeta x, ml_Items x)"
      and upd = "\<lambda>t x. x\<lparr>ml_ListMeta := fst t, ml_Items := snd t\<rparr>"
      and build = "\<lambda>x (lm, items). (ml_TypeMeta x, lm, nil_list items)"])
  show "deep_copy
     (copy_pair (kc_ListMeta_DeepCopyInto kc) (copy_opt (copy_each V_policies zero_NetworkPolicy (NetworkPolicy_DeepCopyInto kc))))
     (val_pair val_ListMeta (val_opt (val_each V_policies val_NetworkPolicy)))"
    using assms NetworkPolicy_contract by (auto simp: k8s_copies_doc_def intro!: deep_copy_rules)
qed (simp_all add: NetworkPolicyList_DeepCopyInto_def val_NetworkPolicyList_def copy_pair_bind case_prod_beta')

subsection \<open>Copies through pointers and of lists\<close>

lemma CIDRList_contract: "deep_copy CIDRList_DeepCopy (val_opt (val_each V_cidrs (val_opt (val_at V_cidr val_CIDR))))"
proof -
  have eq: "CIDRList_DeepCopy = copy_opt (copy_each V_cidrs None (copy_opt (copy_into V_cidr zero_CIDR CIDR_DeepCopyInto)))"
    by (intro ext) (simp add: CIDRList_DeepCopy_def CIDRList_DeepCopyInto_def copy_opt_def split: option.split)
  show ?thesis unfolding eq by (intro deep_copy_rules views_ok cidr_copy.deep_copy_axioms)
qed

lemma FQDNStatusList_contract:
  assumes "k8s_copies_doc kc"
  shows "deep_copy (FQDNStatusList_DeepCopy kc) (val_opt (val_each V_fqdnStatuses val_FQDNStatus))"
proof -
  have eq: "FQDNStatusList_DeepCopy kc = copy_opt (copy_each V_fqdnStatuses zero_FQDNStatus (FQDNStatus_DeepCopyInto kc))"
    by (intro ext) (simp add: FQDNStatusList_DeepCopy_def FQDNStatusList_DeepCopyInto_def copy_opt_def split: option.split)
  show ?thesis unfolding eq by (intro deep_copy_rules views_ok FQDNStatus_contract assms)
qed

lemma DeepCopyObject_eq:
  "NetworkPolicy_DeepCopyObject kc = NetworkPolicy_DeepCopy kc"
  "NetworkPolicyList_DeepCopyObject kc = NetworkPolicyList_DeepCopy kc"
proof -
  have eta: "(case c of None \<Rightarrow> None | Some r \<Rightarrow> Some r) = c" for c :: "ref option" by (cases c) simp_all
  show "NetworkPolicy_DeepCopyObject kc = NetworkPolicy_DeepCopy kc"
    "NetworkPolicyList_DeepCopyObject kc = NetworkPolicyList_DeepCopy kc"
    by (intro ext, simp add: NetworkPolicy_DeepCopyObject_def NetworkPolicyList_DeepCopyObject_def eta)+
qed

lemma NetworkPolicy_DeepCopy_contract:
  "k8s_copies_doc kc \<Longrightarrow> deep_copy (NetworkPolicy_DeepCopy kc) (val_opt (val_at V_policy val_NetworkPolicy))"
  unfolding NetworkPolicy_DeepCopy_def by (intro deep_copy_rules views_ok NetworkPolicy_contract)

subsection \<open>A sample memory\<close>

definition sample_ObjectMeta_DeepCopyInto :: "(MObjectMeta, obj) copier" where
  "sample_ObjectMeta_DeepCopyInto x h =
     do {
       (l, h1) \<leftarrow> copy_opt (copy_new V_map []) (mo_Labels x) h;
       (a, h2) \<leftarrow> copy_opt (copy_new V_map []) (mo_Annotations x) h1;
       Some (x\<lparr>mo_Labels := l, mo_Annotations := a\<rparr>, h2)
     }"

definition sample_ListMeta_DeepCopyInto :: "(MListMeta, obj) copier" where
  "sample_ListMeta_DeepCopyInto x h =
     do { (n, h1) \<leftarrow> copy_opt (copy_new V_int64 0) (mlm_RemainingItemCount x) h; Some (x\<lparr>mlm_RemainingItemCount := n\<rparr>, h1) }"

definition sample_copies :: k8s_copies where
  "sample_copies =
     \<lparr>kc_Time_DeepCopy = copy_new V_time zeroTime, kc_Time_DeepCopyInto = (\<lambda>x h. Some (x, h)),
      kc_Condition_DeepCopyInto = (\<lambda>x h. Some (x, h)), kc_ObjectMeta_DeepCopyInto = sample_ObjectMeta_DeepCopyInto,
      kc_ListMeta_DeepCopyInto = sample_ListMeta_DeepCopyInto\<rparr>"

lemma sample_copies_doc: "k8s_copies_doc sample_copies"
proof -
  have "deep_copy sample_ObjectMeta_DeepCopyInto val_ObjectMeta"
    by (rule deep_copy_struct [where parts = "\<lambda>x. (mo_Labels x, mo_Annotations x)"
        and upd = "\<lambda>t x. x\<lparr>mo_Labels := fst t, mo_Annotations := snd t\<rparr>"
        and build = "\<lambda>x (l, a). (mo_Name x, mo_Namespace x, mo_Generation x, nil_list l, nil_list a)",
        OF deep_copy_pair [OF deep_copy_opt [OF deep_copy_new] deep_copy_opt [OF deep_copy_new]]])
      (simp_all add: sample_ObjectMeta_DeepCopyInto_def val_ObjectMeta_def copy_pair_bind case_prod_beta')
  moreover have "deep_copy sample_ListMeta_DeepCopyInto val_ListMeta"
    by (rule deep_copy_struct [where parts = mlm_RemainingItemCount and upd = "\<lambda>t x. x\<lparr>mlm_RemainingItemCount := t\<rparr>"
        and build = "\<lambda>x n. (mlm_ResourceVersion x, n)", OF deep_copy_opt [OF deep_copy_new]])
      (simp_all add: sample_ListMeta_DeepCopyInto_def val_ListMeta_def)
  ultimately show ?thesis by (simp add: k8s_copies_doc_def sample_copies_def deep_copy_new deep_copy_plain)
qed

text \<open>A policy with one name, whose address has been missing since time 5; labels share a map with annotations.\<close>

definition sample_heap :: "obj heap" where
  "sample_heap = \<lparr>hp_next = 5, hp_mem = (\<lambda>a. None)
     (0 \<mapsto> OPolicy (zero_NetworkPolicy\<lparr>mn_ObjectMeta := (mn_ObjectMeta zero_NetworkPolicy)\<lparr>mo_Labels := Some 4, mo_Annotations := Some 4\<rparr>,
         mn_NPStatus := zero_Status\<lparr>mt_FQDNs := Some \<lparr>sl_arr = 1, sl_off = 1, sl_len = 1\<rparr>\<rparr>\<rparr>),
      1 \<mapsto> OFQDNStatuses [zero_FQDNStatus, zero_FQDNStatus\<lparr>mf_FQDN := ''a.io'', mf_Addresses := Some \<lparr>sl_arr = 2, sl_off = 0, sl_len = 1\<rparr>\<rparr>],
      2 \<mapsto> OAddressEntries [\<lparr>ma_Address = ''8.8.8.8/32'', ma_MissingSince = Some 3\<rparr>],
      3 \<mapsto> OTime 5,
      4 \<mapsto> OMap [(''k'', ''v'')])\<rparr>"

definition policy_addresses :: "(TypeMeta \<times> NetworkPolicy) option \<Rightarrow> AddressEntry list list option" where
  "policy_addresses v = map_option (\<lambda>(t, np). map fs_Addresses (st_FQDNs (np_Status np))) v"

lemma sample_heap_wf: "heap_wf sample_heap"
  by (simp add: heap_wf_def sample_heap_def)

lemma sample_heap_value:
  "policy_addresses (val_at V_policy val_NetworkPolicy (hp_mem sample_heap) 0) =
     Some [[\<lparr>ae_Address = ''8.8.8.8/32'', ae_MissingSince = Some 5\<rparr>]]"
  by code_simp

subsection \<open>Properties\<close>

text \<open>
  (C13) Every generated deep copy keeps the contract: on memory in which the value of the receiver can be
  read at its type, the copy succeeds, the memory stays well typed, nothing that existed is written to,
  and the same value is read from the copy in the new memory alone. A nil receiver gives nil.
\<close>

theorem deep_copies_keep_contract:
  assumes "k8s_copies_doc kc"
  shows "deep_copy (AddressEntry_DeepCopy kc) (val_opt (val_at V_addressEntry val_AddressEntry)) \<and>
    deep_copy CIDR_DeepCopy (val_opt (val_at V_cidr val_CIDR)) \<and>
    deep_copy CIDRList_DeepCopy (val_opt (val_each V_cidrs (val_opt (val_at V_cidr val_CIDR)))) \<and>
    deep_copy EgressRule_DeepCopy (val_opt (val_at V_egressRule val_EgressRule)) \<and>
    deep_copy (FQDNStatus_DeepCopy kc) (val_opt (val_at V_fqdnStatus val_FQDNStatus)) \<and>
    deep_copy (FQDNStatusList_DeepCopy kc) (val_opt (val_each V_fqdnStatuses val_FQDNStatus)) \<and>
    deep_copy LabelSelectorRequirement_DeepCopy (val_opt (val_at V_requirement val_Requirement)) \<and>
    deep_copy MatchLabel_DeepCopy (val_opt (val_at V_matchLabel (\<lambda>m x. Some x))) \<and>
    deep_copy MultiNetworkPolicyPort_DeepCopy (val_opt (val_at V_port val_Port)) \<and>
    deep_copy (NetworkPolicy_DeepCopyObject kc) (val_opt (val_at V_policy val_NetworkPolicy)) \<and>
    deep_copy (NetworkPolicyList_DeepCopyObject kc) (val_opt (val_at V_policyList val_NetworkPolicyList)) \<and>
    deep_copy NetworkPolicySpec_DeepCopy (val_opt (val_at V_spec val_Spec)) \<and>
    deep_copy (NetworkPolicyStatus_DeepCopy kc) (val_opt (val_at V_status val_Status))"
  unfolding DeepCopyObject_eq AddressEntry_DeepCopy_def CIDR_DeepCopy_def EgressRule_DeepCopy_def FQDNStatus_DeepCopy_def
    LabelSelectorRequirement_DeepCopy_def MatchLabel_DeepCopy_def MultiNetworkPolicyPort_DeepCopy_def NetworkPolicy_DeepCopy_def
    NetworkPolicyList_DeepCopy_def NetworkPolicySpec_DeepCopy_def NetworkPolicyStatus_DeepCopy_def
  by (intro conjI deep_copy_rules views_ok assms CIDRList_contract FQDNStatusList_contract AddressEntry_contract FQDNStatus_contract
      Status_contract NetworkPolicy_contract NetworkPolicyList_contract cidr_copy.deep_copy_axioms rule_copy.deep_copy_axioms
      requirement_copy.deep_copy_axioms label_copy.deep_copy_axioms port_copy.deep_copy_axioms spec_copy.deep_copy_axioms)

theorem deep_copies_keep_contract_witness:
  "\<exists>y h'. NetworkPolicy_DeepCopyObject sample_copies (Some 0) sample_heap = Some (Some y, h') \<and> extends sample_heap h'"
proof -
  have d: "deep_copy (NetworkPolicy_DeepCopyObject sample_copies) (val_opt (val_at V_policy val_NetworkPolicy))"
    using deep_copies_keep_contract [OF sample_copies_doc] by blast
  obtain v where "val_at V_policy val_NetworkPolicy (hp_mem sample_heap) 0 = Some v"
    using sample_heap_value by (cases "val_at V_policy val_NetworkPolicy (hp_mem sample_heap) 0") (auto simp: policy_addresses_def)
  then have "val_opt (val_at V_policy val_NetworkPolicy) (hp_mem sample_heap) (Some 0) = Some (Some v)" by (simp add: val_opt_def)
  from deep_copy.copy_ok [OF d sample_heap_wf this] obtain y h' where
    "NetworkPolicy_DeepCopyObject sample_copies (Some 0) sample_heap = Some (y, h')" "extends sample_heap h'"
    "val_opt (val_at V_policy val_NetworkPolicy) (fresh sample_heap h') y = Some (Some v)" by blast
  then show ?thesis by (cases y) (auto simp: val_opt_def)
qed

text \<open>
  (C12) The snapshot \<open>previous := np.DeepCopy()\<close> of the reconciler: the copy is a new object with the value
  of the policy; whatever is written later to memory outside the block the copy allocated, for example
  through the policy, the copy keeps that value; and whatever is written into that block, the policy
  keeps it. So taking the value of the policy for the snapshot is faithful.
\<close>

theorem NetworkPolicy_snapshot:
  assumes "k8s_copies_doc kc" and "heap_wf h" and "val_at V_policy val_NetworkPolicy (hp_mem h) p = Some v"
  shows "\<exists>q h'. NetworkPolicy_DeepCopy kc (Some p) h = Some (Some q, h') \<and> (\<forall>a < hp_next h. hp_mem h' a = hp_mem h a) \<and>
    (\<forall>m. (\<forall>a. hp_next h \<le> a \<and> a < hp_next h' \<longrightarrow> m a = hp_mem h' a) \<longrightarrow> val_at V_policy val_NetworkPolicy m q = Some v) \<and>
    (\<forall>m. (\<forall>a < hp_next h. m a = hp_mem h a) \<longrightarrow> val_at V_policy val_NetworkPolicy m p = Some v)"
proof -
  have val: "val_opt (val_at V_policy val_NetworkPolicy) (hp_mem h) (Some p) = Some (Some v)"
    using assms(3) by (simp add: val_opt_def)
  obtain y h' where c: "NetworkPolicy_DeepCopy kc (Some p) h = Some (y, h')" "\<forall>a < hp_next h. hp_mem h' a = hp_mem h a"
    "\<forall>m. (\<forall>a. hp_next h \<le> a \<and> a < hp_next h' \<longrightarrow> m a = hp_mem h' a) \<longrightarrow>
      val_opt (val_at V_policy val_NetworkPolicy) m y = Some (Some v)"
    "\<forall>m. (\<forall>a < hp_next h. m a = hp_mem h a) \<longrightarrow> val_opt (val_at V_policy val_NetworkPolicy) m (Some p) = Some (Some v)"
    using deep_copy.snapshot [OF NetworkPolicy_DeepCopy_contract [OF assms(1)] assms(2) val] by blast
  have "val_opt (val_at V_policy val_NetworkPolicy) (hp_mem h') y = Some (Some v)" using c(3) by simp
  then obtain q where "y = Some q" by (cases y) (auto simp: val_opt_def)
  with c show ?thesis by (auto simp: val_opt_def)
qed

text \<open>The policy loses its address entries after the snapshot; the snapshot still has them.\<close>

theorem NetworkPolicy_snapshot_witness:
  "\<exists>q h'. NetworkPolicy_DeepCopy sample_copies (Some 0) sample_heap = Some (Some q, h') \<and>
     policy_addresses (val_at V_policy val_NetworkPolicy ((hp_mem h')(2 \<mapsto> OAddressEntries [zero_AddressEntry])) q) =
       Some [[\<lparr>ae_Address = ''8.8.8.8/32'', ae_MissingSince = Some 5\<rparr>]]"
proof -
  obtain v where v: "val_at V_policy val_NetworkPolicy (hp_mem sample_heap) 0 = Some v"
    using sample_heap_value by (cases "val_at V_policy val_NetworkPolicy (hp_mem sample_heap) 0") (auto simp: policy_addresses_def)
  obtain q h' where c: "NetworkPolicy_DeepCopy sample_copies (Some 0) sample_heap = Some (Some q, h')"
    "\<forall>m. (\<forall>a. hp_next sample_heap \<le> a \<and> a < hp_next h' \<longrightarrow> m a = hp_mem h' a) \<longrightarrow> val_at V_policy val_NetworkPolicy m q = Some v"
    using NetworkPolicy_snapshot [OF sample_copies_doc sample_heap_wf v] by blast
  have "val_at V_policy val_NetworkPolicy ((hp_mem h')(2 \<mapsto> OAddressEntries [zero_AddressEntry])) q = Some v"
    using c(2) by (simp add: sample_heap_def)
  then show ?thesis using c(1) sample_heap_value v by metis
qed

end
