(* ===== verification/Go_Flag.thy ===== *)
theory Go_Flag
  imports Go_Net
begin

text \<open>
  What the program uses of the package \<open>flag\<close> and of \<open>strconv.ParseBool\<close> and \<open>strconv.ParseInt\<close> with base 0
  below it. A flag is known by name; a \<open>flag_value\<close> says how its text sets the variables \<open>'s\<close>. \<open>FOther\<close> is a
  flag that another package has defined: whether it is a boolean flag and which texts it accepts.

  Shown: a decimal number is read back (\<open>ParseInt_Itoa\<close>), and one argument of the form \<open>--name=text\<close> sets
  its flag (\<open>Parse_assignment\<close>).
\<close>

subsection \<open>Booleans and numbers\<close>

definition ParseBool :: "string \<Rightarrow> bool option" where
  "ParseBool s =
     (if s \<in> {''1'', ''t'', ''T'', ''TRUE'', ''true'', ''True''} then Some True
      else if s \<in> {''0'', ''f'', ''F'', ''FALSE'', ''false'', ''False''} then Some False
      else None)"

text \<open>The value of a digit in any base up to 36; \<open>None\<close> for other characters.\<close>

definition digit36 :: "char \<Rightarrow> nat option" where
  "digit36 c =
     (let n = (of_char c :: nat)
      in if 48 \<le> n \<and> n \<le> 57 then Some (n - 48)
         else if 97 \<le> n \<and> n \<le> 122 then Some (n - 97 + 10)
         else if 65 \<le> n \<and> n \<le> 90 then Some (n - 65 + 10)
         else None)"

fun uint_loop :: "nat \<Rightarrow> nat \<Rightarrow> string \<Rightarrow> nat option" where
  "uint_loop base n [] = Some n"
| "uint_loop base n (c # s) =
     (if c = CHR ''_'' then uint_loop base n s
      else (case digit36 c of
          None \<Rightarrow> None
        | Some d \<Rightarrow> if base \<le> d then None else uint_loop base (n * base + d) s))"

definition base_prefix :: "string \<Rightarrow> nat \<times> string" where
  "base_prefix s =
     (if hd s = CHR ''0'' then
        (if 3 \<le> length s \<and> s ! 1 \<in> {CHR ''b'', CHR ''B''} then (2, drop 2 s)
         else if 3 \<le> length s \<and> s ! 1 \<in> {CHR ''o'', CHR ''O''} then (8, drop 2 s)
         else if 3 \<le> length s \<and> s ! 1 \<in> {CHR ''x'', CHR ''X''} then (16, drop 2 s)
         else (8, drop 1 s))
      else (10, s))"

text \<open>Underscores separate digits: \<open>prev\<close> is what the previous character was.\<close>

datatype underscore_state = AtStart | AfterDigit | AfterUnderscore | AfterOther

fun underscore_loop :: "bool \<Rightarrow> underscore_state \<Rightarrow> string \<Rightarrow> bool" where
  "underscore_loop hex prev [] = (prev \<noteq> AfterUnderscore)"
| "underscore_loop hex prev (c # s) =
     (if is_digit c \<or> hex \<and> is_hex c then underscore_loop hex AfterDigit s
      else if c = CHR ''_'' then prev = AfterDigit \<and> underscore_loop hex AfterUnderscore s
      else prev \<noteq> AfterUnderscore \<and> underscore_loop hex AfterOther s)"

definition underscoreOK :: "string \<Rightarrow> bool" where
  "underscoreOK s =
     (let t = (if s \<noteq> [] \<and> hd s \<in> {CHR ''-'', CHR ''+''} then tl s else s)
      in if 2 \<le> length t \<and> hd t = CHR ''0'' \<and> t ! 1 \<in> set ''bBoOxX''
         then underscore_loop (t ! 1 \<in> {CHR ''x'', CHR ''X''}) AfterDigit (drop 2 t)
         else underscore_loop False AtStart t)"

definition ParseUint :: "string \<Rightarrow> nat option" where
  "ParseUint s =
     (if s = [] then None
      else (case base_prefix s of (base, digits) \<Rightarrow>
        (case uint_loop base 0 digits of
           None \<Rightarrow> None
         | Some n \<Rightarrow>
             if 2 ^ 64 \<le> n then None
             else if CHR ''_'' \<in> set digits \<and> \<not> underscoreOK s then None
             else Some n)))"

definition ParseInt :: "string \<Rightarrow> int option" where
  "ParseInt s =
     (if s = [] then None
      else let neg = (hd s = CHR ''-''); t = (if hd s \<in> {CHR ''-'', CHR ''+''} then tl s else s)
           in (case ParseUint t of
                 None \<Rightarrow> None
               | Some un \<Rightarrow>
                   if \<not> neg \<and> 2 ^ 63 \<le> un then None
                   else if neg \<and> 2 ^ 63 < un then None
                   else Some (if neg then - int un else int un)))"

subsection \<open>Flags\<close>

datatype 's flag_value =
    FString "string \<Rightarrow> 's \<Rightarrow> 's"
  | FBool "bool \<Rightarrow> 's \<Rightarrow> 's"
  | FInt "int \<Rightarrow> 's \<Rightarrow> 's"
  | FOther bool "string \<Rightarrow> bool"

fun IsBoolFlag :: "'s flag_value \<Rightarrow> bool" where
  "IsBoolFlag (FBool f) = True"
| "IsBoolFlag (FOther b acc) = b"
| "IsBoolFlag _ = False"

fun flag_Set :: "'s flag_value \<Rightarrow> string \<Rightarrow> 's \<Rightarrow> 's option" where
  "flag_Set (FString f) v st = Some (f v st)"
| "flag_Set (FBool f) v st = map_option (\<lambda>b. f b st) (ParseBool v)"
| "flag_Set (FInt f) v st = map_option (\<lambda>n. f n st) (ParseInt v)"
| "flag_Set (FOther b acc) v st = (if acc v then Some st else None)"

datatype flag_error =
    BadSyntax string | NotDefined string | ErrHelp | NeedsArgument string | InvalidValue string string

datatype argument = Operand | Terminator | Malformed | FlagArg string "string option"

text \<open>What one argument is: a flag has one or two hyphens and may carry its text after the first equals sign.\<close>

definition split_flag :: "string \<Rightarrow> argument" where
  "split_flag name =
     (if name = [] \<or> hd name \<in> {CHR ''-'', CHR ''=''} then Malformed
      else if CHR ''='' \<in> set name
      then FlagArg (takeWhile (\<lambda>c. c \<noteq> CHR ''='') name) (Some (tl (dropWhile (\<lambda>c. c \<noteq> CHR ''='') name)))
      else FlagArg name None)"

definition parse_argument :: "string \<Rightarrow> argument" where
  "parse_argument s =
     (if length s < 2 \<or> hd s \<noteq> CHR ''-'' then Operand
      else if s ! 1 = CHR ''-'' then (if length s = 2 then Terminator else split_flag (drop 2 s))
      else split_flag (drop 1 s))"

fun Parse :: "(string \<Rightarrow> 's flag_value option) \<Rightarrow> string list \<Rightarrow> 's \<Rightarrow> flag_error + 's \<times> string list" where
  "Parse formal [] st = Inr (st, [])"
| "Parse formal (s # args) st =
     (case parse_argument s of
        Operand \<Rightarrow> Inr (st, s # args)
      | Terminator \<Rightarrow> Inr (st, args)
      | Malformed \<Rightarrow> Inl (BadSyntax s)
      | FlagArg name val \<Rightarrow>
          (case formal name of
             None \<Rightarrow> Inl (if name = ''help'' \<or> name = ''h'' then ErrHelp else NotDefined name)
           | Some fv \<Rightarrow>
               if IsBoolFlag fv then
                 (let v = (case val of None \<Rightarrow> ''true'' | Some v \<Rightarrow> v)
                  in case flag_Set fv v st of
                       None \<Rightarrow> Inl (InvalidValue name v)
                     | Some st' \<Rightarrow> Parse formal args st')
               else
                 (case val of
                    Some v \<Rightarrow>
                      (case flag_Set fv v st of
                         None \<Rightarrow> Inl (InvalidValue name v)
                       | Some st' \<Rightarrow> Parse formal args st')
                  | None \<Rightarrow>
                      (case args of
                         [] \<Rightarrow> Inl (NeedsArgument name)
                       | v # args' \<Rightarrow>
                           (case flag_Set fv v st of
                              None \<Rightarrow> Inl (InvalidValue name v)
                            | Some st' \<Rightarrow> Parse formal args' st')))))"

text \<open>\<open>flag.Parse\<close> ends the program on an error: with code 0 for a request for help, with code 2 otherwise.\<close>

definition flag_exit_code :: "flag_error \<Rightarrow> nat" where
  "flag_exit_code e = (if e = ErrHelp then 0 else 2)"

subsection \<open>Reading back\<close>

lemma digit36_is_digit: "is_digit c \<Longrightarrow> digit36 c = Some (digit_val c) \<and> digit_val c < 10 \<and> c \<noteq> CHR ''_''"
  by (auto simp: digit36_def is_digit_iff digit_val_def)

lemma uint_loop_digits: "\<forall>c \<in> set s. is_digit c \<Longrightarrow> uint_loop 10 n s = Some (digits_val n s)"
  by (induction s arbitrary: n) (simp_all add: digits_val_def digit36_is_digit not_le)

lemma ParseUint_nat_digits:
  assumes "n < 2 ^ 64"
  shows "ParseUint (nat_digits n) = Some n"
proof (cases "n = 0")
  case True
  have "ParseUint ''0'' = Some 0" by code_simp
  moreover have "nat_digits 0 = ''0''" by code_simp
  ultimately show ?thesis using True by simp
next
  case False
  have "CHR ''_'' \<notin> set (nat_digits n)" using nat_digits_all_digits [of n] digit36_is_digit by blast
  then show ?thesis
    using assms False hd_nat_digits [of n] uint_loop_digits [OF nat_digits_all_digits, of 0 n]
    by (simp add: ParseUint_def base_prefix_def digits_val_nat_digits)
qed

lemma ParseInt_Itoa:
  assumes "- (2 ^ 63) \<le> n" and "n < 2 ^ 63"
  shows "ParseInt (Itoa n) = Some n"
proof (cases "n < 0")
  case True
  then have "nat (- n) < 2 ^ 64" "nat (- n) \<le> 2 ^ 63" using assms by simp_all
  then show ?thesis using True ParseUint_nat_digits [of "nat (- n)"] by (simp add: ParseInt_def Itoa_def)
next
  case False
  then have "nat n < 2 ^ 64" "nat n < 2 ^ 63" using assms by simp_all
  moreover have "hd (nat_digits (nat n)) \<notin> {CHR ''-'', CHR ''+''}"
  proof -
    have "is_digit (hd (nat_digits (nat n)))" using nat_digits_all_digits [of "nat n"] by (metis hd_in_set nat_digits_not_Nil)
    then show ?thesis by (auto simp: is_digit_iff)
  qed
  ultimately show ?thesis using False ParseUint_nat_digits [of "nat n"] by (simp add: ParseInt_def Itoa_def)
qed

definition assignment :: "string \<Rightarrow> string \<Rightarrow> string" where
  "assignment name v = ''--'' @ name @ ''='' @ v"

definition plain_name :: "string \<Rightarrow> bool" where
  "plain_name name \<longleftrightarrow> name \<noteq> [] \<and> CHR ''='' \<notin> set name \<and> hd name \<noteq> CHR ''-''"

lemma parse_argument_assignment:
  assumes "plain_name name"
  shows "parse_argument (assignment name v) = FlagArg name (Some v)"
proof -
  have tw: "takeWhile (\<lambda>c. c \<noteq> CHR ''='') (name @ CHR ''='' # v) = name"
    "dropWhile (\<lambda>c. c \<noteq> CHR ''='') (name @ CHR ''='' # v) = CHR ''='' # v"
    using assms by (auto simp: plain_name_def takeWhile_append dropWhile_append)
  have "hd name \<noteq> CHR ''=''" "name \<noteq> []" "hd name \<noteq> CHR ''-''"
    using assms by (auto simp: plain_name_def dest: hd_in_set)
  then have "split_flag (name @ CHR ''='' # v) = FlagArg name (Some v)" by (simp add: split_flag_def tw)
  then show ?thesis using assms by (simp add: parse_argument_def assignment_def plain_name_def)
qed

lemma Parse_assignment:
  assumes "plain_name name" and "formal name = Some fv" and "flag_Set fv v st = Some st'"
  shows "Parse formal (assignment name v # args) st = Parse formal args st'"
  using assms by (simp add: parse_argument_assignment)

end
