(* ===== verification/Manager.thy ===== *)
theory Manager
  imports Resolve_Concurrency Go_Flag "HOL-Library.Sublist"
begin

text \<open>
  \<open>cmd/main.go\<close>, the start of the program, with \<open>NewDNSResolver\<close> of \<open>resolver.go\<close> and \<open>SetupWithManager\<close> of
  the controller and the scheme of \<open>groupversion_info.go\<close>: the flags and their defaults, the parsing of the
  command line, what is derived from flags and environment, and the fallible calls in their order, each
  with the check of its error that ends the program.

  The calls are third-party code. A call is a value of \<open>startup_step\<close> with the arguments that matter,
  and \<open>ok\<close> tells which calls succeed; \<open>dieCode\<close> is the exit code with which \<open>GetConfigOrDie\<close> itself ends
  the program. Directory and file of a certificate are kept as the two arguments of
  \<open>filepath.Join\<close>. The flags that the logging library and the controller runtime add are the
  argument \<open>other\<close>. Logging and \<open>maxprocs\<close> are left out; the value \<open>GOMAXPROCS\<close> has in the end is an
  argument.

  Shown: a command line that spells out flags is read back as these flags (\<open>flags_round_trip\<close>), no call
  follows a failed one, and the program starts to reconcile only after every call it needs has been
  made and has succeeded (\<open>main_fail_fast\<close>), and the concurrency limit it configures is one under
  which the resolver cannot block (\<open>configured_resolver_never_blocks\<close>).
\<close>

subsection \<open>Flags\<close>

record flags =
  fl_metricsAddr :: string
  fl_probeAddr :: string
  fl_enableLeaderElection :: bool
  fl_secureMetrics :: bool
  fl_webhookCertPath :: string
  fl_webhookCertName :: string
  fl_webhookCertKey :: string
  fl_metricsCertPath :: string
  fl_metricsCertName :: string
  fl_metricsCertKey :: string
  fl_enableHTTP2 :: bool
  fl_maxConcurrentResolves :: int

definition default_flags :: flags where
  "default_flags =
     \<lparr>fl_metricsAddr = ''0'', fl_probeAddr = '':8081'', fl_enableLeaderElection = False, fl_secureMetrics = True,
      fl_webhookCertPath = '''', fl_webhookCertName = ''tls.crt'', fl_webhookCertKey = ''tls.key'',
      fl_metricsCertPath = '''', fl_metricsCertName = ''tls.crt'', fl_metricsCertKey = ''tls.key'',
      fl_enableHTTP2 = False, fl_maxConcurrentResolves = 0\<rparr>"

definition program_flags :: "(string \<Rightarrow> (bool \<times> (string \<Rightarrow> bool)) option) \<Rightarrow> string \<Rightarrow> flags flag_value option" where
  "program_flags other name =
     (if name = ''metrics-bind-address'' then Some (FString (\<lambda>v fl. fl\<lparr>fl_metricsAddr := v\<rparr>))
      else if name = ''health-probe-bind-address'' then Some (FString (\<lambda>v fl. fl\<lparr>fl_probeAddr := v\<rparr>))
      else if name = ''leader-elect'' then Some (FBool (\<lambda>v fl. fl\<lparr>fl_enableLeaderElection := v\<rparr>))
      else if name = ''metrics-secure'' then Some (FBool (\<lambda>v fl. fl\<lparr>fl_secureMetrics := v\<rparr>))
      else if name = ''webhook-cert-path'' then Some (FString (\<lambda>v fl. fl\<lparr>fl_webhookCertPath := v\<rparr>))
      else if name = ''webhook-cert-name'' then Some (FString (\<lambda>v fl. fl\<lparr>fl_webhookCertName := v\<rparr>))
      else if name = ''webhook-cert-key'' then Some (FString (\<lambda>v fl. fl\<lparr>fl_webhookCertKey := v\<rparr>))
      else if name = ''metrics-cert-path'' then Some (FString (\<lambda>v fl. fl\<lparr>fl_metricsCertPath := v\<rparr>))
      else if name = ''metrics-cert-name'' then Some (FString (\<lambda>v fl. fl\<lparr>fl_metricsCertName := v\<rparr>))
      else if name = ''metrics-cert-key'' then Some (FString (\<lambda>v fl. fl\<lparr>fl_metricsCertKey := v\<rparr>))
      else if name = ''enable-http2'' then Some (FBool (\<lambda>v fl. fl\<lparr>fl_enableHTTP2 := v\<rparr>))
      else if name = ''max-concurrent-resolves'' then Some (FInt (\<lambda>v fl. fl\<lparr>fl_maxConcurrentResolves := v\<rparr>))
      else map_option (\<lambda>(isBool, accepts). FOther isBool accepts) (other name))"

definition upstreamDNS :: "string \<Rightarrow> string" where
  "upstreamDNS envDNS = (if envDNS \<noteq> '''' then envDNS else ''172.30.0.10'')"

definition maxConcurrentResolves :: "int \<Rightarrow> int \<Rightarrow> int" where
  "maxConcurrentResolves flag gomaxprocs = (if flag \<le> 0 then min (max 1 gomaxprocs) 20 else flag)"

subsection \<open>The upstream server\<close>

definition JoinHostPort :: "string \<Rightarrow> string \<Rightarrow> string" where
  "JoinHostPort host port =
     (if CHR '':'' \<in> set host then ''['' @ host @ '']:'' @ port else host @ '':'' @ port)"

record DNSResolver =
  dr_target :: string
  dr_dialTimeout :: Duration

definition NewDNSResolver :: "string \<Rightarrow> DNSResolver" where
  "NewDNSResolver upstream = \<lparr>dr_target = JoinHostPort upstream ''53'', dr_dialTimeout = duration_seconds 3\<rparr>"

subsection \<open>Servers\<close>

datatype watcher = WebhookCert | MetricsCert

datatype tls_opt = DisableHTTP2 | GetCertificate watcher

definition tlsOpts :: "flags \<Rightarrow> tls_opt list" where
  "tlsOpts fl = (if \<not> fl_enableHTTP2 fl then [DisableHTTP2] else [])"

record metrics_options =
  mo_BindAddress :: string
  mo_SecureServing :: bool
  mo_TLSOpts :: "tls_opt list"
  mo_Authenticated :: bool

definition metricsServerOptions :: "flags \<Rightarrow> metrics_options" where
  "metricsServerOptions fl =
     (let opts = \<lparr>mo_BindAddress = fl_metricsAddr fl, mo_SecureServing = fl_secureMetrics fl,
            mo_TLSOpts = tlsOpts fl, mo_Authenticated = False\<rparr>
      in if fl_secureMetrics fl then opts\<lparr>mo_Authenticated := True\<rparr> else opts)"

record manager_options =
  mg_Metrics :: metrics_options
  mg_WebhookTLSOpts :: "tls_opt list"
  mg_HealthProbeBindAddress :: string
  mg_LeaderElection :: bool
  mg_LeaderElectionID :: string

definition manager_options_of :: "flags \<Rightarrow> metrics_options \<Rightarrow> tls_opt list \<Rightarrow> manager_options" where
  "manager_options_of fl metricsOptions webhookTLSOpts =
     \<lparr>mg_Metrics = metricsOptions, mg_WebhookTLSOpts = webhookTLSOpts,
      mg_HealthProbeBindAddress = fl_probeAddr fl, mg_LeaderElection = fl_enableLeaderElection fl,
      mg_LeaderElectionID = ''451551e6.turbosimone.com''\<rparr>"

subsection \<open>The controller\<close>

record controller_options =
  co_Name :: string
  co_GenerationChangedPredicate :: bool
  co_MaxConcurrentReconciles :: nat

definition SetupWithManager :: controller_options where
  "SetupWithManager =
     \<lparr>co_Name = ''fqdn-egress-operator'', co_GenerationChangedPredicate = True, co_MaxConcurrentReconciles = 5\<rparr>"

subsection \<open>The start\<close>

record GroupVersionType =
  gv_Group :: string
  gv_Version :: string

definition GroupVersion :: GroupVersionType where
  "GroupVersion = \<lparr>gv_Group = ''networking.turbosimone.com'', gv_Version = ''v1alpha1''\<rparr>"

record SchemeBuilderType =
  sb_GroupVersion :: GroupVersionType
  sb_Types :: "string list"

text \<open>The builder after the initialisation of the package of the API types has registered these types.\<close>

definition registered_types :: "string list" where
  "registered_types = [''NetworkPolicy'', ''NetworkPolicyList'']"

definition SchemeBuilder :: SchemeBuilderType where
  "SchemeBuilder = \<lparr>sb_GroupVersion = GroupVersion, sb_Types = registered_types\<rparr>"

datatype scheme_part = ClientGoScheme | ApiScheme SchemeBuilderType | MnetScheme

datatype startup_step =
  AddToScheme scheme_part
  | NewCertWatcher watcher string string string
  | GetConfigOrDie
  | NewManager manager_options
  | SetupController controller_options DNSResolver int
  | AddWatcher watcher
  | AddHealthzCheck
  | AddReadyzCheck
  | StartManager

text \<open>
  A part of the start, after the calls made so far, either ends the program, \<open>Inl\<close> with all calls and
  the exit code, or goes on, \<open>Inr\<close> with the calls made by then and the variables it has set.
\<close>

type_synonym 'a part = "startup_step list \<Rightarrow> (startup_step list \<times> nat) + (startup_step list \<times> 'a)"

text \<open>A call: whether it returned an error, and the calls made by then.\<close>

definition invoke :: "(startup_step \<Rightarrow> bool) \<Rightarrow> startup_step \<Rightarrow> startup_step list \<Rightarrow> bool \<times> startup_step list" where
  "invoke ok s calls = (\<not> ok s, calls @ [s])"

text \<open>The package initialisation; \<open>Must\<close> panics on an error, and the exit code of a panic is 2.\<close>

definition init_scheme :: "(startup_step \<Rightarrow> bool) \<Rightarrow> unit part" where
  "init_scheme ok calls =
     (let (err, calls) = invoke ok (AddToScheme ClientGoScheme) calls
      in if err then Inl (calls, 2)
      else let (err, calls) = invoke ok (AddToScheme (ApiScheme SchemeBuilder)) calls
      in if err then Inl (calls, 2)
      else let (err, calls) = invoke ok (AddToScheme MnetScheme) calls
      in if err then Inl (calls, 2)
      else Inr (calls, ()))"

text \<open>The certificate watchers: the pointer, nil or not, and the options extended by the watcher.\<close>

definition init_webhook_watcher :: "(startup_step \<Rightarrow> bool) \<Rightarrow> flags \<Rightarrow> (watcher option \<times> tls_opt list) part" where
  "init_webhook_watcher ok fl calls =
     (if 0 < length (fl_webhookCertPath fl)
      then let (err, calls) = invoke ok
             (NewCertWatcher WebhookCert (fl_webhookCertPath fl) (fl_webhookCertName fl) (fl_webhookCertKey fl)) calls
           in if err then Inl (calls, 1)
              else Inr (calls, (Some WebhookCert, tlsOpts fl @ [GetCertificate WebhookCert]))
      else Inr (calls, (None, tlsOpts fl)))"

definition init_metrics_watcher :: "(startup_step \<Rightarrow> bool) \<Rightarrow> flags \<Rightarrow> (watcher option \<times> metrics_options) part" where
  "init_metrics_watcher ok fl calls =
     (let opts = metricsServerOptions fl
      in if 0 < length (fl_metricsCertPath fl)
         then let (err, calls) = invoke ok
                (NewCertWatcher MetricsCert (fl_metricsCertPath fl) (fl_metricsCertName fl) (fl_metricsCertKey fl)) calls
              in if err then Inl (calls, 1)
                 else Inr (calls, (Some MetricsCert, opts\<lparr>mo_TLSOpts := mo_TLSOpts opts @ [GetCertificate MetricsCert]\<rparr>))
         else Inr (calls, (None, opts)))"

definition new_manager :: "(startup_step \<Rightarrow> bool) \<Rightarrow> nat \<Rightarrow> manager_options \<Rightarrow> unit part" where
  "new_manager ok dieCode opts calls =
     (let (err, calls) = invoke ok GetConfigOrDie calls
      in if err then Inl (calls, dieCode)
      else let (err, calls) = invoke ok (NewManager opts) calls
      in if err then Inl (calls, 1)
      else Inr (calls, ()))"

definition setup_controller :: "(startup_step \<Rightarrow> bool) \<Rightarrow> DNSResolver \<Rightarrow> int \<Rightarrow> unit part" where
  "setup_controller ok resolver limit calls =
     (let (err, calls) = invoke ok (SetupController SetupWithManager resolver limit) calls
      in if err then Inl (calls, 1) else Inr (calls, ()))"

definition add_watcher :: "(startup_step \<Rightarrow> bool) \<Rightarrow> watcher option \<Rightarrow> unit part" where
  "add_watcher ok watcher calls =
     (case watcher of
        None \<Rightarrow> Inr (calls, ())
      | Some w \<Rightarrow>
          let (err, calls) = invoke ok (AddWatcher w) calls
          in if err then Inl (calls, 1) else Inr (calls, ()))"

definition add_checks :: "(startup_step \<Rightarrow> bool) \<Rightarrow> unit part" where
  "add_checks ok calls =
     (let (err, calls) = invoke ok AddHealthzCheck calls
      in if err then Inl (calls, 1)
      else let (err, calls) = invoke ok AddReadyzCheck calls
      in if err then Inl (calls, 1)
      else Inr (calls, ()))"

definition start_manager :: "(startup_step \<Rightarrow> bool) \<Rightarrow> unit part" where
  "start_manager ok calls =
     (let (err, calls) = invoke ok StartManager calls in if err then Inl (calls, 1) else Inr (calls, ()))"

text \<open>The rest of \<open>main\<close> once the flags are parsed; when it returns, the exit code is zero.\<close>

definition main ::
  "(startup_step \<Rightarrow> bool) \<Rightarrow> nat \<Rightarrow> flags \<Rightarrow> string \<Rightarrow> int \<Rightarrow> startup_step list \<Rightarrow> startup_step list \<times> nat" where
  "main ok dieCode fl envDNS gomaxprocs calls =
     (let upstream = upstreamDNS envDNS; limit = maxConcurrentResolves (fl_maxConcurrentResolves fl) gomaxprocs
      in case init_webhook_watcher ok fl calls of Inl ended \<Rightarrow> ended
      | Inr (calls, (webhookCertWatcher, webhookTLSOpts)) \<Rightarrow>
      (case init_metrics_watcher ok fl calls of Inl ended \<Rightarrow> ended
      | Inr (calls, (metricsCertWatcher, metricsOptions)) \<Rightarrow>
      (case new_manager ok dieCode (manager_options_of fl metricsOptions webhookTLSOpts) calls of Inl ended \<Rightarrow> ended
      | Inr (calls, _) \<Rightarrow>
      (case setup_controller ok (NewDNSResolver upstream) limit calls of Inl ended \<Rightarrow> ended
      | Inr (calls, _) \<Rightarrow>
      (case add_watcher ok metricsCertWatcher calls of Inl ended \<Rightarrow> ended
      | Inr (calls, _) \<Rightarrow>
      (case add_watcher ok webhookCertWatcher calls of Inl ended \<Rightarrow> ended
      | Inr (calls, _) \<Rightarrow>
      (case add_checks ok calls of Inl ended \<Rightarrow> ended
      | Inr (calls, _) \<Rightarrow>
      (case start_manager ok calls of Inl ended \<Rightarrow> ended
      | Inr (calls, _) \<Rightarrow> (calls, 0)))))))))"

definition program ::
  "(startup_step \<Rightarrow> bool) \<Rightarrow> nat \<Rightarrow> (string \<Rightarrow> (bool \<times> (string \<Rightarrow> bool)) option) \<Rightarrow> string list \<Rightarrow> string \<Rightarrow> int \<Rightarrow>
   startup_step list \<times> nat" where
  "program ok dieCode other args envDNS gomaxprocs =
     (case init_scheme ok [] of Inl ended \<Rightarrow> ended
      | Inr (calls, _) \<Rightarrow>
      (case Parse (program_flags other) args default_flags of
         Inl err \<Rightarrow> (calls, flag_exit_code err)
       | Inr (fl, operands) \<Rightarrow> main ok dieCode fl envDNS gomaxprocs calls))"

subsection \<open>What the start has to do\<close>

text \<open>The calls a complete start consists of, in order, as a specification.\<close>

definition init_calls :: "startup_step list" where
  "init_calls = [AddToScheme ClientGoScheme, AddToScheme (ApiScheme SchemeBuilder), AddToScheme MnetScheme]"

definition with_certificate :: "tls_opt list \<Rightarrow> string \<Rightarrow> watcher \<Rightarrow> tls_opt list" where
  "with_certificate opts path w = (if path = '''' then opts else opts @ [GetCertificate w])"

definition wanted_manager :: "flags \<Rightarrow> manager_options" where
  "wanted_manager fl = manager_options_of fl
     \<lparr>mo_BindAddress = fl_metricsAddr fl, mo_SecureServing = fl_secureMetrics fl,
      mo_TLSOpts = with_certificate (tlsOpts fl) (fl_metricsCertPath fl) MetricsCert, mo_Authenticated = fl_secureMetrics fl\<rparr>
     (with_certificate (tlsOpts fl) (fl_webhookCertPath fl) WebhookCert)"

definition main_calls :: "flags \<Rightarrow> string \<Rightarrow> int \<Rightarrow> startup_step list" where
  "main_calls fl envDNS gomaxprocs =
     (if fl_webhookCertPath fl = '''' then []
      else [NewCertWatcher WebhookCert (fl_webhookCertPath fl) (fl_webhookCertName fl) (fl_webhookCertKey fl)]) @
     (if fl_metricsCertPath fl = '''' then []
      else [NewCertWatcher MetricsCert (fl_metricsCertPath fl) (fl_metricsCertName fl) (fl_metricsCertKey fl)]) @
     [GetConfigOrDie, NewManager (wanted_manager fl),
      SetupController SetupWithManager (NewDNSResolver (upstreamDNS envDNS))
        (maxConcurrentResolves (fl_maxConcurrentResolves fl) gomaxprocs)] @
     (if fl_metricsCertPath fl = '''' then [] else [AddWatcher MetricsCert]) @
     (if fl_webhookCertPath fl = '''' then [] else [AddWatcher WebhookCert]) @
     [AddHealthzCheck, AddReadyzCheck, StartManager]"

text \<open>Making calls up to the first failure, and the exit code.\<close>

fun run_calls :: "(startup_step \<Rightarrow> nat) \<Rightarrow> (startup_step \<Rightarrow> bool) \<Rightarrow> startup_step list \<Rightarrow> startup_step list \<times> nat" where
  "run_calls code ok [] = ([], 0)"
| "run_calls code ok (s # ss) = (if ok s then (let (t, c) = run_calls code ok ss in (s # t, c)) else ([s], code s))"

lemma run_calls_prefix: "prefix (fst (run_calls code ok ss)) ss"
  by (induction code ok ss rule: run_calls.induct) (auto split: prod.splits)

lemma run_calls_all: "list_all ok ss \<Longrightarrow> run_calls code ok ss = (ss, 0)"
  by (induction ss) simp_all

lemma run_calls_stops:
  "list_all ok (butlast (fst (run_calls code ok ss)))"
  "fst (run_calls code ok ss) \<noteq> [] \<longrightarrow> \<not> ok (last (fst (run_calls code ok ss))) \<longrightarrow>
     snd (run_calls code ok ss) = code (last (fst (run_calls code ok ss)))"
  "(\<And>s. code s \<noteq> 0) \<Longrightarrow> snd (run_calls code ok ss) = 0 \<longleftrightarrow> list_all ok ss"
  by (induction code ok ss rule: run_calls.induct) (auto split: prod.splits)

lemma run_calls_last:
  "s \<in> set (fst (run_calls code ok (ss @ [s]))) \<Longrightarrow> s \<notin> set ss \<Longrightarrow> fst (run_calls code ok (ss @ [s])) = ss @ [s] \<and> list_all ok ss"
  by (induction ss) (auto split: if_splits prod.splits)

lemmas part_defs = init_webhook_watcher_def init_metrics_watcher_def new_manager_def setup_controller_def
  add_watcher_def add_checks_def start_manager_def invoke_def

definition main_code :: "nat \<Rightarrow> startup_step \<Rightarrow> nat" where
  "main_code dieCode s = (if s = GetConfigOrDie then dieCode else 1)"

lemma main_run:
  "main ok dieCode fl envDNS g calls =
     (calls @ fst (run_calls (main_code dieCode) ok (main_calls fl envDNS g)),
      snd (run_calls (main_code dieCode) ok (main_calls fl envDNS g)))"
proof (cases "fl_webhookCertPath fl = ''''"; cases "fl_metricsCertPath fl = ''''")
qed (auto simp: main_def main_calls_def part_defs main_code_def wanted_manager_def with_certificate_def
    metricsServerOptions_def Let_def)

lemma init_run:
  "init_scheme ok [] =
     (if list_all ok init_calls then Inr (init_calls, ()) else Inl (run_calls (\<lambda>s. 2) ok init_calls))"
  by (auto simp: init_scheme_def init_calls_def invoke_def)

lemma StartManager_last:
  "\<exists>ss. main_calls fl envDNS g = ss @ [StartManager] \<and> StartManager \<notin> set ss"
  by (rule exI [of _ "butlast (main_calls fl envDNS g)"]) (auto simp: main_calls_def butlast_append)

subsection \<open>Properties\<close>

text \<open>
  (C26) The program fails fast, whichever calls fail: every call before the last one made has
  succeeded, so nothing follows a failed call, and after a failed call the exit code is not zero. It
  starts to reconcile only with a command line it understands and after it has made exactly the
  calls of a complete start in their order: registering the API types, creating the configured
  certificate watchers, reading the cluster's configuration, creating the manager, setting up the
  controller, adding the watchers and the two checks. The exit code is zero exactly when the
  manager was started and ended without an error, or help was asked for.
\<close>

theorem main_fail_fast:
  assumes "dieCode \<noteq> 0" and "program ok dieCode other args envDNS g = (calls, code)"
  shows "list_all ok (butlast calls) \<and> (calls \<noteq> [] \<and> \<not> ok (last calls) \<longrightarrow> code \<noteq> 0) \<and>
    (StartManager \<in> set calls \<longrightarrow>
       (\<exists>fl rest. Parse (program_flags other) args default_flags = Inr (fl, rest) \<and> calls = init_calls @ main_calls fl envDNS g)) \<and>
    (code = 0 \<longleftrightarrow> StartManager \<in> set calls \<and> ok StartManager \<or>
       list_all ok init_calls \<and> Parse (program_flags other) args default_flags = Inl ErrHelp)"
proof -
  have n: "StartManager \<notin> set init_calls" by (simp add: init_calls_def)
  show ?thesis
  proof (cases "list_all ok init_calls")
    case False
    note stops = run_calls_stops [where code = "\<lambda>s. 2" and ok = ok and ss = init_calls]
    have r: "run_calls (\<lambda>s. 2) ok init_calls = (calls, code)" using assms(2) False by (simp add: program_def init_run)
    then have "StartManager \<notin> set calls" using n run_calls_prefix [of "\<lambda>s. 2" ok init_calls] set_mono_prefix by fastforce
    then show ?thesis using stops r False by auto
  next
    case init: True
    show ?thesis
    proof (cases "Parse (program_flags other) args default_flags")
      case (Inl e)
      with assms(2) init have "calls = init_calls" "code = flag_exit_code e" by (simp_all add: program_def init_run)
      moreover have "list_all ok (butlast init_calls)" "ok (last init_calls)" using init by (simp_all add: init_calls_def)
      ultimately show ?thesis using Inl init n by (simp add: flag_exit_code_def)
    next
      case (Inr p)
      obtain fl rest where p: "p = (fl, rest)" by (rule prod.exhaust)
      let ?t = "run_calls (main_code dieCode) ok (main_calls fl envDNS g)"
      have r: "calls = init_calls @ fst ?t" "code = snd ?t"
        using assms(2) init Inr p by (simp_all add: program_def init_run main_run)
      have nz: "main_code dieCode s \<noteq> 0" for s using assms(1) by (simp add: main_code_def)
      note stops = run_calls_stops [where code = "main_code dieCode" and ok = ok and ss = "main_calls fl envDNS g"]
      obtain ss where ss: "main_calls fl envDNS g = ss @ [StartManager]" "StartManager \<notin> set ss"
        using StartManager_last by blast
      have reach: "StartManager \<in> set (fst ?t) \<Longrightarrow> fst ?t = main_calls fl envDNS g \<and> list_all ok ss"
        using run_calls_last [of StartManager "main_code dieCode" ok ss] ss by simp
      have zero: "snd ?t = 0 \<longleftrightarrow> StartManager \<in> set (fst ?t) \<and> ok StartManager"
        using stops(3) [OF nz] reach run_calls_all [of ok "main_calls fl envDNS g" "main_code dieCode"] ss(1) by auto
      have "ok (last init_calls)" "list_all ok (butlast init_calls)" using init by (simp_all add: init_calls_def)
      then have "list_all ok (butlast calls) \<and> (calls \<noteq> [] \<and> \<not> ok (last calls) \<longrightarrow> code \<noteq> 0)"
        using stops(1,2) nz init r by (cases "fst ?t = []") (simp_all add: butlast_append)
      then show ?thesis using r zero reach Inr p n by auto
    qed
  qed
qed

theorem main_fail_fast_witness:
  "StartManager \<in> set (fst (program (\<lambda>s. True) 1 (\<lambda>n. None) [''--webhook-cert-path=c''] '''' 8)) \<and>
   AddWatcher WebhookCert \<in> set (fst (program (\<lambda>s. True) 1 (\<lambda>n. None) [''--webhook-cert-path=c''] '''' 8)) \<and>
   snd (program (\<lambda>s. s \<noteq> AddReadyzCheck) 1 (\<lambda>n. None) [''--leader-elect''] '''' 8) \<noteq> 0"
proof -
  obtain calls code where p: "program (\<lambda>s. True) 1 (\<lambda>n. None) [''--webhook-cert-path=c''] '''' 8 = (calls, code)" by fastforce
  have s: "StartManager \<in> set (fst (program (\<lambda>s. True) 1 (\<lambda>n. None) [''--webhook-cert-path=c''] '''' 8))" by code_simp
  moreover have "case Parse (program_flags (\<lambda>n. None)) [''--webhook-cert-path=c''] default_flags of
    Inl e \<Rightarrow> False | Inr (fl, rest) \<Rightarrow> AddWatcher WebhookCert \<in> set (main_calls fl '''' 8)" by code_simp
  ultimately have "AddWatcher WebhookCert \<in> set calls"
    using main_fail_fast [OF _ p] p by auto
  moreover obtain calls' code' where q: "program (\<lambda>s. s \<noteq> AddReadyzCheck) 1 (\<lambda>n. None) [''--leader-elect''] '''' 8 = (calls', code')"
    by fastforce
  moreover have "last (fst (program (\<lambda>s. s \<noteq> AddReadyzCheck) 1 (\<lambda>n. None) [''--leader-elect''] '''' 8)) = AddReadyzCheck"
    "fst (program (\<lambda>s. s \<noteq> AddReadyzCheck) 1 (\<lambda>n. None) [''--leader-elect''] '''' 8) \<noteq> []" by code_simp+
  moreover from this q have "last calls' = AddReadyzCheck" "calls' \<noteq> []" by simp_all
  then have "code' \<noteq> 0" using main_fail_fast [OF one_neq_zero q] by blast
  ultimately show ?thesis using s p by simp
qed

definition bool_text :: "bool \<Rightarrow> string" where
  "bool_text b = (if b then ''true'' else ''false'')"

definition render_flags :: "flags \<Rightarrow> string list" where
  "render_flags fl =
     [assignment ''metrics-bind-address'' (fl_metricsAddr fl), assignment ''health-probe-bind-address'' (fl_probeAddr fl),
      assignment ''leader-elect'' (bool_text (fl_enableLeaderElection fl)), assignment ''metrics-secure'' (bool_text (fl_secureMetrics fl)),
      assignment ''webhook-cert-path'' (fl_webhookCertPath fl), assignment ''webhook-cert-name'' (fl_webhookCertName fl),
      assignment ''webhook-cert-key'' (fl_webhookCertKey fl), assignment ''metrics-cert-path'' (fl_metricsCertPath fl),
      assignment ''metrics-cert-name'' (fl_metricsCertName fl), assignment ''metrics-cert-key'' (fl_metricsCertKey fl),
      assignment ''enable-http2'' (bool_text (fl_enableHTTP2 fl)),
      assignment ''max-concurrent-resolves'' (Itoa (fl_maxConcurrentResolves fl))]"

lemma ParseBool_bool_text [simp]: "ParseBool (bool_text b) = Some b"
  by (simp add: bool_text_def ParseBool_def)

text \<open>
  (C32) The command line: spelling out every flag as \<open>--name=text\<close> is read back as exactly these flags,
  whatever their texts, the empty one and ones with equals signs and hyphens included, and whatever
  other flags are defined, for every limit that fits into an int.
\<close>

theorem flags_round_trip:
  assumes "- (2 ^ 63) \<le> fl_maxConcurrentResolves fl" and "fl_maxConcurrentResolves fl < 2 ^ 63"
  shows "Parse (program_flags other) (render_flags fl) default_flags = Inr (fl, [])"
  unfolding render_flags_def
  by (simp add: parse_argument_assignment plain_name_def program_flags_def ParseInt_Itoa [OF assms] default_flags_def)

theorem flags_round_trip_witness:
  "Parse (program_flags (\<lambda>n. None)) (render_flags (default_flags\<lparr>fl_webhookCertPath := ''-=-'', fl_maxConcurrentResolves := - 7\<rparr>)) default_flags =
     Inr (default_flags\<lparr>fl_webhookCertPath := ''-=-'', fl_maxConcurrentResolves := - 7\<rparr>, [])"
  by (rule flags_round_trip) simp_all

lemma maxConcurrentResolves_pos: "1 \<le> maxConcurrentResolves flag g"
  by (simp add: maxConcurrentResolves_def)

text \<open>
  (C25) The limit on concurrent lookups that the program configures is at least one whatever the flag
  and the number of processors, at most twenty unless the flag asks for more, and with it a run of
  the resolver can always come to its end and never has more lookups in flight than the limit.
\<close>

theorem configured_resolver_never_blocks:
  assumes "SetupController co dr limit \<in> set (fst (main ok dieCode fl envDNS g []))"
    and "(resolve_step (nat limit) (length fqdns) L nt)\<^sup>*\<^sup>* (resolve_init d fqdns) s" and "\<forall>i. foreign_lookup (L i)"
  shows "1 \<le> limit \<and> limit \<le> max 20 (fl_maxConcurrentResolves fl) \<and>
    int (count_if in_flight (rs_tasks s)) \<le> limit \<and>
    (\<exists>t. (resolve_step (nat limit) (length fqdns) L nt)\<^sup>*\<^sup>* s t \<and> resolve_terminal t)"
proof -
  have "SetupController co dr limit \<in> set (main_calls fl envDNS g)"
    using assms(1) set_mono_prefix [OF run_calls_prefix] by (auto simp: main_run)
  then have limit: "limit = maxConcurrentResolves (fl_maxConcurrentResolves fl) g"
    by (auto simp: main_calls_def split: if_splits)
  then have pos: "1 \<le> limit" using maxConcurrentResolves_pos by simp
  note inv = resolve_run_inv [OF assms(2,3)]
  have "count_if in_flight (rs_tasks s) \<le> nat limit" using inv by (simp add: resolve_inv_def)
  moreover have "\<exists>t. (resolve_step (nat limit) (length fqdns) L nt)\<^sup>*\<^sup>* s t \<and> resolve_terminal t"
    using resolve_reaches_terminal [OF inv assms(3)] pos by simp
  moreover have "limit \<le> max 20 (fl_maxConcurrentResolves fl)" by (simp add: limit maxConcurrentResolves_def)
  ultimately show ?thesis using pos by simp
qed

theorem configured_resolver_never_blocks_witness:
  "\<exists>t. (resolve_step (nat 8) (length [''a.io'']) (\<lambda>i. sample_lookup) IPv4)\<^sup>*\<^sup>* (resolve_init False [''a.io'']) t \<and> resolve_terminal t"
proof -
  have "SetupController SetupWithManager (NewDNSResolver (upstreamDNS '''')) 8 \<in> set (fst (main (\<lambda>s. True) 1 default_flags '''' 8 []))"
    by code_simp
  then show ?thesis
    using configured_resolver_never_blocks [where limit = 8 and fqdns = "[''a.io'']" and L = "\<lambda>i. sample_lookup" and nt = IPv4 and d = False]
      sample_lookup_foreign by blast
qed

end
