(* ===== verification/Spec2Isabelle.thy ===== *)
theory Spec2Isabelle
  imports Reconcile_History Reconcile_Steady Pod_Selector Deep_Copy_Correct Manager
begin

text \<open>
  A verification of the FQDN egress operator: a Kubernetes controller that resolves the domain names
  of a \<open>NetworkPolicy\<close> resource at regular intervals and writes the addresses into a
  \<open>MultiNetworkPolicy\<close>, the resource that the network plugin enforces.

  \<^bold>\<open>The program and its model.\<close> The reconciler (\<open>src/internal/controller\<close>) reads a policy, asks the DNS
  resolver (\<open>src/pkg/network\<close>) for the addresses of its names, updates the recorded status of every name
  (\<open>src/api/v1alpha1\<close> and the controller), generates a policy from the recorded addresses, removes
  duplicate CIDR blocks from it (\<open>src/pkg/utils\<close>), applies it and writes the status back.

  \<^item> \<open>Prelude\<close>: machine integers, durations and times, Go maps, sorting, and what the Go runtime leaves
    open: map iteration orders and the ties of unstable sorts, both as \<^emph>\<open>reorderings\<close>.
  \<^item> \<open>Go_Strings\<close>, \<open>Go_Net\<close>, \<open>Go_Time\<close>, \<open>Go_Flag\<close>: what the program uses of the packages \<open>strings\<close>,
    \<open>strconv\<close>, \<open>regexp\<close>, \<open>net\<close>, \<open>time\<close> and \<open>flag\<close>. \<open>Go_Memory\<close>: pointers, slices and allocation.
  \<^item> \<open>Api_Types\<close>: the types of \<open>networkpolicy_types.go\<close> as records, their constants, and the validation
    markers as predicates \<open>crd_\<dots>\<close>.
  \<^item> \<open>Cidr\<close>, \<open>Api_Funcs\<close>, \<open>Conditions\<close>: the functions of \<open>networkpolicy_funcs.go\<close> and
    \<open>networkpolicy_conditions.go\<close>.
  \<^item> \<open>Pod_Selector\<close>: the pods a generated policy selects.
  \<^item> \<open>Policy_Semantics\<close>: the meaning of a list of egress rules, the reference for the generated and the
    deduplicated policy.
  \<^item> \<open>Resolver\<close>, \<open>Resolve_Concurrency\<close>: \<open>resolver.go\<close>; the concurrent \<open>Resolve\<close> is a step relation over
    its goroutines, semaphore, channel and wait group.
  \<^item> \<open>Dedup\<close>, \<open>Dedup_Correct\<close>: \<open>utils/networkpolicy.go\<close> and its correctness.
  \<^item> \<open>Operations\<close>: \<open>utils/map.go\<close> and \<open>utils/operation.go\<close>.
  \<^item> \<open>Fqdn_Status\<close>, \<open>Retention\<close>: \<open>networkpolicy_fqdn_status.go\<close> and the retention block of \<open>Reconcile\<close>.
  \<^item> \<open>Controller\<close>, \<open>Controller_Correct\<close>, \<open>Reconcile_Correct\<close>: \<open>Reconcile\<close>, the status update, creation and
    deletion; their correctness; the composition of all parts.
  \<^item> \<open>Status_History\<close>, \<open>Reconcile_History\<close>: the recorded statuses over the life of a policy, and the
    clusters that reconciliations, users and other policies lead to, as inductive relations; the second
    refines the first.
  \<^item> \<open>Reconcile_Steady\<close>: a second reconciliation with the same successful answers changes nothing.
  \<^item> \<open>Deep_Copy\<close>, \<open>Deep_Copy_Correct\<close>: \<open>zz_generated.deepcopy.go\<close> over memory. All other parts are modelled
    over values; that the snapshot \<open>previous\<close> of the policy, taken before the policy is changed, may be
    the value itself is the theorem \<open>NetworkPolicy_snapshot\<close>.
  \<^item> \<open>Manager\<close>: \<open>cmd/main.go\<close> and \<open>groupversion_info.go\<close>, the command line, the settings and the start of the
    program.

  \<^bold>\<open>What stands for code outside the repository.\<close> The DNS client, the Kubernetes client, the API
  machinery and the clock are arguments of the definitions. What the program relies on is stated in
  the predicates whose names end in \<open>_doc\<close> (and \<open>foreign_lookup\<close> for the DNS client), and every
  theorem with such a hypothesis comes with an instance that satisfies it.

  \<^bold>\<open>What is shown.\<close> The generated policy permits what the spec declares (\<open>ToMultiNetworkPolicy_permits\<close>)
  and a private address only through a rule that does not block it (\<open>private_addresses_blocked\<close>); the deduplication keeps that meaning when no end ports are
  used (\<open>dedup_permits\<close>) and does not when they are (\<open>dedup_endport_merged\<close>); every name gets exactly
  one result under every scheduling, within the limit on concurrent lookups, and every run ends with
  nothing left behind (\<open>Resolve_terminates\<close>); lookups are classified by the whole chain of their error
  (\<open>lookup_result_status\<close>) and the worst one is quoted (\<open>AggregatedResolutionMessage_text\<close>);
  recorded addresses survive transient failures for exactly the retry timeout (\<open>retry_window\<close>) and
  disappearance for exactly the retention period (\<open>retention_window\<close>); applying a policy leaves
  nothing of older versions; the written status adds up. In every reachable cluster the recorded
  addresses, and what the applied policy permits, are addresses that DNS returned for a name of the
  policy (\<open>cluster_provenance\<close>, \<open>applied_destinations_resolved\<close>). Put together, a reconciliation leaves in the
  cluster what the spec declares, without end ports (\<open>reconcile_applies_policy\<close>), and is always called again
  (\<open>reconcile_keeps_polling\<close>); a repetition with the same successful answers writes nothing (\<open>reconcile_steady\<close>). The program makes
  no start-up call after a failed one (\<open>main_fail_fast\<close>). A pod is
  selected by the last value of every label (\<open>selected_pods\<close>). Five theorems show
  behaviour that differs from the documentation or from what the code means to do:
  \<open>dedup_endport_merged\<close>, \<open>revocation_overridden_by_retention\<close>, \<open>retention_ends_retry_window\<close>,
  \<open>failing_status_rewritten\<close> and \<open>failed_removal_not_retried\<close>.

  \<^bold>\<open>Interfaces.\<close> \<open>key_order\<close> states what a comparison function of a sort has to satisfy and is
  interpreted for strings, peers, CIDRs, ports, names and addresses; \<open>keyed_table\<close> states how the lookup
  tables are built and is interpreted for the tables of statuses and of results; \<open>deep_copy\<close> is the contract
  of a copying function and is interpreted for the API types, with rules for pointers, slices and structs.

  \<^bold>\<open>Bounds.\<close> There is no fuel: every loop of the program is a structural recursion or has a measure,
  and \<open>Resolve_terminates\<close> bounds the runs of the step relation. Integers have the width of the source;
  lengths converted to \<open>int32\<close> are stated with the bound under which they do not wrap.

  \<^bold>\<open>Not modelled.\<close> Logging, the setting of \<open>GOMAXPROCS\<close> and the tests. The third-party calls of the start-up
  are known by their arguments and by whether they succeed. Time stamps keep their nanoseconds, while
  the API server stores whole seconds. Outside \<open>Deep_Copy\<close> there is no memory: the slices and maps of the
  other parts are values, and a nil slice is an empty one.
\<close>

lemma generated_cidr:
  assumes "ToMultiNetworkPolicy np sts = Some m" and "c \<in> set (all_cidrs (mnp_egress m))"
  shows "\<exists>r \<in> set (sp_Egress (np_Spec np)). \<exists>f \<in> set (er_ToFQDNs r).
    c \<in> ae_Address ` recorded sts f \<and> isAllowed c (sp_BlockPrivateIPs (np_Spec np)) (er_BlockPrivateIPs r)"
proof -
  let ?ips = "FQDNStatusList_LookupTable sts" and ?g = "sp_BlockPrivateIPs (np_Spec np)"
  obtain rule where "rule \<in> set (mnp_egress m)" and c: "c \<in> set (peer_cidrs (mer_To rule))"
    using assms(2) by (auto simp: all_cidrs_def)
  then obtain r where r: "r \<in> set (sp_Egress (np_Spec np))" "toMultiNetworkPolicyEgressRule r ?ips ?g = Some rule"
    using ToMultiNetworkPolicy_egress [OF assms(1)] by (auto simp: mnp_egress_def egress_loop_set)
  obtain f where f: "f \<in> set (er_ToFQDNs r)" "c \<in> set (allowed_addrs ?ips ?g (er_BlockPrivateIPs r) f)"
    using c toEgressRule_Some(3) [OF r(2)] by auto
  then have "c \<in> ae_Address ` recorded sts f" "isAllowed c ?g (er_BlockPrivateIPs r)"
    by (auto simp: allowed_addrs_iff recorded_def previous_status_def split: option.splits)
  with r(1) f(1) show ?thesis by blast
qed

lemma deduplicated_destination:
  assumes "status_run h sts" and "dedup_order_ok ord" and "ToMultiNetworkPolicy np sts = Some m0"
    and "RemoveDuplicateCIDRsInMultiNetworkPolicy pstr ord (Some m0) = Some m"
    and "egress_permits (mnp_egress m) c proto n"
  shows "\<exists>r \<in> set (sp_Egress (np_Spec np)). \<exists>f \<in> set (er_ToFQDNs r).
    resolved_in h f c \<and> isAllowed c (sp_BlockPrivateIPs (np_Spec np)) (er_BlockPrivateIPs r)"
proof -
  have m: "mnp_egress m = dedup_rules pstr ord (mnp_egress m0)"
    by (rule RemoveDuplicateCIDRs_result(1) [OF assms(2,4)])
  have "list_all rule_wf (mnp_egress m0)" using generated_wf [OF assms(3)] by (simp add: mnp_egress_def)
  then have "c \<in> set (all_cidrs (mnp_egress m0))"
    using dedup_permits_cidr [OF assms(2)] dedup_cidr_set [OF assms(2)] assms(5) m by metis
  with generated_cidr [OF assms(3)] recorded_resolved [OF assms(1)] show ?thesis by blast
qed

lemma computed_destination:
  assumes "compute_policy r ch np = Some (np', Some m, evs)" and "choices_ok ch"
    and "status_run h (new_statuses r ch np)" and "egress_permits (mnp_egress m) d proto n"
  shows "\<exists>rl \<in> set (sp_Egress (np_Spec np)). \<exists>f \<in> set (er_ToFQDNs rl).
    resolved_in h f d \<and> isAllowed d (sp_BlockPrivateIPs (np_Spec np)) (er_BlockPrivateIPs rl)"
proof -
  let ?np = "with_statuses np (new_statuses r ch np)"
  have ord: "dedup_order_ok (ch_dedup ch)" using assms(2) by (simp add: choices_ok_def)
  obtain m0 where m0: "ToMultiNetworkPolicy ?np (new_statuses r ch np) = Some m0"
    "RemoveDuplicateCIDRsInMultiNetworkPolicy (cl_IntOrString_String (rc_Client r)) (ch_dedup ch) (Some m0) = Some m"
    using compute_policy_Some(7) [OF assms(1)]
    by (cases "ToMultiNetworkPolicy ?np (new_statuses r ch np)") (auto simp: RemoveDuplicateCIDRsInMultiNetworkPolicy_def)
  from deduplicated_destination [OF assms(3) ord m0 assms(4)] show ?thesis by simp
qed

text \<open>
  (C2) No destination out of thin air, for the whole system: whatever reconciliations, users and other
  policies did before, and with or without end ports, retention, failed lookups and lost writes, once a
  reconciliation has applied the policy, a destination that the object in the cluster permits on any
  port was an address of a successful DNS answer, received for this policy now or earlier, for a name
  that some rule of the spec lists, and that rule's filter on private addresses lets it through.
\<close>

theorem applied_destinations_resolved:
  assumes "cluster_run (rc_Client r) stat (np_Namespace np, np_Name np) h w"
    and "status_doc (rc_Client r) stat" and "client_doc (rc_Client r) obs" and "choices_ok ch"
    and "cl_Get_np (rc_Client r) (np_Namespace np, np_Name np) w = (Inr np, w1)" and "resolved_by_Resolve r ch np"
    and "sp_Egress (np_Spec np) \<noteq> []" and "gm_wf (np_Labels np)"
    and "Reconcile r ch (np_Namespace np, np_Name np) w = Some ((res, None), evs, w')" and "no_error_event evs"
    and "obs w' (np_Namespace np, np_Name np) = Some k" and "egress_permits (mnp_egress k) d proto n"
  shows "\<exists>rl \<in> set (sp_Egress (np_Spec np)). \<exists>f \<in> set (er_ToFQDNs rl).
    resolved_in (answers r ch np # h) f d \<and> isAllowed d (sp_BlockPrivateIPs (np_Spec np)) (er_BlockPrivateIPs rl)"
proof (rule Reconcile_applied [OF assms(3-5,7-9)], goal_cases)
  case (1 e)
  with assms(10) show ?case by (auto simp: no_error_event_def list_all_iff)
next
  case (2 np' m evs1 k')
  have "st_FQDNs (np_Status np) = stat w (np_Namespace np, np_Name np)"
    using assms(2,5) unfolding status_doc_def by blast
  then have "status_run h (st_FQDNs (np_Status np))" using cluster_status_run [OF assms(1,2)] by simp
  then have run: "status_run (answers r ch np # h) (new_statuses r ch np)" by (rule new_statuses_run [OF _ assms(4,6)])
  have "mnp_egress k = mnp_egress m" using 2(2,3) assms(11) by (simp add: applied_def spec_same_def mnp_egress_def)
  then show ?case using computed_destination [OF 2(1) assms(4) run] assms(12) by simp
qed

theorem applied_destinations_resolved_witness:
  "\<exists>rl \<in> set (sp_Egress (np_Spec one_name_np)). \<exists>f \<in> set (er_ToFQDNs rl).
     resolved_in [answers sample_reconciler sample_choices one_name_np] f ''8.8.8.8/32'' \<and>
     isAllowed ''8.8.8.8/32'' (sp_BlockPrivateIPs (np_Spec one_name_np)) (er_BlockPrivateIPs rl)"
proof -
  let ?key = "(np_Namespace one_name_np, np_Name one_name_np)"
  have key: "?key = (''ns'', ''p'')" by code_simp
  obtain res evs w' where r: "Reconcile sample_reconciler sample_choices ?key first_world = Some ((res, None), evs, w')"
    and evs: "no_error_event evs"
    using first_Reconcile unfolding key by (auto split: option.splits)
  have w': "w' = second_world" using r unfolding key by (simp add: second_world_def)
  have "case sample_obs second_world ?key of None \<Rightarrow> False | Some k \<Rightarrow> egress_permits (mnp_egress k) ''8.8.8.8/32'' ''TCP'' 443"
    by code_simp
  then obtain k where k: "sample_obs w' ?key = Some k" "egress_permits (mnp_egress k) ''8.8.8.8/32'' ''TCP'' 443"
    unfolding w' by (auto split: option.splits)
  have doc: "status_doc (rc_Client sample_reconciler) sample_stat" "client_doc (rc_Client sample_reconciler) sample_obs"
    using sample_status_doc sample_client_doc by (simp_all add: sample_reconciler_def)
  have get: "cl_Get_np (rc_Client sample_reconciler) ?key first_world = (Inr one_name_np, first_world)"
    using first_get unfolding key by (simp add: sample_reconciler_def)
  have run: "cluster_run (rc_Client sample_reconciler) sample_stat ?key [] first_world"
    by (rule cluster_run.start) code_simp
  have wf: "sp_Egress (np_Spec one_name_np) \<noteq> []" "gm_wf (np_Labels one_name_np)" by code_simp+
  show ?thesis
    by (rule applied_destinations_resolved [OF run doc sample_choices_ok get one_name_resolved wf r evs k])
qed

end
